theory Spec2Isabelle
  imports Main
begin

section \<open>The instruction list\<close>

text \<open>
  The parser of \<^verbatim>\<open>ppap.py\<close> produces a list of tuples whose first component is a tag
  string (\<^verbatim>\<open>('REGISTER', name, value)\<close>, \<^verbatim>\<open>('MOV', a, b)\<close>, ...). Both back ends
  dispatch on that tag. The tuples are modelled by one constructor per tag, with the
  source's tag as the constructor name; \<^verbatim>\<open>('PUTC', r1, ..., rn)\<close> carries the list of
  its register names.
\<close>

datatype instr =
    REGISTER string int
  | LABEL string
  | MOV string string
  | ADD string string
  | SUB string string
  | MUL string string
  | DIV string string
  | STORE string string
  | LOAD string string
  | PRINT string
  | PUTC "string list"
  | GETC string
  | EQ string string
  | JEQ string string string
  | NE string string
  | JNE string string string
  | GT string string
  | JGT string string string
  | GE string string
  | JGE string string string
  | JMP string

section \<open>Python values the interpreter relies on\<close>

text \<open>
  The exceptions that \<^verbatim>\<open>run\<close> can raise. \<open>KeyError k\<close> is a failed dictionary lookup
  (\<^verbatim>\<open>registers[k]\<close>, \<^verbatim>\<open>label_map[k]\<close>), \<open>ValueError msg\<close> is raised by the two explicit
  \<^verbatim>\<open>raise ValueError(...)\<close> statements, by \<^verbatim>\<open>chr\<close> and by the conversions between \<^verbatim>\<open>int\<close>
  and \<^verbatim>\<open>str\<close>, \<open>TypeError\<close> by \<^verbatim>\<open>ord('')\<close>, \<open>ZeroDivisionError\<close> and \<open>OverflowError\<close> by
  \<^verbatim>\<open>/\<close> and \<^verbatim>\<open>chr\<close>, \<open>UnicodeEncodeError\<close> by \<^verbatim>\<open>print\<close>.
\<close>

datatype py_error =
    KeyError string
  | ValueError string
  | TypeError
  | ZeroDivisionError
  | OverflowError
  | UnicodeEncodeError

subsection \<open>\<^verbatim>\<open>int / int\<close> and \<^verbatim>\<open>int(float)\<close>\<close>

text \<open>
  \<^verbatim>\<open>DIV\<close> is executed as \<^verbatim>\<open>int(registers[a] / registers[b])\<close>. In Python 3 the operator
  \<^verbatim>\<open>/\<close> on two integers is true division: it returns the IEEE 754 double nearest to the
  exact quotient (ties to even), raises \<^verbatim>\<open>ZeroDivisionError\<close> for a zero divisor and
  \<^verbatim>\<open>OverflowError\<close> when the rounded quotient is not below \<open>2^1024\<close>. \<^verbatim>\<open>int\<close> then
  truncates the double toward zero. A finite double is represented by its magnitude
  \<open>m * 2^e\<close> as the pair \<open>(m, e)\<close>, the sign being handled by the caller.
\<close>

function bit_length :: "int \<Rightarrow> nat" where
  "bit_length n = (if n \<le> 0 then 0 else Suc (bit_length (n div 2)))"
  by pat_completeness auto
termination
  by (relation "measure nat") auto

declare bit_length.simps [simp del]

definition round_half_even :: "int \<Rightarrow> int \<Rightarrow> int" where
  "round_half_even num den =
     (let q = num div den; r = num mod den
      in if 2 * r < den then q
         else if den < 2 * r then q + 1
         else if even q then q else q + 1)"

text \<open>
  \<open>floor_log2 n d\<close> is the integer \<open>k\<close> with \<open>2^k \<le> n / d < 2^(k+1)\<close>, for positive
  \<open>n\<close> and \<open>d\<close>.
\<close>

definition floor_log2 :: "int \<Rightarrow> int \<Rightarrow> int" where
  "floor_log2 n d =
     (let k0 = int (bit_length n) - int (bit_length d)
      in if (if 0 \<le> k0 then d * 2 ^ nat k0 \<le> n else d \<le> n * 2 ^ nat (- k0))
         then k0 else k0 - 1)"

text \<open>
  The double nearest to \<open>n / d\<close> for \<open>n \<ge> 0\<close> and \<open>d > 0\<close>: 53 significant bits, the
  exponent of the last bit not below \<open>-1074\<close> (subnormal numbers), \<open>None\<close> when the
  result overflows.
\<close>

definition nearest_double :: "int \<Rightarrow> int \<Rightarrow> (int \<times> int) option" where
  "nearest_double n d =
     (if n = 0 then Some (0, 0)
      else
        let e = max (floor_log2 n d - 52) (- 1074);
            m = (if 0 \<le> e then round_half_even n (d * 2 ^ nat e)
                 else round_half_even (n * 2 ^ nat (- e)) d)
        in if 0 \<le> e \<and> 2 ^ 1024 \<le> m * 2 ^ nat e then None else Some (m, e))"

definition trunc_double :: "int \<times> int \<Rightarrow> int" where
  "trunc_double f =
     (case f of (m, e) \<Rightarrow> if 0 \<le> e then m * 2 ^ nat e else m div 2 ^ nat (- e))"

definition int_true_div :: "int \<Rightarrow> int \<Rightarrow> py_error + int" where
  "int_true_div a b =
     (if b = 0 then Inl ZeroDivisionError
      else case nearest_double \<bar>a\<bar> \<bar>b\<bar> of
             None \<Rightarrow> Inl OverflowError
           | Some f \<Rightarrow> Inr (sgn a * sgn b * trunc_double f))"

subsection \<open>Decimal text of an integer\<close>

function digits10 :: "int \<Rightarrow> string" where
  "digits10 n =
     (if n < 10 then [''0123456789'' ! nat n]
      else digits10 (n div 10) @ [''0123456789'' ! nat (n mod 10)])"
  by pat_completeness auto
termination
  by (relation "measure nat") auto

declare digits10.simps [simp del]

definition str_int :: "int \<Rightarrow> string" where
  "str_int i = (if i < 0 then CHR ''-'' # digits10 (- i) else digits10 i)"

text \<open>
  CPython refuses to convert between \<^verbatim>\<open>int\<close> and \<^verbatim>\<open>str\<close> when more than
  \<^verbatim>\<open>sys.get_int_max_str_digits()\<close> decimal digits are involved, 4300 unless it has been
  changed, and raises \<^verbatim>\<open>ValueError\<close>. \<open>format_int\<close> is \<^verbatim>\<open>f'{i}'\<close>; the sign does not count.
\<close>

definition max_str_digits :: nat where
  "max_str_digits = 4300"

definition format_int :: "int \<Rightarrow> py_error + string" where
  "format_int i =
     (if max_str_digits < length (digits10 \<bar>i\<bar>)
      then Inl (ValueError
             (''Exceeds the limit (4300 digits) for integer string conversion; '' @
              ''use sys.set_int_max_str_digits() to increase the limit''))
      else Inr (str_int i))"

definition codepoints :: "string \<Rightarrow> nat list" where
  "codepoints s = map of_char s"

section \<open>The interpreter \<^verbatim>\<open>run\<close>\<close>

text \<open>
  The local variables of \<^verbatim>\<open>run\<close>: the program counter, the two dictionaries
  \<^verbatim>\<open>registers\<close> and \<^verbatim>\<open>memory\<close>, and the two text streams. \<open>stdin\<close> is the list of
  code points that successive \<^verbatim>\<open>sys.stdin.read(1)\<close> calls still have to deliver (the empty
  list: \<^verbatim>\<open>read(1)\<close> returns \<^verbatim>\<open>''\<close>); \<open>stdout\<close> is the list of code points written so far.
\<close>

record machine =
  pc :: nat
  registers :: "string \<rightharpoonup> int"
  memory :: "int \<rightharpoonup> int"
  stdin :: "nat list"
  stdout :: "nat list"

text \<open>
  An instruction either completes (\<open>Inr\<close>, the new state) or raises (\<open>Inl\<close>, the
  exception together with the state at the moment it is raised).
\<close>

type_synonym result = "(py_error \<times> machine) + machine"

definition memory_size :: int where
  "memory_size = 2 ^ 24"

text \<open>The first loop of \<^verbatim>\<open>run\<close>: a later label of the same name overwrites the entry.\<close>

definition label_map :: "instr list \<Rightarrow> (string \<rightharpoonup> nat)" where
  "label_map data =
     fold (\<lambda>(i, op) m. case op of LABEL l \<Rightarrow> m(l \<mapsto> i) | _ \<Rightarrow> m)
       (enumerate 0 data) Map.empty"

text \<open>
  \<^verbatim>\<open>registers[a] = f(registers[a], registers[b])\<close>: the left operand is looked up first.
  This is the shape of \<^verbatim>\<open>ADD\<close>, \<^verbatim>\<open>SUB\<close>, \<^verbatim>\<open>MUL\<close>, \<^verbatim>\<open>DIV\<close> and of the four comparisons.
\<close>

definition binary_op ::
  "(int \<Rightarrow> int \<Rightarrow> py_error + int) \<Rightarrow> string \<Rightarrow> string \<Rightarrow> machine \<Rightarrow> result" where
  "binary_op f a b s =
     (case registers s a of
        None \<Rightarrow> Inl (KeyError a, s)
      | Some x \<Rightarrow>
          (case registers s b of
             None \<Rightarrow> Inl (KeyError b, s)
           | Some y \<Rightarrow>
               (case f x y of
                  Inl e \<Rightarrow> Inl (e, s)
                | Inr v \<Rightarrow> Inr (s\<lparr>registers := (registers s)(a \<mapsto> v)\<rparr>))))"

text \<open>\<^verbatim>\<open>if registers[a] <cond> registers[b]: pc = label_map[l]\<close>\<close>

definition conditional_jump ::
  "(string \<rightharpoonup> nat) \<Rightarrow> (int \<Rightarrow> int \<Rightarrow> bool) \<Rightarrow> string \<Rightarrow> string \<Rightarrow> string \<Rightarrow> machine \<Rightarrow> result"
  where
  "conditional_jump lm cond a b l s =
     (case registers s a of
        None \<Rightarrow> Inl (KeyError a, s)
      | Some x \<Rightarrow>
          (case registers s b of
             None \<Rightarrow> Inl (KeyError b, s)
           | Some y \<Rightarrow>
               if cond x y
               then (case lm l of None \<Rightarrow> Inl (KeyError l, s) | Some i \<Rightarrow> Inr (s\<lparr>pc := i\<rparr>))
               else Inr s))"

text \<open>
  \<^verbatim>\<open>chr(c)\<close> accepts \<open>0 \<le> c < 0x110000\<close>; other values raise \<^verbatim>\<open>ValueError\<close>, or
  \<^verbatim>\<open>OverflowError\<close> when they do not fit a C int.
\<close>

definition py_chr :: "int \<Rightarrow> py_error + nat" where
  "py_chr c =
     (if 0 \<le> c \<and> c < 1114112 then Inr (nat c)
      else if - (2 ^ 31) \<le> c \<and> c < 2 ^ 31 then Inl (ValueError ''chr() arg not in range(0x110000)'')
      else Inl OverflowError)"

text \<open>
  The loop of \<^verbatim>\<open>PUTC\<close>: characters printed before a failing lookup stay printed.
  \<^verbatim>\<open>print\<close> encodes the character for \<^verbatim>\<open>sys.stdout\<close>, taken to be UTF-8: a surrogate
  (\<open>0xD800\<close> to \<open>0xDFFF\<close>) cannot be encoded and raises \<^verbatim>\<open>UnicodeEncodeError\<close>.
\<close>

fun putc_loop :: "string list \<Rightarrow> machine \<Rightarrow> result" where
  "putc_loop [] s = Inr s"
| "putc_loop (r # rs) s =
     (case registers s r of
        None \<Rightarrow> Inl (KeyError r, s)
      | Some c \<Rightarrow>
          (case py_chr c of
             Inl e \<Rightarrow> Inl (e, s)
           | Inr ch \<Rightarrow>
               if 55296 \<le> ch \<and> ch \<le> 57343 then Inl (UnicodeEncodeError, s)
               else putc_loop rs (s\<lparr>stdout := stdout s @ [ch]\<rparr>)))"

text \<open>
  The body of the \<^verbatim>\<open>while\<close> loop after \<^verbatim>\<open>pc += 1\<close>, one equation per \<^verbatim>\<open>if op[0] == ...\<close>
  block of the source. \<open>lm\<close> is the label map.
\<close>

fun exec_op :: "(string \<rightharpoonup> nat) \<Rightarrow> instr \<Rightarrow> machine \<Rightarrow> result" where
  "exec_op lm (REGISTER r v) s = Inr (s\<lparr>registers := (registers s)(r \<mapsto> v)\<rparr>)"
| "exec_op lm (LABEL l) s = Inr s"
| "exec_op lm (MOV a b) s =
     (case registers s b of
        None \<Rightarrow> Inl (KeyError b, s)
      | Some y \<Rightarrow> Inr (s\<lparr>registers := (registers s)(a \<mapsto> y)\<rparr>))"
| "exec_op lm (ADD a b) s = binary_op (\<lambda>x y. Inr (x + y)) a b s"
| "exec_op lm (SUB a b) s = binary_op (\<lambda>x y. Inr (x - y)) a b s"
| "exec_op lm (MUL a b) s = binary_op (\<lambda>x y. Inr (x * y)) a b s"
| "exec_op lm (DIV a b) s = binary_op int_true_div a b s"
| "exec_op lm (STORE a b) s =
     (case registers s b of
        None \<Rightarrow> Inl (KeyError b, s)
      | Some addr \<Rightarrow>
          if addr \<ge> memory_size \<or> addr < 0
          then Inl (ValueError ''memory address to store is out of range'', s)
          else (case registers s a of
                  None \<Rightarrow> Inl (KeyError a, s)
                | Some v \<Rightarrow> Inr (s\<lparr>memory := (memory s)(addr \<mapsto> v)\<rparr>)))"
| "exec_op lm (LOAD a b) s =
     (case registers s b of
        None \<Rightarrow> Inl (KeyError b, s)
      | Some addr \<Rightarrow>
          if addr \<ge> memory_size \<or> addr < 0
          then Inl (ValueError ''memory address to load is out of range'', s)
          else Inr (s\<lparr>registers := (registers s)
                      (a \<mapsto> (case memory s addr of None \<Rightarrow> 0 | Some v \<Rightarrow> v))\<rparr>))"
| "exec_op lm (PRINT a) s =
     (case registers s a of
        None \<Rightarrow> Inl (KeyError a, s)
      | Some v \<Rightarrow>
          (case format_int v of
             Inl e \<Rightarrow> Inl (e, s)
           | Inr txt \<Rightarrow> Inr (s\<lparr>stdout := stdout s @ codepoints txt\<rparr>)))"
| "exec_op lm (PUTC rs) s = putc_loop rs s"
| "exec_op lm (GETC a) s =
     (case stdin s of
        [] \<Rightarrow> Inl (TypeError, s)
      | c # rest \<Rightarrow> Inr (s\<lparr>stdin := rest, registers := (registers s)(a \<mapsto> int c)\<rparr>))"
| "exec_op lm (EQ a b) s = binary_op (\<lambda>x y. Inr (if x = y then 1 else 0)) a b s"
| "exec_op lm (JEQ a b l) s = conditional_jump lm (\<lambda>x y. x = y) a b l s"
| "exec_op lm (NE a b) s = binary_op (\<lambda>x y. Inr (if x \<noteq> y then 1 else 0)) a b s"
| "exec_op lm (JNE a b l) s = conditional_jump lm (\<lambda>x y. x \<noteq> y) a b l s"
| "exec_op lm (GT a b) s = binary_op (\<lambda>x y. Inr (if x > y then 1 else 0)) a b s"
| "exec_op lm (JGT a b l) s = conditional_jump lm (\<lambda>x y. x > y) a b l s"
| "exec_op lm (GE a b) s = binary_op (\<lambda>x y. Inr (if x \<ge> y then 1 else 0)) a b s"
| "exec_op lm (JGE a b l) s = conditional_jump lm (\<lambda>x y. x \<ge> y) a b l s"
| "exec_op lm (JMP l) s =
     (case lm l of None \<Rightarrow> Inl (KeyError l, s) | Some i \<Rightarrow> Inr (s\<lparr>pc := i\<rparr>))"

text \<open>
  One iteration of the \<^verbatim>\<open>while pc < len(data)\<close> loop: fetch, \<^verbatim>\<open>pc += 1\<close>, dispatch.
  It is only applied to states with \<open>pc s < length data\<close>.
\<close>

definition step :: "instr list \<Rightarrow> machine \<Rightarrow> result" where
  "step data s = exec_op (label_map data) (data ! pc s) (s\<lparr>pc := pc s + 1\<rparr>)"

text \<open>
  The loop itself may run forever (a jump cycle), so it is given fuel: \<open>None\<close> means that
  the loop has not left after \<open>n\<close> iterations.
\<close>

fun run_loop :: "nat \<Rightarrow> instr list \<Rightarrow> machine \<Rightarrow> result option" where
  "run_loop n data s =
     (if pc s < length data
      then (case n of
              0 \<Rightarrow> None
            | Suc k \<Rightarrow> (case step data s of Inl e \<Rightarrow> Some (Inl e) | Inr s' \<Rightarrow> run_loop k data s'))
      else Some (Inr s))"

declare run_loop.simps [simp del]

definition initial :: "nat list \<Rightarrow> machine" where
  "initial inp = \<lparr>pc = 0, registers = Map.empty, memory = Map.empty, stdin = inp, stdout = []\<rparr>"

definition run :: "nat \<Rightarrow> instr list \<Rightarrow> nat list \<Rightarrow> result option" where
  "run fuel data inp = run_loop fuel data (initial inp)"

subsection \<open>Which iterations write a memory cell\<close>

text \<open>
  \<open>stores_to a data s\<close>: the instruction about to be executed in state \<open>s\<close> is a
  \<^verbatim>\<open>STORE\<close> whose address register holds \<open>a\<close>. \<open>runs_without_store a data s u\<close>: the loop
  gets from state \<open>s\<close> to state \<open>u\<close> in zero or more iterations, none of which is such a
  \<^verbatim>\<open>STORE\<close> and none of which raises.
\<close>

definition stores_to :: "int \<Rightarrow> instr list \<Rightarrow> machine \<Rightarrow> bool" where
  "stores_to a data s =
     (case data ! pc s of STORE src r \<Rightarrow> registers s r = Some a | _ \<Rightarrow> False)"

inductive runs_without_store :: "int \<Rightarrow> instr list \<Rightarrow> machine \<Rightarrow> machine \<Rightarrow> bool"
  for a :: int and data :: "instr list" where
    here: "runs_without_store a data s s"
  | later: "pc s < length data \<Longrightarrow> \<not> stores_to a data s \<Longrightarrow> step data s = Inr t \<Longrightarrow>
       runs_without_store a data t u \<Longrightarrow> runs_without_store a data s u"

section \<open>The lowering pass \<^verbatim>\<open>to_c\<close>\<close>

text \<open>
  \<^verbatim>\<open>to_c\<close> only prints. The model returns the list of the strings passed to \<^verbatim>\<open>print\<close>, in
  order; \<^verbatim>\<open>print\<close> writes each of them followed by a newline, which \<open>printed\<close> adds.
\<close>

definition newline :: char where
  "newline = CHR 0x0A"

definition printed :: "string list \<Rightarrow> string" where
  "printed ls = concat (map (\<lambda>l. l @ [newline]) ls)"

text \<open>The first loop: one \<^verbatim>\<open>int\<close> declaration per register name, at its first \<^verbatim>\<open>REGISTER\<close>.\<close>

fun declarations :: "instr list \<Rightarrow> string list \<Rightarrow> string list" where
  "declarations [] register_names = []"
| "declarations (REGISTER r v # data) register_names =
     (if r \<notin> set register_names
      then (''    int '' @ r @ '';'') # declarations data (register_names @ [r])
      else declarations data register_names)"
| "declarations (op # data) register_names = declarations data register_names"

definition need_memory :: "instr list \<Rightarrow> bool" where
  "need_memory data =
     list_ex (\<lambda>op. case op of STORE a b \<Rightarrow> True | LOAD a b \<Rightarrow> True | _ \<Rightarrow> False) data"

text \<open>\<^verbatim>\<open>'_'.join(label.split('-'))\<close>\<close>

fun split_hyphen :: "string \<Rightarrow> string \<Rightarrow> string list" where
  "split_hyphen [] cur = [cur]"
| "split_hyphen (c # cs) cur =
     (if c = CHR ''-'' then cur # split_hyphen cs [] else split_hyphen cs (cur @ [c]))"

fun join_underscore :: "string list \<Rightarrow> string" where
  "join_underscore [] = []"
| "join_underscore [x] = x"
| "join_underscore (x # y # ys) = x @ ''_'' @ join_underscore (y # ys)"

definition c_label :: "string \<Rightarrow> string" where
  "c_label label = join_underscore (split_hyphen label [])"

definition ternary_operator :: "string \<Rightarrow> string \<Rightarrow> string \<Rightarrow> string list" where
  "ternary_operator a b cond =
     [''    '' @ a @ '' = ('' @ a @ '' '' @ cond @ '' '' @ b @ '' ? 1 : 0)'']"

definition conditional_jump_c :: "string \<Rightarrow> string \<Rightarrow> string \<Rightarrow> string \<Rightarrow> string list" where
  "conditional_jump_c a b l cond =
     [''    if ('' @ a @ '' '' @ cond @ '' '' @ b @ '') {'' @ [newline] @
      ''        goto '' @ c_label l @ '';'' @ [newline] @ ''    }'']"

text \<open>The second loop: the strings printed for one instruction.\<close>

fun statement :: "instr \<Rightarrow> string list" where
  "statement (REGISTER r v) = [''    '' @ r @ '' = '' @ str_int v @ '';'']"
| "statement (LABEL l) = [[newline] @ c_label l @ '':'']"
| "statement (MOV a b) = [''    '' @ a @ '' = '' @ b @ '';'']"
| "statement (ADD a b) = [''    '' @ a @ '' += '' @ b @ '';'']"
| "statement (SUB a b) = [''    '' @ a @ '' -= '' @ b @ '';'']"
| "statement (MUL a b) = [''    '' @ a @ '' *= '' @ b @ '';'']"
| "statement (DIV a b) = [''    '' @ a @ '' /= '' @ b @ '';'']"
| "statement (STORE a b) = [''    memory['' @ b @ ''] = '' @ a @ '';'']"
| "statement (LOAD a b) = [''    '' @ a @ '' = memory['' @ b @ ''];'']"
| "statement (PRINT a) = [''    printf('' @ [CHR 0x22] @ ''%d'' @ [CHR 0x22] @ '', '' @ a @ '');'']"
| "statement (PUTC rs) = map (\<lambda>r. ''    putchar('' @ r @ '');'') rs"
| "statement (GETC a) = [''    '' @ a @ '' = getchar();'']"
| "statement (EQ a b) = ternary_operator a b ''==''"
| "statement (JEQ a b l) = conditional_jump_c a b l ''==''"
| "statement (NE a b) = ternary_operator a b ''!=''"
| "statement (JNE a b l) = conditional_jump_c a b l ''!=''"
| "statement (GT a b) = ternary_operator a b ''>''"
| "statement (JGT a b l) = conditional_jump_c a b l ''>''"
| "statement (GE a b) = ternary_operator a b ''>=''"
| "statement (JGE a b l) = conditional_jump_c a b l ''>=''"
| "statement (JMP l) = [''    goto '' @ c_label l @ '';'']"

definition to_c :: "instr list \<Rightarrow> string list" where
  "to_c data =
     [''#include <stdio.h>'' @ [newline] @ ''#include <stdlib.h>'' @ [newline] @ [newline] @
      ''int main(void) {''] @
     declarations data [] @
     [''''] @
     (if need_memory data
      then [''#define MEMORY_SIZE (1 << 24)'',
            ''    int *memory = calloc(MEMORY_SIZE, sizeof(int));'' @ [newline]]
      else []) @
     concat (map statement data) @
     [''    return 0;'' @ [newline] @ ''}'']"

section \<open>The tokenizer\<close>

text \<open>
  The grammar symbols. Terminals (prefix \<open>T_\<close>): the upper-cased keywords of
  \<^verbatim>\<open>keywords\<close>, the other entries of \<^verbatim>\<open>tokens\<close>, and the two that \<^verbatim>\<open>ply.yacc\<close> adds,
  \<^verbatim>\<open>error\<close> and \<^verbatim>\<open>$end\<close>. Nonterminals (prefix \<open>N_\<close>): the left-hand sides of the
  grammar rules in the docstrings of the \<^verbatim>\<open>p_\<close> functions, and the start symbol \<^verbatim>\<open>S'\<close> that
  \<^verbatim>\<open>ply.yacc\<close> adds.
\<close>

datatype symbol =
    T_I | T_UH
  | T_REPLACE | T_APPEND | T_RIP | T_MULTIPLY | T_CHOP
  | T_PUSH | T_PULL | T_PRINT | T_PUT | T_PICK
  | T_COMPARE | T_SUPERIOR | T_JUMP
  | T_HAVE | T_NO | T_A | T_NUMBER | T_REGISTER
  | T_HYPHEN
  | T_SPACE | T_NEWLINE
  | T_QUESTION_MARK | T_EXCLAMATION_MARK
  | T_error | T_end
  | N_S' | N_program | N_line | N_uh | N_empty_or_space | N_register_declaration
  | N_number | N_label | N_register | N_command
  | N_replace | N_append | N_rip | N_multiply | N_chop | N_push | N_pull
  | N_print | N_put | N_registers | N_pick | N_compare | N_superior | N_jump

text \<open>
  The Python values that occur as token values and as values of grammar symbols:
  \<^verbatim>\<open>None\<close>, strings, integers, instruction tuples (among them \<^verbatim>\<open>('LABEL', name)\<close>), the
  tuple of names built by \<^verbatim>\<open>p_registers\<close>, the instruction list, and a \<^verbatim>\<open>LexToken\<close>
  (type, value, line number), which is the value of an \<^verbatim>\<open>error\<close> symbol.
\<close>

datatype pyval =
    PNone
  | PStr string
  | PInt int
  | PTuple instr
  | PNames "string list"
  | PList "instr list"
  | PLexToken symbol pyval nat

text \<open>The lines written to \<^verbatim>\<open>sys.stderr\<close>, and their text.\<close>

datatype diag =
    IllegalCharacter char
  | SyntaxError nat string
  | SyntaxErrorAtEof
  | UndeclaredRegister nat string
  | MissingP nat string
  | LabelExists string

text \<open>A grammar symbol as the parser holds it: a token, or a reduced nonterminal.\<close>

record sym =
  stype :: symbol
  svalue :: pyval
  slineno :: nat

definition keyword_map :: "(string \<times> symbol) list" where
  "keyword_map =
     [(''I'', T_I), (''Uh'', T_UH),
      (''Replace'', T_REPLACE), (''Append'', T_APPEND), (''Rip'', T_RIP),
      (''Multiply'', T_MULTIPLY), (''Chop'', T_CHOP),
      (''Push'', T_PUSH), (''Pull'', T_PULL), (''Print'', T_PRINT), (''Put'', T_PUT),
      (''Pick'', T_PICK),
      (''Compare'', T_COMPARE), (''Superior'', T_SUPERIOR), (''Jump'', T_JUMP)]"

definition is_digit :: "char \<Rightarrow> bool" where
  "is_digit c = (c \<in> set ''0123456789'')"

definition is_upper :: "char \<Rightarrow> bool" where
  "is_upper c = (c \<in> set ''ABCDEFGHIJKLMNOPQRSTUVWXYZ'')"

definition is_alnum :: "char \<Rightarrow> bool" where
  "is_alnum c =
     (c \<in> set ''ABCDEFGHIJKLMNOPQRSTUVWXYZabcdefghijklmnopqrstuvwxyz0123456789'')"

definition is_blank :: "char \<Rightarrow> bool" where
  "is_blank c = (c = CHR '' '' \<or> c = CHR 0x09)"

text \<open>
  \<^verbatim>\<open>int(t.value)\<close> on a string of decimal digits: \<^verbatim>\<open>ValueError\<close> for more than
  \<open>max_str_digits\<close> digits (leading zeros count).
\<close>

definition digit_value :: "char \<Rightarrow> int" where
  "digit_value c = int (length (takeWhile (\<lambda>d. d \<noteq> c) ''0123456789''))"

definition int_of_digits :: "string \<Rightarrow> int" where
  "int_of_digits s = foldl (\<lambda>n c. 10 * n + digit_value c) 0 s"

definition int_of_str :: "string \<Rightarrow> py_error + int" where
  "int_of_str s =
     (if max_str_digits < length s
      then Inl (ValueError
             (''Exceeds the limit (4300 digits) for integer string conversion: value has '' @
              str_int (int (length s)) @
              '' digits; use sys.set_int_max_str_digits() to increase the limit''))
      else Inr (int_of_digits s))"

text \<open>
  The lexer object: the input not yet consumed and \<^verbatim>\<open>lexer.lineno\<close>. \<open>token\<close> is
  \<^verbatim>\<open>lexer.token()\<close>: it returns what \<^verbatim>\<open>t_error\<close> printed on the way and either the
  exception raised by \<^verbatim>\<open>t_NUMBER\<close> or the next token (\<open>None\<close> at the end of the input)
  with the new lexer. The rules are tried in the order of
  the master regular expression that \<^verbatim>\<open>ply.lex\<close> builds: the function rules in the order
  of their definition, then the string rules by decreasing length of their pattern.
  The input is a string of code points below 256, where \<^verbatim>\<open>\d\<close> matches the ASCII digits
  only.
\<close>

function token ::
  "string \<Rightarrow> nat \<Rightarrow> diag list \<Rightarrow> diag list \<times> (py_error + sym option \<times> string \<times> nat)" where
  "token [] lineno ds = (ds, Inr (None, [], lineno))"
| "token (c # cs) lineno ds =
     (if is_digit c then \<comment> \<open>\<^verbatim>\<open>t_NUMBER\<close>, one or more digits\<close>
        (case int_of_str (c # takeWhile is_digit cs) of
           Inl e \<Rightarrow> (ds, Inl e)
         | Inr i \<Rightarrow>
             (ds, Inr (Some \<lparr>stype = T_NUMBER, svalue = PInt i, slineno = lineno\<rparr>,
                       dropWhile is_digit cs, lineno)))
      else if is_upper c then \<comment> \<open>\<^verbatim>\<open>t_REGISTER\<close>: \<^verbatim>\<open>[A-Z][A-Za-z0-9]*\<close>\<close>
        (let v = c # takeWhile is_alnum cs
         in (ds, Inr (Some \<lparr>stype = (case map_of keyword_map v of Some k \<Rightarrow> k | None \<Rightarrow> T_REGISTER),
                       svalue = PStr v, slineno = lineno\<rparr>,
             dropWhile is_alnum cs, lineno)))
      else if c = CHR 0x0D \<and> take 1 cs = [CHR 0x0A] then \<comment> \<open>\<^verbatim>\<open>t_NEWLINE\<close>, a line feed with or without a carriage return before it\<close>
        (ds, Inr (Some \<lparr>stype = T_NEWLINE, svalue = PStr [CHR 0x0D, CHR 0x0A], slineno = lineno\<rparr>,
         drop 1 cs, lineno + 1))
      else if c = CHR 0x0A then
        (ds, Inr (Some \<lparr>stype = T_NEWLINE, svalue = PStr [CHR 0x0A], slineno = lineno\<rparr>,
         cs, lineno + 1))
      else if c = CHR ''#'' then \<comment> \<open>\<^verbatim>\<open>t_ignore_COMMENT\<close>, up to the line feed; no token\<close>
        token (dropWhile (\<lambda>d. d \<noteq> CHR 0x0A) cs) lineno ds
      else if is_blank c then \<comment> \<open>\<^verbatim>\<open>t_SPACE\<close>, one or more blanks or tabs\<close>
        (ds, Inr (Some \<lparr>stype = T_SPACE, svalue = PStr (c # takeWhile is_blank cs), slineno = lineno\<rparr>,
         dropWhile is_blank cs, lineno))
      else if take 4 (c # cs) = ''have'' then \<comment> \<open>\<^verbatim>\<open>t_HAVE\<close>\<close>
        (ds, Inr (Some \<lparr>stype = T_HAVE, svalue = PStr ''have'', slineno = lineno\<rparr>, drop 3 cs, lineno))
      else if c = CHR ''a'' then \<comment> \<open>\<^verbatim>\<open>t_A\<close>: \<^verbatim>\<open>an?\<close>\<close>
        (if take 1 cs = ''n''
         then (ds, Inr (Some \<lparr>stype = T_A, svalue = PStr ''an'', slineno = lineno\<rparr>, drop 1 cs, lineno))
         else (ds, Inr (Some \<lparr>stype = T_A, svalue = PStr ''a'', slineno = lineno\<rparr>, cs, lineno)))
      else if take 2 (c # cs) = ''no'' then \<comment> \<open>\<^verbatim>\<open>t_NO\<close>\<close>
        (ds, Inr (Some \<lparr>stype = T_NO, svalue = PStr ''no'', slineno = lineno\<rparr>, drop 1 cs, lineno))
      else if c = CHR ''?'' then
        (ds, Inr (Some \<lparr>stype = T_QUESTION_MARK, svalue = PStr ''?'', slineno = lineno\<rparr>, cs, lineno))
      else if c = CHR ''-'' then
        (ds, Inr (Some \<lparr>stype = T_HYPHEN, svalue = PStr ''-'', slineno = lineno\<rparr>, cs, lineno))
      else if c = CHR ''!'' then
        (ds, Inr (Some \<lparr>stype = T_EXCLAMATION_MARK, svalue = PStr ''!'', slineno = lineno\<rparr>, cs, lineno))
      else \<comment> \<open>\<^verbatim>\<open>t_error\<close>: report the character and skip it\<close>
        token cs lineno (ds @ [IllegalCharacter c]))"
  by pat_completeness auto
termination
  by (relation "measure (\<lambda>(s, lineno, ds). length s)")
     (auto simp: le_imp_less_Suc length_dropWhile_le)

definition render :: "diag \<Rightarrow> string" where
  "render d =
     (case d of
        IllegalCharacter c \<Rightarrow> ''Illegal character '' @ [CHR 0x27, c, CHR 0x27]
      | SyntaxError n v \<Rightarrow>
          ''line '' @ str_int (int n) @ '': '' @ [CHR 0x27] @ v @ [CHR 0x27] @ '' syntax error''
      | SyntaxErrorAtEof \<Rightarrow> ''syntax error at eof''
      | UndeclaredRegister n r \<Rightarrow>
          ''line '' @ str_int (int n) @ '': '' @ [CHR 0x27] @ r @ [CHR 0x27] @
          '' is an undeclared register''
      | MissingP n r \<Rightarrow>
          ''line '' @ str_int (int n) @ '': '' @ [CHR 0x27] @ r @ [CHR 0x27] @
          '' does not include '' @ [CHR 0x27] @ ''p'' @ [CHR 0x27] @ '' or '' @
          [CHR 0x27] @ ''P'' @ [CHR 0x27]
      | LabelExists l \<Rightarrow> [CHR 0x27] @ l @ [CHR 0x27] @ '' label already exists'')"

section \<open>The parser\<close>

subsection \<open>State\<close>

text \<open>
  Everything the parse reads and writes: the lexer (\<open>lexdata\<close>, the input not yet
  consumed, and \<open>lineno\<close>), the local variables of the parsing loop of \<^verbatim>\<open>ply.yacc\<close>
  (\<open>lookahead\<close>, \<open>lookaheadstack\<close>, \<open>statestack\<close>, \<open>symstack\<close>, \<open>errorcount\<close>), the
  module globals \<open>register_names\<close> and \<open>label_names\<close>, the attribute \<^verbatim>\<open>parser.error\<close>, and
  what has been written to \<^verbatim>\<open>sys.stderr\<close>. The three stacks have their top at the head
  of the list.
\<close>

record parser =
  lexdata :: string
  lineno :: nat
  lookahead :: "sym option"
  lookaheadstack :: "sym list"
  statestack :: "nat list"
  symstack :: "sym list"
  errorcount :: nat
  register_names :: "string list"
  label_names :: "string list"
  error :: nat
  stderr :: "diag list"

subsection \<open>Grammar actions\<close>

text \<open>
  A grammar action receives \<open>p\<close>, the symbols of the right-hand side: \<open>pv p i\<close> is
  \<^verbatim>\<open>p[i]\<close>, \<open>plineno p i\<close> is \<^verbatim>\<open>p.lineno(i)\<close> and \<open>len p\<close> is \<^verbatim>\<open>len(p)\<close> (which counts
  \<^verbatim>\<open>p[0]\<close>). It returns \<^verbatim>\<open>p[0]\<close> and the new state.
\<close>

definition pv :: "sym list \<Rightarrow> nat \<Rightarrow> pyval" where
  "pv p i = svalue (p ! (i - 1))"

definition plineno :: "sym list \<Rightarrow> nat \<Rightarrow> nat" where
  "plineno p i = slineno (p ! (i - 1))"

definition len :: "sym list \<Rightarrow> nat" where
  "len p = length p + 1"

text \<open>Truth value of a Python value, as tested by \<^verbatim>\<open>if p[3] and p[5]\<close>.\<close>

fun truthy :: "pyval \<Rightarrow> bool" where
  "truthy PNone = False"
| "truthy (PStr s) = (s \<noteq> [])"
| "truthy (PInt i) = (i \<noteq> 0)"
| "truthy (PTuple t) = True"
| "truthy (PNames ns) = (ns \<noteq> [])"
| "truthy (PList l) = (l \<noteq> [])"
| "truthy (PLexToken ty v n) = True"

text \<open>
  The grammar puts a string where the actions use one as a register name, an integer
  where they use one as an initial value, and so on; the second equations of the
  following projections are never reached.
\<close>

fun str_of :: "pyval \<Rightarrow> string" where
  "str_of (PStr s) = s"
| "str_of v = []"

fun int_of :: "pyval \<Rightarrow> int" where
  "int_of (PInt i) = i"
| "int_of v = 0"

fun names_of :: "pyval \<Rightarrow> string list" where
  "names_of (PNames ns) = ns"
| "names_of v = []"

text \<open>\<^verbatim>\<open>p[7][1]\<close>, the name in a \<^verbatim>\<open>('LABEL', name)\<close> tuple.\<close>

fun label_of :: "pyval \<Rightarrow> string" where
  "label_of (PTuple (LABEL l)) = l"
| "label_of v = []"

definition add_program :: "pyval \<Rightarrow> pyval \<Rightarrow> parser \<Rightarrow> pyval \<times> parser" where
  "add_program p0 program g =
     (case (p0, program) of
        (PList l, PTuple ins) \<Rightarrow>
          (PList (l @ [ins]),
           (case ins of
              REGISTER name v \<Rightarrow>
                if name \<notin> set (register_names g)
                then g\<lparr>register_names := register_names g @ [name]\<rparr>
                else g
            | LABEL name \<Rightarrow>
                if name \<notin> set (register_names g)
                then g\<lparr>label_names := label_names g @ [name]\<rparr>
                else g\<lparr>stderr := stderr g @ [LabelExists name]\<rparr>
            | _ \<Rightarrow> g))
      | _ \<Rightarrow> (p0, g))"

definition p_program :: "sym list \<Rightarrow> parser \<Rightarrow> pyval \<times> parser" where
  "p_program p g =
     (if len p = 3
      then (if pv p 1 \<noteq> PNone \<and> truthy (pv p 2) then add_program (pv p 1) (pv p 2) g
            else (pv p 1, g))
      else (if truthy (pv p 1) then add_program (PList []) (pv p 1) g
            else (PList [], g)))"

text \<open>
  \<^verbatim>\<open>p[1]\<close> is the value of the \<^verbatim>\<open>error\<close> symbol: the token at which the error was
  detected. \<open>format_value\<close> is how an f-string prints a token value.
\<close>

fun format_value :: "pyval \<Rightarrow> string" where
  "format_value (PStr s) = s"
| "format_value (PInt i) = str_int i"
| "format_value v = []"

definition p_program_error :: "sym list \<Rightarrow> parser \<Rightarrow> pyval \<times> parser" where
  "p_program_error p g =
     (case pv p 1 of
        PLexToken ty v n \<Rightarrow>
          (PNone,
           g\<lparr>stderr := stderr g @
                [SyntaxError n (if ty = T_NEWLINE then [CHR 0x5C, CHR ''n''] else format_value v)],
             error := 1\<rparr>)
      | _ \<Rightarrow> (PNone, g))"

definition p_line :: "sym list \<Rightarrow> pyval" where
  "p_line p = (if len p = 5 then pv p 2 else if len p = 7 then pv p 4 else PNone)"

definition p_uh :: "sym list \<Rightarrow> pyval" where
  "p_uh p = PNone"

definition p_empty_or_space :: "sym list \<Rightarrow> pyval" where
  "p_empty_or_space p = PNone"

text \<open>
  Register names consist of ASCII letters and digits, so \<^verbatim>\<open>'p' not in name.lower()\<close> says
  that the name has neither a \<^verbatim>\<open>p\<close> nor a \<^verbatim>\<open>P\<close>.
\<close>

definition p_register_declaration :: "sym list \<Rightarrow> parser \<Rightarrow> pyval \<times> parser" where
  "p_register_declaration p g =
     (let (name, val, lineno) =
            (if len p = 8 then (pv p 7, pv p 5, plineno p 7)
             else (pv p 5, PInt 0, plineno p 5));
          g' = (if CHR ''p'' \<notin> set (str_of name) \<and> CHR ''P'' \<notin> set (str_of name)
                then g\<lparr>stderr := stderr g @ [MissingP lineno (str_of name)]\<rparr>
                else g)
      in (PTuple (REGISTER (str_of name) (int_of val)), g'))"

definition p_number :: "sym list \<Rightarrow> pyval" where
  "p_number p =
     (case pv p 1 of
        PInt i \<Rightarrow> PInt i
      | v \<Rightarrow> if take 1 (str_of v) = ''a'' then PInt 1 else PInt 0)"

definition p_label :: "sym list \<Rightarrow> pyval" where
  "p_label p =
     (if truthy (pv p 1) \<and> truthy (pv p 3)
      then PTuple (LABEL ((case pv p 1 of PTuple t \<Rightarrow> label_of (PTuple t) | v \<Rightarrow> str_of v)
                          @ ''-'' @ str_of (pv p 3)))
      else PNone)"

definition p_register :: "sym list \<Rightarrow> parser \<Rightarrow> pyval \<times> parser" where
  "p_register p g =
     (pv p 1,
      if str_of (pv p 1) \<notin> set (register_names g)
      then g\<lparr>stderr := stderr g @ [UndeclaredRegister (plineno p 1) (str_of (pv p 1))]\<rparr>
      else g)"

definition p_command :: "sym list \<Rightarrow> pyval" where
  "p_command p = pv p 1"

text \<open>
  \<^verbatim>\<open>p_replace\<close>, \<^verbatim>\<open>p_append\<close>, \<^verbatim>\<open>p_rip\<close>, \<^verbatim>\<open>p_multiply\<close>, \<^verbatim>\<open>p_chop\<close>, \<^verbatim>\<open>p_push\<close> and \<^verbatim>\<open>p_pull\<close>
  differ in the tag only, \<^verbatim>\<open>p_print\<close> and \<^verbatim>\<open>p_pick\<close> likewise.
\<close>

definition two_registers :: "(string \<Rightarrow> string \<Rightarrow> instr) \<Rightarrow> sym list \<Rightarrow> pyval" where
  "two_registers tag p =
     (if truthy (pv p 3) \<and> truthy (pv p 5)
      then PTuple (tag (str_of (pv p 3)) (str_of (pv p 5)))
      else PNone)"

definition one_register :: "(string \<Rightarrow> instr) \<Rightarrow> sym list \<Rightarrow> pyval" where
  "one_register tag p = (if truthy (pv p 3) then PTuple (tag (str_of (pv p 3))) else PNone)"

definition p_replace :: "sym list \<Rightarrow> pyval" where
  "p_replace p = two_registers MOV p"

definition p_append :: "sym list \<Rightarrow> pyval" where
  "p_append p = two_registers ADD p"

definition p_rip :: "sym list \<Rightarrow> pyval" where
  "p_rip p = two_registers SUB p"

definition p_multiply :: "sym list \<Rightarrow> pyval" where
  "p_multiply p = two_registers MUL p"

definition p_chop :: "sym list \<Rightarrow> pyval" where
  "p_chop p = two_registers DIV p"

definition p_push :: "sym list \<Rightarrow> pyval" where
  "p_push p = two_registers STORE p"

definition p_pull :: "sym list \<Rightarrow> pyval" where
  "p_pull p = two_registers LOAD p"

definition p_print :: "sym list \<Rightarrow> pyval" where
  "p_print p = one_register PRINT p"

definition p_put :: "sym list \<Rightarrow> pyval" where
  "p_put p = (if truthy (pv p 3) then PTuple (PUTC (names_of (pv p 3))) else PNone)"

definition p_registers :: "sym list \<Rightarrow> pyval" where
  "p_registers p =
     (if len p = 4
      then (if truthy (pv p 1) \<and> truthy (pv p 3)
            then PNames (names_of (pv p 1) @ [str_of (pv p 3)])
            else PNone)
      else (if truthy (pv p 1) then PNames [str_of (pv p 1)] else PNone))"

definition p_pick :: "sym list \<Rightarrow> pyval" where
  "p_pick p = one_register GETC p"

text \<open>\<^verbatim>\<open>p_compare\<close> and \<^verbatim>\<open>p_superior\<close> differ in their four tags only.\<close>

definition four_shapes ::
  "(string \<Rightarrow> string \<Rightarrow> instr) \<Rightarrow> (string \<Rightarrow> string \<Rightarrow> instr) \<Rightarrow>
   (string \<Rightarrow> string \<Rightarrow> string \<Rightarrow> instr) \<Rightarrow> (string \<Rightarrow> string \<Rightarrow> string \<Rightarrow> instr) \<Rightarrow>
   sym list \<Rightarrow> pyval" where
  "four_shapes plain inverted jump_plain jump_inverted p =
     (if len p = 6
      then (if truthy (pv p 3) \<and> truthy (pv p 5)
            then PTuple (plain (str_of (pv p 3)) (str_of (pv p 5))) else PNone)
      else if len p = 7
      then (if truthy (pv p 3) \<and> truthy (pv p 5)
            then PTuple (inverted (str_of (pv p 3)) (str_of (pv p 5))) else PNone)
      else if len p = 9
      then (if truthy (pv p 3) \<and> truthy (pv p 5) \<and> truthy (pv p 7)
            then PTuple (jump_plain (str_of (pv p 3)) (str_of (pv p 5)) (label_of (pv p 7)))
            else PNone)
      else (if truthy (pv p 3) \<and> truthy (pv p 5) \<and> truthy (pv p 7)
            then PTuple (jump_inverted (str_of (pv p 3)) (str_of (pv p 5)) (label_of (pv p 7)))
            else PNone))"

definition p_compare :: "sym list \<Rightarrow> pyval" where
  "p_compare p = four_shapes EQ NE JEQ JNE p"

definition p_superior :: "sym list \<Rightarrow> pyval" where
  "p_superior p = four_shapes GT GE JGT JGE p"

definition p_jump :: "sym list \<Rightarrow> pyval" where
  "p_jump p = (if truthy (pv p 3) then PTuple (JMP (label_of (pv p 3))) else PNone)"

text \<open>\<^verbatim>\<open>p_error\<close> prints only when it is called with \<^verbatim>\<open>None\<close>, that is at the end of the input.\<close>

definition p_error :: "sym \<Rightarrow> parser \<Rightarrow> parser" where
  "p_error tok g =
     (if stype tok = T_end then g\<lparr>stderr := stderr g @ [SyntaxErrorAtEof]\<rparr> else g)"

subsection \<open>Grammar and automaton\<close>

text \<open>
  The grammar, in the order in which \<^verbatim>\<open>ply.yacc\<close> numbers the rules (the order of the
  \<^verbatim>\<open>p_\<close> functions in the file), each with the function that is called when it is
  reduced. Rule 0 is the start rule that \<^verbatim>\<open>ply.yacc\<close> adds.
\<close>

datatype rule =
    P_none | P_program | P_program_error | P_line | P_uh | P_empty_or_space
  | P_register_declaration | P_number | P_label | P_register | P_command
  | P_replace | P_append | P_rip | P_multiply | P_chop | P_push | P_pull
  | P_print | P_put | P_registers | P_pick | P_compare | P_superior | P_jump

definition productions :: "(symbol \<times> symbol list \<times> rule) list" where
  "productions =
     [(N_S', [N_program], P_none),
      (N_program, [N_program, N_line], P_program),
      (N_program, [N_line], P_program),
      (N_program, [T_error], P_program_error),
      (N_line, [N_empty_or_space, N_register_declaration, N_empty_or_space, T_NEWLINE], P_line),
      (N_line, [N_empty_or_space, N_label, N_empty_or_space, T_NEWLINE], P_line),
      (N_line, [N_empty_or_space, N_uh, T_SPACE, N_label, N_empty_or_space, T_NEWLINE], P_line),
      (N_line, [N_empty_or_space, N_uh, T_SPACE, N_command, N_empty_or_space, T_NEWLINE], P_line),
      (N_line, [N_empty_or_space, T_NEWLINE], P_line),
      (N_uh, [T_UH, T_EXCLAMATION_MARK], P_uh),
      (N_empty_or_space, [], P_empty_or_space),
      (N_empty_or_space, [T_SPACE], P_empty_or_space),
      (N_register_declaration, [T_I, T_SPACE, T_HAVE, T_SPACE, N_number, T_SPACE, T_REGISTER], P_register_declaration),
      (N_register_declaration, [T_I, T_SPACE, T_HAVE, T_SPACE, T_REGISTER], P_register_declaration),
      (N_number, [T_NO], P_number),
      (N_number, [T_A], P_number),
      (N_number, [T_NUMBER], P_number),
      (N_label, [N_label, T_HYPHEN, N_register], P_label),
      (N_label, [N_register, T_HYPHEN, N_register], P_label),
      (N_register, [T_REGISTER], P_register),
      (N_command, [N_replace], P_command),
      (N_command, [N_append], P_command),
      (N_command, [N_rip], P_command),
      (N_command, [N_multiply], P_command),
      (N_command, [N_chop], P_command),
      (N_command, [N_push], P_command),
      (N_command, [N_pull], P_command),
      (N_command, [N_print], P_command),
      (N_command, [N_put], P_command),
      (N_command, [N_pick], P_command),
      (N_command, [N_compare], P_command),
      (N_command, [N_superior], P_command),
      (N_command, [N_jump], P_command),
      (N_replace, [T_REPLACE, T_HYPHEN, N_register, T_HYPHEN, N_register], P_replace),
      (N_append, [T_APPEND, T_HYPHEN, N_register, T_HYPHEN, N_register], P_append),
      (N_rip, [T_RIP, T_HYPHEN, N_register, T_HYPHEN, N_register], P_rip),
      (N_multiply, [T_MULTIPLY, T_HYPHEN, N_register, T_HYPHEN, N_register], P_multiply),
      (N_chop, [T_CHOP, T_HYPHEN, N_register, T_HYPHEN, N_register], P_chop),
      (N_push, [T_PUSH, T_HYPHEN, N_register, T_HYPHEN, N_register], P_push),
      (N_pull, [T_PULL, T_HYPHEN, N_register, T_HYPHEN, N_register], P_pull),
      (N_print, [T_PRINT, T_HYPHEN, N_register], P_print),
      (N_put, [T_PUT, T_HYPHEN, N_registers], P_put),
      (N_registers, [N_registers, T_HYPHEN, N_register], P_registers),
      (N_registers, [N_register], P_registers),
      (N_pick, [T_PICK, T_HYPHEN, N_register], P_pick),
      (N_compare, [T_COMPARE, T_HYPHEN, N_register, T_HYPHEN, N_register], P_compare),
      (N_compare, [T_COMPARE, T_HYPHEN, N_register, T_HYPHEN, N_register, T_QUESTION_MARK], P_compare),
      (N_compare, [T_COMPARE, T_HYPHEN, N_register, T_HYPHEN, N_register, T_HYPHEN, N_label, T_EXCLAMATION_MARK], P_compare),
      (N_compare, [T_COMPARE, T_HYPHEN, N_register, T_HYPHEN, N_register, T_HYPHEN, N_label, T_EXCLAMATION_MARK, T_QUESTION_MARK], P_compare),
      (N_superior, [T_SUPERIOR, T_HYPHEN, N_register, T_HYPHEN, N_register], P_superior),
      (N_superior, [T_SUPERIOR, T_HYPHEN, N_register, T_HYPHEN, N_register, T_QUESTION_MARK], P_superior),
      (N_superior, [T_SUPERIOR, T_HYPHEN, N_register, T_HYPHEN, N_register, T_HYPHEN, N_label, T_EXCLAMATION_MARK], P_superior),
      (N_superior, [T_SUPERIOR, T_HYPHEN, N_register, T_HYPHEN, N_register, T_HYPHEN, N_label, T_EXCLAMATION_MARK, T_QUESTION_MARK], P_superior),
      (N_jump, [T_JUMP, T_HYPHEN, N_label], P_jump)]"

definition action :: "(symbol \<times> int) list list" where
  "action =
     [\<comment> \<open>0: S' -> . program\<close>
      [(T_error, 3), (T_NEWLINE, - 10), (T_SPACE, 5), (T_UH, - 10), (T_I, - 10), (T_REGISTER, - 10)],
      \<comment> \<open>1: S' -> program .; program -> program . line\<close>
      [(T_NEWLINE, - 10), (T_SPACE, 5), (T_UH, - 10), (T_I, - 10), (T_REGISTER, - 10), (T_end, 0)],
      \<comment> \<open>2: program -> line .\<close>
      [(T_NEWLINE, - 2), (T_SPACE, - 2), (T_UH, - 2), (T_I, - 2), (T_REGISTER, - 2), (T_end, - 2)],
      \<comment> \<open>3: program -> error .\<close>
      [(T_NEWLINE, - 3), (T_SPACE, - 3), (T_UH, - 3), (T_I, - 3), (T_REGISTER, - 3), (T_end, - 3)],
      \<comment> \<open>4: line -> empty_or_space . register_declaration empty_or_space NEWLINE; line -> empty_or_space . label empty_or_space NEWLINE; line -> empty_or_space . uh SPACE label empty_or_space NEWLINE; line -> empty_or_space . uh SPACE command empty_or_space NEWLINE; line -> empty_or_space . NEWLINE\<close>
      [(T_NEWLINE, 10), (T_UH, 11), (T_I, 12), (T_REGISTER, 14)],
      \<comment> \<open>5: empty_or_space -> SPACE .\<close>
      [(T_NEWLINE, - 11), (T_UH, - 11), (T_I, - 11), (T_REGISTER, - 11)],
      \<comment> \<open>6: program -> program line .\<close>
      [(T_NEWLINE, - 1), (T_SPACE, - 1), (T_UH, - 1), (T_I, - 1), (T_REGISTER, - 1), (T_end, - 1)],
      \<comment> \<open>7: line -> empty_or_space register_declaration . empty_or_space NEWLINE\<close>
      [(T_NEWLINE, - 10), (T_SPACE, 5)],
      \<comment> \<open>8: line -> empty_or_space label . empty_or_space NEWLINE; label -> label . HYPHEN register\<close>
      [(T_NEWLINE, - 10), (T_SPACE, 5), (T_HYPHEN, 17)],
      \<comment> \<open>9: line -> empty_or_space uh . SPACE label empty_or_space NEWLINE; line -> empty_or_space uh . SPACE command empty_or_space NEWLINE\<close>
      [(T_SPACE, 18)],
      \<comment> \<open>10: line -> empty_or_space NEWLINE .\<close>
      [(T_NEWLINE, - 8), (T_SPACE, - 8), (T_UH, - 8), (T_I, - 8), (T_REGISTER, - 8), (T_end, - 8)],
      \<comment> \<open>11: uh -> UH . EXCLAMATION_MARK\<close>
      [(T_EXCLAMATION_MARK, 19)],
      \<comment> \<open>12: register_declaration -> I . SPACE HAVE SPACE number SPACE REGISTER; register_declaration -> I . SPACE HAVE SPACE REGISTER\<close>
      [(T_SPACE, 20)],
      \<comment> \<open>13: label -> register . HYPHEN register\<close>
      [(T_HYPHEN, 21)],
      \<comment> \<open>14: register -> REGISTER .\<close>
      [(T_NEWLINE, - 19), (T_SPACE, - 19), (T_EXCLAMATION_MARK, - 19), (T_HYPHEN, - 19), (T_QUESTION_MARK, - 19)],
      \<comment> \<open>15: line -> empty_or_space register_declaration empty_or_space . NEWLINE\<close>
      [(T_NEWLINE, 22)],
      \<comment> \<open>16: line -> empty_or_space label empty_or_space . NEWLINE\<close>
      [(T_NEWLINE, 23)],
      \<comment> \<open>17: label -> label HYPHEN . register\<close>
      [(T_REGISTER, 14)],
      \<comment> \<open>18: line -> empty_or_space uh SPACE . label empty_or_space NEWLINE; line -> empty_or_space uh SPACE . command empty_or_space NEWLINE\<close>
      [(T_REGISTER, 14), (T_REPLACE, 40), (T_APPEND, 41), (T_RIP, 42), (T_MULTIPLY, 43), (T_CHOP, 44), (T_PUSH, 45), (T_PULL, 46), (T_PRINT, 47), (T_PUT, 48), (T_PICK, 49), (T_COMPARE, 50), (T_SUPERIOR, 51), (T_JUMP, 52)],
      \<comment> \<open>19: uh -> UH EXCLAMATION_MARK .\<close>
      [(T_SPACE, - 9)],
      \<comment> \<open>20: register_declaration -> I SPACE . HAVE SPACE number SPACE REGISTER; register_declaration -> I SPACE . HAVE SPACE REGISTER\<close>
      [(T_HAVE, 53)],
      \<comment> \<open>21: label -> register HYPHEN . register\<close>
      [(T_REGISTER, 14)],
      \<comment> \<open>22: line -> empty_or_space register_declaration empty_or_space NEWLINE .\<close>
      [(T_NEWLINE, - 4), (T_SPACE, - 4), (T_UH, - 4), (T_I, - 4), (T_REGISTER, - 4), (T_end, - 4)],
      \<comment> \<open>23: line -> empty_or_space label empty_or_space NEWLINE .\<close>
      [(T_NEWLINE, - 5), (T_SPACE, - 5), (T_UH, - 5), (T_I, - 5), (T_REGISTER, - 5), (T_end, - 5)],
      \<comment> \<open>24: label -> label HYPHEN register .\<close>
      [(T_NEWLINE, - 17), (T_SPACE, - 17), (T_EXCLAMATION_MARK, - 17), (T_HYPHEN, - 17)],
      \<comment> \<open>25: line -> empty_or_space uh SPACE label . empty_or_space NEWLINE; label -> label . HYPHEN register\<close>
      [(T_NEWLINE, - 10), (T_SPACE, 5), (T_HYPHEN, 17)],
      \<comment> \<open>26: line -> empty_or_space uh SPACE command . empty_or_space NEWLINE\<close>
      [(T_NEWLINE, - 10), (T_SPACE, 5)],
      \<comment> \<open>27: command -> replace .\<close>
      [(T_NEWLINE, - 20), (T_SPACE, - 20)],
      \<comment> \<open>28: command -> append .\<close>
      [(T_NEWLINE, - 21), (T_SPACE, - 21)],
      \<comment> \<open>29: command -> rip .\<close>
      [(T_NEWLINE, - 22), (T_SPACE, - 22)],
      \<comment> \<open>30: command -> multiply .\<close>
      [(T_NEWLINE, - 23), (T_SPACE, - 23)],
      \<comment> \<open>31: command -> chop .\<close>
      [(T_NEWLINE, - 24), (T_SPACE, - 24)],
      \<comment> \<open>32: command -> push .\<close>
      [(T_NEWLINE, - 25), (T_SPACE, - 25)],
      \<comment> \<open>33: command -> pull .\<close>
      [(T_NEWLINE, - 26), (T_SPACE, - 26)],
      \<comment> \<open>34: command -> print .\<close>
      [(T_NEWLINE, - 27), (T_SPACE, - 27)],
      \<comment> \<open>35: command -> put .\<close>
      [(T_NEWLINE, - 28), (T_SPACE, - 28)],
      \<comment> \<open>36: command -> pick .\<close>
      [(T_NEWLINE, - 29), (T_SPACE, - 29)],
      \<comment> \<open>37: command -> compare .\<close>
      [(T_NEWLINE, - 30), (T_SPACE, - 30)],
      \<comment> \<open>38: command -> superior .\<close>
      [(T_NEWLINE, - 31), (T_SPACE, - 31)],
      \<comment> \<open>39: command -> jump .\<close>
      [(T_NEWLINE, - 32), (T_SPACE, - 32)],
      \<comment> \<open>40: replace -> REPLACE . HYPHEN register HYPHEN register\<close>
      [(T_HYPHEN, 57)],
      \<comment> \<open>41: append -> APPEND . HYPHEN register HYPHEN register\<close>
      [(T_HYPHEN, 58)],
      \<comment> \<open>42: rip -> RIP . HYPHEN register HYPHEN register\<close>
      [(T_HYPHEN, 59)],
      \<comment> \<open>43: multiply -> MULTIPLY . HYPHEN register HYPHEN register\<close>
      [(T_HYPHEN, 60)],
      \<comment> \<open>44: chop -> CHOP . HYPHEN register HYPHEN register\<close>
      [(T_HYPHEN, 61)],
      \<comment> \<open>45: push -> PUSH . HYPHEN register HYPHEN register\<close>
      [(T_HYPHEN, 62)],
      \<comment> \<open>46: pull -> PULL . HYPHEN register HYPHEN register\<close>
      [(T_HYPHEN, 63)],
      \<comment> \<open>47: print -> PRINT . HYPHEN register\<close>
      [(T_HYPHEN, 64)],
      \<comment> \<open>48: put -> PUT . HYPHEN registers\<close>
      [(T_HYPHEN, 65)],
      \<comment> \<open>49: pick -> PICK . HYPHEN register\<close>
      [(T_HYPHEN, 66)],
      \<comment> \<open>50: compare -> COMPARE . HYPHEN register HYPHEN register; compare -> COMPARE . HYPHEN register HYPHEN register QUESTION_MARK; compare -> COMPARE . HYPHEN register HYPHEN register HYPHEN label EXCLAMATION_MARK; compare -> COMPARE . HYPHEN register HYPHEN register HYPHEN label EXCLAMATION_MARK QUESTION_MARK\<close>
      [(T_HYPHEN, 67)],
      \<comment> \<open>51: superior -> SUPERIOR . HYPHEN register HYPHEN register; superior -> SUPERIOR . HYPHEN register HYPHEN register QUESTION_MARK; superior -> SUPERIOR . HYPHEN register HYPHEN register HYPHEN label EXCLAMATION_MARK; superior -> SUPERIOR . HYPHEN register HYPHEN register HYPHEN label EXCLAMATION_MARK QUESTION_MARK\<close>
      [(T_HYPHEN, 68)],
      \<comment> \<open>52: jump -> JUMP . HYPHEN label\<close>
      [(T_HYPHEN, 69)],
      \<comment> \<open>53: register_declaration -> I SPACE HAVE . SPACE number SPACE REGISTER; register_declaration -> I SPACE HAVE . SPACE REGISTER\<close>
      [(T_SPACE, 70)],
      \<comment> \<open>54: label -> register HYPHEN register .\<close>
      [(T_NEWLINE, - 18), (T_SPACE, - 18), (T_EXCLAMATION_MARK, - 18), (T_HYPHEN, - 18)],
      \<comment> \<open>55: line -> empty_or_space uh SPACE label empty_or_space . NEWLINE\<close>
      [(T_NEWLINE, 71)],
      \<comment> \<open>56: line -> empty_or_space uh SPACE command empty_or_space . NEWLINE\<close>
      [(T_NEWLINE, 72)],
      \<comment> \<open>57: replace -> REPLACE HYPHEN . register HYPHEN register\<close>
      [(T_REGISTER, 14)],
      \<comment> \<open>58: append -> APPEND HYPHEN . register HYPHEN register\<close>
      [(T_REGISTER, 14)],
      \<comment> \<open>59: rip -> RIP HYPHEN . register HYPHEN register\<close>
      [(T_REGISTER, 14)],
      \<comment> \<open>60: multiply -> MULTIPLY HYPHEN . register HYPHEN register\<close>
      [(T_REGISTER, 14)],
      \<comment> \<open>61: chop -> CHOP HYPHEN . register HYPHEN register\<close>
      [(T_REGISTER, 14)],
      \<comment> \<open>62: push -> PUSH HYPHEN . register HYPHEN register\<close>
      [(T_REGISTER, 14)],
      \<comment> \<open>63: pull -> PULL HYPHEN . register HYPHEN register\<close>
      [(T_REGISTER, 14)],
      \<comment> \<open>64: print -> PRINT HYPHEN . register\<close>
      [(T_REGISTER, 14)],
      \<comment> \<open>65: put -> PUT HYPHEN . registers\<close>
      [(T_REGISTER, 14)],
      \<comment> \<open>66: pick -> PICK HYPHEN . register\<close>
      [(T_REGISTER, 14)],
      \<comment> \<open>67: compare -> COMPARE HYPHEN . register HYPHEN register; compare -> COMPARE HYPHEN . register HYPHEN register QUESTION_MARK; compare -> COMPARE HYPHEN . register HYPHEN register HYPHEN label EXCLAMATION_MARK; compare -> COMPARE HYPHEN . register HYPHEN register HYPHEN label EXCLAMATION_MARK QUESTION_MARK\<close>
      [(T_REGISTER, 14)],
      \<comment> \<open>68: superior -> SUPERIOR HYPHEN . register HYPHEN register; superior -> SUPERIOR HYPHEN . register HYPHEN register QUESTION_MARK; superior -> SUPERIOR HYPHEN . register HYPHEN register HYPHEN label EXCLAMATION_MARK; superior -> SUPERIOR HYPHEN . register HYPHEN register HYPHEN label EXCLAMATION_MARK QUESTION_MARK\<close>
      [(T_REGISTER, 14)],
      \<comment> \<open>69: jump -> JUMP HYPHEN . label\<close>
      [(T_REGISTER, 14)],
      \<comment> \<open>70: register_declaration -> I SPACE HAVE SPACE . number SPACE REGISTER; register_declaration -> I SPACE HAVE SPACE . REGISTER\<close>
      [(T_REGISTER, 88), (T_NO, 89), (T_A, 90), (T_NUMBER, 91)],
      \<comment> \<open>71: line -> empty_or_space uh SPACE label empty_or_space NEWLINE .\<close>
      [(T_NEWLINE, - 6), (T_SPACE, - 6), (T_UH, - 6), (T_I, - 6), (T_REGISTER, - 6), (T_end, - 6)],
      \<comment> \<open>72: line -> empty_or_space uh SPACE command empty_or_space NEWLINE .\<close>
      [(T_NEWLINE, - 7), (T_SPACE, - 7), (T_UH, - 7), (T_I, - 7), (T_REGISTER, - 7), (T_end, - 7)],
      \<comment> \<open>73: replace -> REPLACE HYPHEN register . HYPHEN register\<close>
      [(T_HYPHEN, 92)],
      \<comment> \<open>74: append -> APPEND HYPHEN register . HYPHEN register\<close>
      [(T_HYPHEN, 93)],
      \<comment> \<open>75: rip -> RIP HYPHEN register . HYPHEN register\<close>
      [(T_HYPHEN, 94)],
      \<comment> \<open>76: multiply -> MULTIPLY HYPHEN register . HYPHEN register\<close>
      [(T_HYPHEN, 95)],
      \<comment> \<open>77: chop -> CHOP HYPHEN register . HYPHEN register\<close>
      [(T_HYPHEN, 96)],
      \<comment> \<open>78: push -> PUSH HYPHEN register . HYPHEN register\<close>
      [(T_HYPHEN, 97)],
      \<comment> \<open>79: pull -> PULL HYPHEN register . HYPHEN register\<close>
      [(T_HYPHEN, 98)],
      \<comment> \<open>80: print -> PRINT HYPHEN register .\<close>
      [(T_NEWLINE, - 40), (T_SPACE, - 40)],
      \<comment> \<open>81: put -> PUT HYPHEN registers .; registers -> registers . HYPHEN register\<close>
      [(T_NEWLINE, - 41), (T_SPACE, - 41), (T_HYPHEN, 99)],
      \<comment> \<open>82: registers -> register .\<close>
      [(T_NEWLINE, - 43), (T_SPACE, - 43), (T_HYPHEN, - 43)],
      \<comment> \<open>83: pick -> PICK HYPHEN register .\<close>
      [(T_NEWLINE, - 44), (T_SPACE, - 44)],
      \<comment> \<open>84: compare -> COMPARE HYPHEN register . HYPHEN register; compare -> COMPARE HYPHEN register . HYPHEN register QUESTION_MARK; compare -> COMPARE HYPHEN register . HYPHEN register HYPHEN label EXCLAMATION_MARK; compare -> COMPARE HYPHEN register . HYPHEN register HYPHEN label EXCLAMATION_MARK QUESTION_MARK\<close>
      [(T_HYPHEN, 100)],
      \<comment> \<open>85: superior -> SUPERIOR HYPHEN register . HYPHEN register; superior -> SUPERIOR HYPHEN register . HYPHEN register QUESTION_MARK; superior -> SUPERIOR HYPHEN register . HYPHEN register HYPHEN label EXCLAMATION_MARK; superior -> SUPERIOR HYPHEN register . HYPHEN register HYPHEN label EXCLAMATION_MARK QUESTION_MARK\<close>
      [(T_HYPHEN, 101)],
      \<comment> \<open>86: label -> label . HYPHEN register; jump -> JUMP HYPHEN label .\<close>
      [(T_NEWLINE, - 53), (T_SPACE, - 53), (T_HYPHEN, 17)],
      \<comment> \<open>87: register_declaration -> I SPACE HAVE SPACE number . SPACE REGISTER\<close>
      [(T_SPACE, 102)],
      \<comment> \<open>88: register_declaration -> I SPACE HAVE SPACE REGISTER .\<close>
      [(T_NEWLINE, - 13), (T_SPACE, - 13)],
      \<comment> \<open>89: number -> NO .\<close>
      [(T_SPACE, - 14)],
      \<comment> \<open>90: number -> A .\<close>
      [(T_SPACE, - 15)],
      \<comment> \<open>91: number -> NUMBER .\<close>
      [(T_SPACE, - 16)],
      \<comment> \<open>92: replace -> REPLACE HYPHEN register HYPHEN . register\<close>
      [(T_REGISTER, 14)],
      \<comment> \<open>93: append -> APPEND HYPHEN register HYPHEN . register\<close>
      [(T_REGISTER, 14)],
      \<comment> \<open>94: rip -> RIP HYPHEN register HYPHEN . register\<close>
      [(T_REGISTER, 14)],
      \<comment> \<open>95: multiply -> MULTIPLY HYPHEN register HYPHEN . register\<close>
      [(T_REGISTER, 14)],
      \<comment> \<open>96: chop -> CHOP HYPHEN register HYPHEN . register\<close>
      [(T_REGISTER, 14)],
      \<comment> \<open>97: push -> PUSH HYPHEN register HYPHEN . register\<close>
      [(T_REGISTER, 14)],
      \<comment> \<open>98: pull -> PULL HYPHEN register HYPHEN . register\<close>
      [(T_REGISTER, 14)],
      \<comment> \<open>99: registers -> registers HYPHEN . register\<close>
      [(T_REGISTER, 14)],
      \<comment> \<open>100: compare -> COMPARE HYPHEN register HYPHEN . register; compare -> COMPARE HYPHEN register HYPHEN . register QUESTION_MARK; compare -> COMPARE HYPHEN register HYPHEN . register HYPHEN label EXCLAMATION_MARK; compare -> COMPARE HYPHEN register HYPHEN . register HYPHEN label EXCLAMATION_MARK QUESTION_MARK\<close>
      [(T_REGISTER, 14)],
      \<comment> \<open>101: superior -> SUPERIOR HYPHEN register HYPHEN . register; superior -> SUPERIOR HYPHEN register HYPHEN . register QUESTION_MARK; superior -> SUPERIOR HYPHEN register HYPHEN . register HYPHEN label EXCLAMATION_MARK; superior -> SUPERIOR HYPHEN register HYPHEN . register HYPHEN label EXCLAMATION_MARK QUESTION_MARK\<close>
      [(T_REGISTER, 14)],
      \<comment> \<open>102: register_declaration -> I SPACE HAVE SPACE number SPACE . REGISTER\<close>
      [(T_REGISTER, 113)],
      \<comment> \<open>103: replace -> REPLACE HYPHEN register HYPHEN register .\<close>
      [(T_NEWLINE, - 33), (T_SPACE, - 33)],
      \<comment> \<open>104: append -> APPEND HYPHEN register HYPHEN register .\<close>
      [(T_NEWLINE, - 34), (T_SPACE, - 34)],
      \<comment> \<open>105: rip -> RIP HYPHEN register HYPHEN register .\<close>
      [(T_NEWLINE, - 35), (T_SPACE, - 35)],
      \<comment> \<open>106: multiply -> MULTIPLY HYPHEN register HYPHEN register .\<close>
      [(T_NEWLINE, - 36), (T_SPACE, - 36)],
      \<comment> \<open>107: chop -> CHOP HYPHEN register HYPHEN register .\<close>
      [(T_NEWLINE, - 37), (T_SPACE, - 37)],
      \<comment> \<open>108: push -> PUSH HYPHEN register HYPHEN register .\<close>
      [(T_NEWLINE, - 38), (T_SPACE, - 38)],
      \<comment> \<open>109: pull -> PULL HYPHEN register HYPHEN register .\<close>
      [(T_NEWLINE, - 39), (T_SPACE, - 39)],
      \<comment> \<open>110: registers -> registers HYPHEN register .\<close>
      [(T_NEWLINE, - 42), (T_SPACE, - 42), (T_HYPHEN, - 42)],
      \<comment> \<open>111: compare -> COMPARE HYPHEN register HYPHEN register .; compare -> COMPARE HYPHEN register HYPHEN register . QUESTION_MARK; compare -> COMPARE HYPHEN register HYPHEN register . HYPHEN label EXCLAMATION_MARK; compare -> COMPARE HYPHEN register HYPHEN register . HYPHEN label EXCLAMATION_MARK QUESTION_MARK\<close>
      [(T_NEWLINE, - 45), (T_SPACE, - 45), (T_HYPHEN, 115), (T_QUESTION_MARK, 114)],
      \<comment> \<open>112: superior -> SUPERIOR HYPHEN register HYPHEN register .; superior -> SUPERIOR HYPHEN register HYPHEN register . QUESTION_MARK; superior -> SUPERIOR HYPHEN register HYPHEN register . HYPHEN label EXCLAMATION_MARK; superior -> SUPERIOR HYPHEN register HYPHEN register . HYPHEN label EXCLAMATION_MARK QUESTION_MARK\<close>
      [(T_NEWLINE, - 49), (T_SPACE, - 49), (T_HYPHEN, 117), (T_QUESTION_MARK, 116)],
      \<comment> \<open>113: register_declaration -> I SPACE HAVE SPACE number SPACE REGISTER .\<close>
      [(T_NEWLINE, - 12), (T_SPACE, - 12)],
      \<comment> \<open>114: compare -> COMPARE HYPHEN register HYPHEN register QUESTION_MARK .\<close>
      [(T_NEWLINE, - 46), (T_SPACE, - 46)],
      \<comment> \<open>115: compare -> COMPARE HYPHEN register HYPHEN register HYPHEN . label EXCLAMATION_MARK; compare -> COMPARE HYPHEN register HYPHEN register HYPHEN . label EXCLAMATION_MARK QUESTION_MARK\<close>
      [(T_REGISTER, 14)],
      \<comment> \<open>116: superior -> SUPERIOR HYPHEN register HYPHEN register QUESTION_MARK .\<close>
      [(T_NEWLINE, - 50), (T_SPACE, - 50)],
      \<comment> \<open>117: superior -> SUPERIOR HYPHEN register HYPHEN register HYPHEN . label EXCLAMATION_MARK; superior -> SUPERIOR HYPHEN register HYPHEN register HYPHEN . label EXCLAMATION_MARK QUESTION_MARK\<close>
      [(T_REGISTER, 14)],
      \<comment> \<open>118: label -> label . HYPHEN register; compare -> COMPARE HYPHEN register HYPHEN register HYPHEN label . EXCLAMATION_MARK; compare -> COMPARE HYPHEN register HYPHEN register HYPHEN label . EXCLAMATION_MARK QUESTION_MARK\<close>
      [(T_EXCLAMATION_MARK, 120), (T_HYPHEN, 17)],
      \<comment> \<open>119: label -> label . HYPHEN register; superior -> SUPERIOR HYPHEN register HYPHEN register HYPHEN label . EXCLAMATION_MARK; superior -> SUPERIOR HYPHEN register HYPHEN register HYPHEN label . EXCLAMATION_MARK QUESTION_MARK\<close>
      [(T_EXCLAMATION_MARK, 121), (T_HYPHEN, 17)],
      \<comment> \<open>120: compare -> COMPARE HYPHEN register HYPHEN register HYPHEN label EXCLAMATION_MARK .; compare -> COMPARE HYPHEN register HYPHEN register HYPHEN label EXCLAMATION_MARK . QUESTION_MARK\<close>
      [(T_NEWLINE, - 47), (T_SPACE, - 47), (T_QUESTION_MARK, 122)],
      \<comment> \<open>121: superior -> SUPERIOR HYPHEN register HYPHEN register HYPHEN label EXCLAMATION_MARK .; superior -> SUPERIOR HYPHEN register HYPHEN register HYPHEN label EXCLAMATION_MARK . QUESTION_MARK\<close>
      [(T_NEWLINE, - 51), (T_SPACE, - 51), (T_QUESTION_MARK, 123)],
      \<comment> \<open>122: compare -> COMPARE HYPHEN register HYPHEN register HYPHEN label EXCLAMATION_MARK QUESTION_MARK .\<close>
      [(T_NEWLINE, - 48), (T_SPACE, - 48)],
      \<comment> \<open>123: superior -> SUPERIOR HYPHEN register HYPHEN register HYPHEN label EXCLAMATION_MARK QUESTION_MARK .\<close>
      [(T_NEWLINE, - 52), (T_SPACE, - 52)]]"

definition goto :: "(symbol \<times> nat) list list" where
  "goto =
     [\<comment> \<open>0\<close> [(N_program, 1), (N_line, 2), (N_empty_or_space, 4)],
      \<comment> \<open>1\<close> [(N_line, 6), (N_empty_or_space, 4)],
      \<comment> \<open>2\<close> [],
      \<comment> \<open>3\<close> [],
      \<comment> \<open>4\<close> [(N_register_declaration, 7), (N_label, 8), (N_uh, 9), (N_register, 13)],
      \<comment> \<open>5\<close> [],
      \<comment> \<open>6\<close> [],
      \<comment> \<open>7\<close> [(N_empty_or_space, 15)],
      \<comment> \<open>8\<close> [(N_empty_or_space, 16)],
      \<comment> \<open>9\<close> [],
      \<comment> \<open>10\<close> [],
      \<comment> \<open>11\<close> [],
      \<comment> \<open>12\<close> [],
      \<comment> \<open>13\<close> [],
      \<comment> \<open>14\<close> [],
      \<comment> \<open>15\<close> [],
      \<comment> \<open>16\<close> [],
      \<comment> \<open>17\<close> [(N_register, 24)],
      \<comment> \<open>18\<close> [(N_label, 25), (N_command, 26), (N_register, 13), (N_replace, 27), (N_append, 28), (N_rip, 29), (N_multiply, 30), (N_chop, 31), (N_push, 32), (N_pull, 33), (N_print, 34), (N_put, 35), (N_pick, 36), (N_compare, 37), (N_superior, 38), (N_jump, 39)],
      \<comment> \<open>19\<close> [],
      \<comment> \<open>20\<close> [],
      \<comment> \<open>21\<close> [(N_register, 54)],
      \<comment> \<open>22\<close> [],
      \<comment> \<open>23\<close> [],
      \<comment> \<open>24\<close> [],
      \<comment> \<open>25\<close> [(N_empty_or_space, 55)],
      \<comment> \<open>26\<close> [(N_empty_or_space, 56)],
      \<comment> \<open>27\<close> [],
      \<comment> \<open>28\<close> [],
      \<comment> \<open>29\<close> [],
      \<comment> \<open>30\<close> [],
      \<comment> \<open>31\<close> [],
      \<comment> \<open>32\<close> [],
      \<comment> \<open>33\<close> [],
      \<comment> \<open>34\<close> [],
      \<comment> \<open>35\<close> [],
      \<comment> \<open>36\<close> [],
      \<comment> \<open>37\<close> [],
      \<comment> \<open>38\<close> [],
      \<comment> \<open>39\<close> [],
      \<comment> \<open>40\<close> [],
      \<comment> \<open>41\<close> [],
      \<comment> \<open>42\<close> [],
      \<comment> \<open>43\<close> [],
      \<comment> \<open>44\<close> [],
      \<comment> \<open>45\<close> [],
      \<comment> \<open>46\<close> [],
      \<comment> \<open>47\<close> [],
      \<comment> \<open>48\<close> [],
      \<comment> \<open>49\<close> [],
      \<comment> \<open>50\<close> [],
      \<comment> \<open>51\<close> [],
      \<comment> \<open>52\<close> [],
      \<comment> \<open>53\<close> [],
      \<comment> \<open>54\<close> [],
      \<comment> \<open>55\<close> [],
      \<comment> \<open>56\<close> [],
      \<comment> \<open>57\<close> [(N_register, 73)],
      \<comment> \<open>58\<close> [(N_register, 74)],
      \<comment> \<open>59\<close> [(N_register, 75)],
      \<comment> \<open>60\<close> [(N_register, 76)],
      \<comment> \<open>61\<close> [(N_register, 77)],
      \<comment> \<open>62\<close> [(N_register, 78)],
      \<comment> \<open>63\<close> [(N_register, 79)],
      \<comment> \<open>64\<close> [(N_register, 80)],
      \<comment> \<open>65\<close> [(N_registers, 81), (N_register, 82)],
      \<comment> \<open>66\<close> [(N_register, 83)],
      \<comment> \<open>67\<close> [(N_register, 84)],
      \<comment> \<open>68\<close> [(N_register, 85)],
      \<comment> \<open>69\<close> [(N_label, 86), (N_register, 13)],
      \<comment> \<open>70\<close> [(N_number, 87)],
      \<comment> \<open>71\<close> [],
      \<comment> \<open>72\<close> [],
      \<comment> \<open>73\<close> [],
      \<comment> \<open>74\<close> [],
      \<comment> \<open>75\<close> [],
      \<comment> \<open>76\<close> [],
      \<comment> \<open>77\<close> [],
      \<comment> \<open>78\<close> [],
      \<comment> \<open>79\<close> [],
      \<comment> \<open>80\<close> [],
      \<comment> \<open>81\<close> [],
      \<comment> \<open>82\<close> [],
      \<comment> \<open>83\<close> [],
      \<comment> \<open>84\<close> [],
      \<comment> \<open>85\<close> [],
      \<comment> \<open>86\<close> [],
      \<comment> \<open>87\<close> [],
      \<comment> \<open>88\<close> [],
      \<comment> \<open>89\<close> [],
      \<comment> \<open>90\<close> [],
      \<comment> \<open>91\<close> [],
      \<comment> \<open>92\<close> [(N_register, 103)],
      \<comment> \<open>93\<close> [(N_register, 104)],
      \<comment> \<open>94\<close> [(N_register, 105)],
      \<comment> \<open>95\<close> [(N_register, 106)],
      \<comment> \<open>96\<close> [(N_register, 107)],
      \<comment> \<open>97\<close> [(N_register, 108)],
      \<comment> \<open>98\<close> [(N_register, 109)],
      \<comment> \<open>99\<close> [(N_register, 110)],
      \<comment> \<open>100\<close> [(N_register, 111)],
      \<comment> \<open>101\<close> [(N_register, 112)],
      \<comment> \<open>102\<close> [],
      \<comment> \<open>103\<close> [],
      \<comment> \<open>104\<close> [],
      \<comment> \<open>105\<close> [],
      \<comment> \<open>106\<close> [],
      \<comment> \<open>107\<close> [],
      \<comment> \<open>108\<close> [],
      \<comment> \<open>109\<close> [],
      \<comment> \<open>110\<close> [],
      \<comment> \<open>111\<close> [],
      \<comment> \<open>112\<close> [],
      \<comment> \<open>113\<close> [],
      \<comment> \<open>114\<close> [],
      \<comment> \<open>115\<close> [(N_label, 118), (N_register, 13)],
      \<comment> \<open>116\<close> [],
      \<comment> \<open>117\<close> [(N_label, 119), (N_register, 13)],
      \<comment> \<open>118\<close> [],
      \<comment> \<open>119\<close> [],
      \<comment> \<open>120\<close> [],
      \<comment> \<open>121\<close> [],
      \<comment> \<open>122\<close> [],
      \<comment> \<open>123\<close> []]"

fun call :: "rule \<Rightarrow> sym list \<Rightarrow> parser \<Rightarrow> pyval \<times> parser" where
  "call P_none p g = (PNone, g)"
| "call P_program p g = p_program p g"
| "call P_program_error p g = p_program_error p g"
| "call P_line p g = (p_line p, g)"
| "call P_uh p g = (p_uh p, g)"
| "call P_empty_or_space p g = (p_empty_or_space p, g)"
| "call P_register_declaration p g = p_register_declaration p g"
| "call P_number p g = (p_number p, g)"
| "call P_label p g = (p_label p, g)"
| "call P_register p g = p_register p g"
| "call P_command p g = (p_command p, g)"
| "call P_replace p g = (p_replace p, g)"
| "call P_append p g = (p_append p, g)"
| "call P_rip p g = (p_rip p, g)"
| "call P_multiply p g = (p_multiply p, g)"
| "call P_chop p g = (p_chop p, g)"
| "call P_push p g = (p_push p, g)"
| "call P_pull p g = (p_pull p, g)"
| "call P_print p g = (p_print p, g)"
| "call P_put p g = (p_put p, g)"
| "call P_registers p g = (p_registers p, g)"
| "call P_pick p g = (p_pick p, g)"
| "call P_compare p g = (p_compare p, g)"
| "call P_superior p g = (p_superior p, g)"
| "call P_jump p g = (p_jump p, g)"

subsection \<open>The parsing loop of \<^verbatim>\<open>ply.yacc\<close>\<close>

text \<open>
  A state whose only table entry is a reduction is reduced without looking at the next
  token (\<^verbatim>\<open>defaulted_states\<close>).
\<close>

definition defaulted_states :: "nat \<Rightarrow> int option" where
  "defaulted_states state =
     (case action ! state of [(tok, t)] \<Rightarrow> if t < 0 then Some t else None | _ \<Rightarrow> None)"

text \<open>
  The next symbol on the input, when no lookahead is set: from \<open>lookaheadstack\<close> if it
  holds one, from the lexer otherwise; \<^verbatim>\<open>$end\<close> when the lexer has no token left. An
  exception raised in the lexer leaves the loop.
\<close>

definition get_lookahead :: "parser \<Rightarrow> py_error \<times> parser + sym \<times> parser" where
  "get_lookahead c =
     (case lookahead c of
        Some la \<Rightarrow> Inr (la, c)
      | None \<Rightarrow>
          (case lookaheadstack c of
             la # rest \<Rightarrow> Inr (la, c\<lparr>lookahead := Some la, lookaheadstack := rest\<rparr>)
           | [] \<Rightarrow>
               (case token (lexdata c) (lineno c) [] of
                  (ds, Inl e) \<Rightarrow> Inl (e, c\<lparr>stderr := stderr c @ ds\<rparr>)
                | (ds, Inr (tok, rest, n)) \<Rightarrow>
                    (let la = (case tok of
                                 Some t \<Rightarrow> t
                               | None \<Rightarrow> \<lparr>stype = T_end, svalue = PNone, slineno = 0\<rparr>)
                     in Inr (la, c\<lparr>lexdata := rest, lineno := n, stderr := stderr c @ ds,
                                   lookahead := Some la\<rparr>)))))"

text \<open>
  One turn of the loop either goes on with a new state, or returns the result of the
  parse, or is left by an exception of the lexer, or fails on a missing \<^verbatim>\<open>goto\<close> entry
  (which a table built from the grammar does not have).
\<close>

datatype outcome = Continue parser | Return pyval parser | Raise py_error parser | Broken

definition current_state :: "parser \<Rightarrow> nat" where
  "current_state c = (case statestack c of s # ss \<Rightarrow> s | [] \<Rightarrow> 0)"

definition shift :: "nat \<Rightarrow> sym \<Rightarrow> parser \<Rightarrow> outcome" where
  "shift t la c =
     Continue (c\<lparr>statestack := t # statestack c, symstack := la # symstack c,
                 lookahead := None, errorcount := errorcount c - 1\<rparr>)"

definition reduce :: "nat \<Rightarrow> parser \<Rightarrow> outcome" where
  "reduce n c =
     (case productions ! n of
        (pname, rhs, f) \<Rightarrow>
          (let plen = length rhs;
               targ = rev (take plen (symstack c));
               c1 = c\<lparr>symstack := drop plen (symstack c)\<rparr>
           in case call f targ c1 of
                (v, c2) \<Rightarrow>
                  (let states = drop plen (statestack c2)
                   in case map_of (goto ! (case states of s # ss \<Rightarrow> s | [] \<Rightarrow> 0)) pname of
                        None \<Rightarrow> Broken
                      | Some s \<Rightarrow>
                          Continue (c2\<lparr>statestack := s # states,
                                       symstack := \<lparr>stype = pname, svalue = v, slineno = 0\<rparr>
                                                    # symstack c2\<rparr>))))"

text \<open>
  No table entry for the lookahead in the current state: the error handling of the loop.
  \<^verbatim>\<open>p_error\<close> is called when \<open>errorcount\<close> is 0. Then, in this order: with nothing but
  the start state on the stack the token is dropped; at the end of the input the parse
  returns \<^verbatim>\<open>None\<close>; a token is dropped when an \<^verbatim>\<open>error\<close> symbol is on top of the stack, and
  replaced by an \<^verbatim>\<open>error\<close> symbol (and pushed back) otherwise; with the \<^verbatim>\<open>error\<close> symbol as
  lookahead the stack is popped.
\<close>

definition recover :: "sym \<Rightarrow> parser \<Rightarrow> outcome" where
  "recover la c0 =
     (let c = (if errorcount c0 = 0 then p_error la (c0\<lparr>errorcount := 3\<rparr>)
               else c0\<lparr>errorcount := 3\<rparr>)
      in if length (statestack c) \<le> 1 \<and> stype la \<noteq> T_end
         then Continue (c\<lparr>lookahead := None, lookaheadstack := []\<rparr>)
         else if stype la = T_end
         then Return PNone c
         else if stype la \<noteq> T_error
         then (if (case symstack c of x # xs \<Rightarrow> stype x = T_error | [] \<Rightarrow> False)
               then Continue (c\<lparr>lookahead := None\<rparr>)
               else Continue
                      (c\<lparr>lookaheadstack := la # lookaheadstack c,
                         lookahead :=
                           Some \<lparr>stype = T_error,
                                 svalue = PLexToken (stype la) (svalue la) (slineno la),
                                 slineno = slineno la\<rparr>\<rparr>))
         else Continue (c\<lparr>symstack := tl (symstack c), statestack := tl (statestack c)\<rparr>))"

definition perform :: "int option \<Rightarrow> sym \<Rightarrow> parser \<Rightarrow> outcome" where
  "perform t la c =
     (case t of
        Some t \<Rightarrow>
          if t > 0 then shift (nat t) la c
          else if t < 0 then reduce (nat (- t)) c
          else Return (case symstack c of x # xs \<Rightarrow> svalue x | [] \<Rightarrow> PNone) c
      | None \<Rightarrow> recover la c)"

definition parse_step :: "parser \<Rightarrow> outcome" where
  "parse_step c =
     (case defaulted_states (current_state c) of
        Some t \<Rightarrow> reduce (nat (- t)) c
      | None \<Rightarrow>
          (case get_lookahead c of
             Inl (e, c') \<Rightarrow> Raise e c'
           | Inr (la, c') \<Rightarrow> perform (map_of (action ! current_state c') (stype la)) la c'))"

text \<open>
  The loop runs until a \<^verbatim>\<open>return\<close> or an exception; it is given fuel, \<open>None\<close> meaning
  that \<open>n\<close> turns were not enough.
\<close>

fun parse_loop :: "nat \<Rightarrow> parser \<Rightarrow> (py_error \<times> parser + pyval \<times> parser) option" where
  "parse_loop 0 c = None"
| "parse_loop (Suc n) c =
     (case parse_step c of
        Continue c' \<Rightarrow> parse_loop n c'
      | Return v c' \<Rightarrow> Some (Inr (v, c'))
      | Raise e c' \<Rightarrow> Some (Inl (e, c'))
      | Broken \<Rightarrow> None)"

subsection \<open>\<^verbatim>\<open>parse\<close>\<close>

text \<open>
  \<^verbatim>\<open>parse\<close> empties the two name tables, sets the line number to 1 and
  \<^verbatim>\<open>parser.error\<close> to 0, runs the parser, and returns \<^verbatim>\<open>None\<close> when \<^verbatim>\<open>parser.error\<close> is set.
  The model returns the value, or the exception that \<^verbatim>\<open>parse\<close> lets through, together
  with what was written to \<^verbatim>\<open>sys.stderr\<close>.
\<close>

definition start :: "string \<Rightarrow> parser" where
  "start data =
     \<lparr>lexdata = data, lineno = 1, lookahead = None, lookaheadstack = [],
      statestack = [0], symstack = [\<lparr>stype = T_end, svalue = PNone, slineno = 0\<rparr>],
      errorcount = 0, register_names = [], label_names = [], error = 0, stderr = []\<rparr>"

definition parse ::
  "nat \<Rightarrow> string \<Rightarrow> (py_error \<times> diag list + pyval \<times> diag list) option" where
  "parse fuel data =
     (case parse_loop fuel (start data) of
        None \<Rightarrow> None
      | Some (Inl (e, c)) \<Rightarrow> Some (Inl (e, stderr c))
      | Some (Inr (p, c)) \<Rightarrow> Some (Inr (if error c \<noteq> 0 then PNone else p, stderr c)))"

subsection \<open>Register names\<close>

text \<open>
  The strings that the tokenizer turns into a \<^verbatim>\<open>REGISTER\<close> token: an upper-case letter
  followed by letters and digits, and not one of the keywords.
\<close>

definition is_register_name :: "string \<Rightarrow> bool" where
  "is_register_name v =
     (case v of [] \<Rightarrow> False
      | c # cs \<Rightarrow> is_upper c \<and> list_all is_alnum cs \<and> map_of keyword_map v = None)"

section \<open>The automaton read backwards\<close>

text \<open>
  What follows is not in the source: it describes the tables and the configurations of
  the loop, for the proofs about \<^verbatim>\<open>parse\<close> on every text. Nothing of it is taken on
  trust: that the two lists below fit the tables is part of what is proved of each state
  (\<open>state_ok\<close>).

  \<open>accessing ! s\<close> is the symbol on which every transition into state \<open>s\<close> is made, that
  is the symbol that lies beside \<open>s\<close> on the stacks (\<^verbatim>\<open>$end\<close> for the start state).
\<close>

definition accessing :: "symbol list" where
  "accessing =
     [T_end, N_program, N_line, T_error, N_empty_or_space, T_SPACE,
      N_line, N_register_declaration, N_label, N_uh, T_NEWLINE, T_UH,
      T_I, N_register, T_REGISTER, N_empty_or_space, N_empty_or_space, T_HYPHEN,
      T_SPACE, T_EXCLAMATION_MARK, T_SPACE, T_HYPHEN, T_NEWLINE, T_NEWLINE,
      N_register, N_label, N_command, N_replace, N_append, N_rip,
      N_multiply, N_chop, N_push, N_pull, N_print, N_put,
      N_pick, N_compare, N_superior, N_jump, T_REPLACE, T_APPEND,
      T_RIP, T_MULTIPLY, T_CHOP, T_PUSH, T_PULL, T_PRINT,
      T_PUT, T_PICK, T_COMPARE, T_SUPERIOR, T_JUMP, T_HAVE,
      N_register, N_empty_or_space, N_empty_or_space, T_HYPHEN, T_HYPHEN, T_HYPHEN,
      T_HYPHEN, T_HYPHEN, T_HYPHEN, T_HYPHEN, T_HYPHEN, T_HYPHEN,
      T_HYPHEN, T_HYPHEN, T_HYPHEN, T_HYPHEN, T_SPACE, T_NEWLINE,
      T_NEWLINE, N_register, N_register, N_register, N_register, N_register,
      N_register, N_register, N_register, N_registers, N_register, N_register,
      N_register, N_register, N_label, N_number, T_REGISTER, T_NO,
      T_A, T_NUMBER, T_HYPHEN, T_HYPHEN, T_HYPHEN, T_HYPHEN,
      T_HYPHEN, T_HYPHEN, T_HYPHEN, T_HYPHEN, T_HYPHEN, T_HYPHEN,
      T_SPACE, N_register, N_register, N_register, N_register, N_register,
      N_register, N_register, N_register, N_register, N_register, T_REGISTER,
      T_QUESTION_MARK, T_HYPHEN, T_QUESTION_MARK, T_HYPHEN, N_label, N_label,
      T_EXCLAMATION_MARK, T_EXCLAMATION_MARK, T_QUESTION_MARK, T_QUESTION_MARK]"

text \<open>
  \<open>preds ! s\<close> lists the states with a transition into \<open>s\<close>: the states that can lie
  under \<open>s\<close> on the stack. \<open>backward n S\<close> is where one can be \<open>n\<close> entries below a state
  of \<open>S\<close>.
\<close>

definition preds :: "nat list list" where
  "preds =
     [[], [0], [0], [0], [0, 1], [0, 1, 7, 8, 25, 26], [1], [4],
      [4], [4], [4], [4], [4], [4, 18, 69, 115, 117], [4, 17, 18, 21, 57, 58, 59, 60, 61, 62, 63, 64, 65, 66, 67, 68, 69, 92, 93, 94, 95, 96, 97, 98, 99, 100, 101, 115, 117], [7],
      [8], [8, 25, 86, 118, 119], [9], [11], [12], [13], [15], [16],
      [17], [18], [18], [18], [18], [18], [18], [18],
      [18], [18], [18], [18], [18], [18], [18], [18],
      [18], [18], [18], [18], [18], [18], [18], [18],
      [18], [18], [18], [18], [18], [20], [21], [25],
      [26], [40], [41], [42], [43], [44], [45], [46],
      [47], [48], [49], [50], [51], [52], [53], [55],
      [56], [57], [58], [59], [60], [61], [62], [63],
      [64], [65], [65], [66], [67], [68], [69], [70],
      [70], [70], [70], [70], [73], [74], [75], [76],
      [77], [78], [79], [81], [84], [85], [87], [92],
      [93], [94], [95], [96], [97], [98], [99], [100],
      [101], [102], [111], [111], [112], [112], [115], [117],
      [118], [119], [120], [121]]"

fun backward :: "nat \<Rightarrow> nat list \<Rightarrow> nat list" where
  "backward 0 S = S"
| "backward (Suc n) S = backward n (remdups (concat (map (\<lambda>s. preds ! s) S)))"

text \<open>
  A reduction by a rule with one symbol on its right-hand side leaves the stack as high
  as it was. \<open>rank\<close> falls along every such rule of the grammar (a token, then
  \<^verbatim>\<open>register\<close>, then the commands and \<^verbatim>\<open>line\<close>, then the rest), so they cannot follow
  one another for ever.
\<close>

fun rank :: "symbol \<Rightarrow> nat" where
  "rank N_register = 2"
| "rank N_line = 1"
| "rank N_replace = 1"
| "rank N_append = 1"
| "rank N_rip = 1"
| "rank N_multiply = 1"
| "rank N_chop = 1"
| "rank N_push = 1"
| "rank N_pull = 1"
| "rank N_print = 1"
| "rank N_put = 1"
| "rank N_pick = 1"
| "rank N_compare = 1"
| "rank N_superior = 1"
| "rank N_jump = 1"
| "rank N_S' = 0"
| "rank N_program = 0"
| "rank N_uh = 0"
| "rank N_empty_or_space = 0"
| "rank N_register_declaration = 0"
| "rank N_number = 0"
| "rank N_label = 0"
| "rank N_command = 0"
| "rank N_registers = 0"
| "rank t = 3"

definition is_shift :: "int option \<Rightarrow> bool" where
  "is_shift t = (case t of Some x \<Rightarrow> 0 < x | None \<Rightarrow> False)"

text \<open>
  What the loop needs of a reduction by rule \<open>n\<close> in state \<open>s\<close> on the token \<open>a\<close>: the stack
  is higher than the right-hand side (the start state is not among the states the rule
  pops), every state that can be uncovered has a \<^verbatim>\<open>goto\<close> entry for the left-hand side,
  and, as to progress: a rule with an empty right-hand side (there is one,
  \<^verbatim>\<open>empty_or_space\<close>) leads to a state that shifts \<open>a\<close>; one with a single symbol lowers
  \<open>rank\<close>; states 0 and 1 reduce by the empty rule only, and state 3 by
  \<^verbatim>\<open>program : error\<close> only.
\<close>

definition reduce_ok :: "nat \<Rightarrow> symbol \<Rightarrow> nat \<Rightarrow> bool" where
  "reduce_ok s a n =
     (n < length productions \<and> 0 < n \<and>
      (case productions ! n of
         (lhs, rhs, f) \<Rightarrow>
           list_all (\<lambda>j. 0 \<notin> set (backward j [s])) [0..<length rhs] \<and>
           list_all
             (\<lambda>t. case map_of (goto ! t) lhs of
                     None \<Rightarrow> False
                   | Some s' \<Rightarrow>
                       (if rhs = []
                        then is_shift (map_of (action ! s') a) \<and>
                             accessing ! s' = N_empty_or_space \<and> defaulted_states s = None
                        else True))
             (backward (length rhs) [s]) \<and>
           (if length rhs = 1 then rank lhs < rank (accessing ! s) else True) \<and>
           (if s = 0 \<or> s = 1 then rhs = [] else True) \<and>
           (if s = 3 then n = 3 else True)))"

text \<open>
  What the loop needs of an entry of \<open>action\<close> and of \<open>goto\<close>: a shift (\<open>t > 0\<close>) leads to a
  state other than the start state, reached on that symbol and from this state, never on
  \<^verbatim>\<open>$end\<close>, and on \<^verbatim>\<open>error\<close> from the start state only; a reduction (\<open>t < 0\<close>) is as above
  and never on \<^verbatim>\<open>error\<close>; accepting (\<open>t = 0\<close>) is in state 1 on \<^verbatim>\<open>$end\<close>.
\<close>

definition entry_ok :: "nat \<Rightarrow> symbol \<times> int \<Rightarrow> bool" where
  "entry_ok s e =
     (case e of
        (a, t) \<Rightarrow>
          if 0 < t
          then nat t < 124 \<and> nat t \<noteq> 0 \<and> accessing ! nat t = a \<and> s \<in> set (preds ! nat t) \<and>
               a \<noteq> T_end \<and> (if a = T_error then s = 0 \<and> t = 3 else True)
          else if t < 0 then a \<noteq> T_error \<and> reduce_ok s a (nat (- t))
          else s = 1 \<and> a = T_end)"

definition goto_ok :: "nat \<Rightarrow> symbol \<times> nat \<Rightarrow> bool" where
  "goto_ok s e =
     (case e of
        (A, t) \<Rightarrow> 0 < t \<and> t < 124 \<and> accessing ! t = A \<and> s \<in> set (preds ! t) \<and> rank A < 3)"

definition state_ok :: "nat \<Rightarrow> bool" where
  "state_ok s =
     (list_all (entry_ok s) (action ! s) \<and> list_all (goto_ok s) (goto ! s) \<and>
      ((accessing ! s = T_error) = (s = 3)) \<and>
      (case defaulted_states s of
         Some t \<Rightarrow> (case productions ! nat (- t) of (lhs, rhs, f) \<Rightarrow> rhs \<noteq> [])
       | None \<Rightarrow> True))"

section \<open>Configurations of the loop\<close>

text \<open>
  The stacks of a configuration that the loop can reach: the start state at the bottom
  and nowhere else, each state over one of its predecessors and beside its accessing
  symbol, and no state with a default reduction below the top.
\<close>

fun chain :: "nat list \<Rightarrow> bool" where
  "chain (a # b # rest) = (b \<in> set (preds ! a) \<and> chain (b # rest))"
| "chain rest = True"

definition real_token :: "sym \<Rightarrow> bool" where
  "real_token x = (stype x \<noteq> T_end \<and> stype x \<noteq> T_error)"

definition stacks_ok :: "parser \<Rightarrow> bool" where
  "stacks_ok c =
     (statestack c \<noteq> [] \<and> last (statestack c) = 0 \<and> 0 \<notin> set (butlast (statestack c)) \<and>
      list_all (\<lambda>s. s < 124) (statestack c) \<and>
      list_all (\<lambda>s. defaulted_states s = None) (tl (statestack c)) \<and>
      chain (statestack c) \<and>
      list_all2 (\<lambda>s x. stype x = accessing ! s) (statestack c) (symstack c))"

text \<open>
  The lookahead of such a configuration: at most one token is pushed back, and only
  while the \<^verbatim>\<open>error\<close> symbol made from it is the lookahead or has just been shifted (state
  3).
\<close>

definition pending_ok :: "parser \<Rightarrow> bool" where
  "pending_ok c =
     (list_all real_token (lookaheadstack c) \<and> length (lookaheadstack c) \<le> 1 \<and>
      (case lookahead c of
         None \<Rightarrow> lookaheadstack c = [] \<or> current_state c = 3
       | Some la \<Rightarrow>
           if stype la = T_error
           then lookaheadstack c \<noteq> [] \<and> defaulted_states (current_state c) = None
           else lookaheadstack c = []))"

definition consistent :: "parser \<Rightarrow> bool" where
  "consistent c = (stacks_ok c \<and> pending_ok c)"

text \<open>
  Every turn of the loop lowers, in lexicographic order: what is left to read
  (\<open>input_left\<close>: the text not yet tokenized, the token pushed back, the lookahead);
  then the \<open>phase\<close> of the work on the current lookahead; then the height of the stack
  (\<open>depth\<close>); then the rank of the symbol on top of it (\<open>top_rank\<close>).
\<close>

definition input_left :: "parser \<Rightarrow> nat" where
  "input_left c =
     (case lookahead c of
        Some la \<Rightarrow>
          if stype la = T_end then 0
          else if stype la = T_error
          then 2 * length (lexdata c) + 2 + length (lookaheadstack c)
          else 2 * length (lexdata c) + 3 + length (lookaheadstack c)
      | None \<Rightarrow> 2 * length (lexdata c) + 2 + length (lookaheadstack c))"

definition phase :: "parser \<Rightarrow> nat" where
  "phase c =
     (case lookahead c of
        None \<Rightarrow> if lookaheadstack c \<noteq> [] then 3 else 6
      | Some la \<Rightarrow>
          if stype la = T_error then 4
          else if current_state c = 3 then 2
          else if (current_state c = 0 \<or> current_state c = 1) \<and>
                  map_of (action ! current_state c) (stype la) \<noteq> None then 1
          else if is_shift (map_of (action ! current_state c) (stype la)) \<and>
                  accessing ! current_state c = N_empty_or_space then 0
          else 5)"

definition depth :: "parser \<Rightarrow> nat" where
  "depth c = length (statestack c)"

definition top_rank :: "parser \<Rightarrow> nat" where
  "top_rank c = rank (accessing ! current_state c)"

definition smaller :: "(parser \<times> parser) set" where
  "smaller =
     inv_image (less_than <*lex*> less_than <*lex*> less_than <*lex*> less_than)
       (\<lambda>c. (input_left c, phase c, depth c, top_rank c))"

text \<open>
  \<open>configs k c\<close> is the configuration after \<open>k\<close> turns of the loop from \<open>c\<close>, if it has not
  returned before. In \<open>c\<close> the loop \<open>rejects\<close> the token \<open>la\<close> if \<open>la\<close> is its next lookahead
  and the state on top of the stack, which has no default reduction, has no action for
  it: this is where the error handling of the loop is entered.
\<close>

fun configs :: "nat \<Rightarrow> parser \<Rightarrow> parser option" where
  "configs 0 c = Some c"
| "configs (Suc k) c =
     (case parse_step c of
        Continue c' \<Rightarrow> configs k c'
      | Return v c' \<Rightarrow> None
      | Raise e c' \<Rightarrow> None
      | Broken \<Rightarrow> None)"

definition rejects :: "parser \<Rightarrow> sym \<Rightarrow> bool" where
  "rejects c la =
     (defaulted_states (current_state c) = None \<and>
      (case get_lookahead c of Inl x \<Rightarrow> False | Inr (x, c') \<Rightarrow> x = la) \<and>
      map_of (action ! current_state c) (stype la) = None)"

text \<open>
  A grammar action leaves the stacks and the input alone, may write to the error
  stream, and never clears the \<^verbatim>\<open>parser.error\<close> flag (\<open>same_frame\<close>); over a whole run the
  error stream and the flag only grow (\<open>grows\<close>).
\<close>

definition same_frame :: "parser \<Rightarrow> parser \<Rightarrow> bool" where
  "same_frame g g' =
     (lexdata g' = lexdata g \<and> lineno g' = lineno g \<and> lookahead g' = lookahead g \<and>
      lookaheadstack g' = lookaheadstack g \<and> statestack g' = statestack g \<and>
      symstack g' = symstack g \<and> errorcount g' = errorcount g \<and>
      set (stderr g) \<subseteq> set (stderr g') \<and> (error g \<noteq> 0 \<longrightarrow> error g' \<noteq> 0))"

definition grows :: "parser \<Rightarrow> parser \<Rightarrow> bool" where
  "grows c c' = (set (stderr c) \<subseteq> set (stderr c') \<and> (error c \<noteq> 0 \<longrightarrow> error c' \<noteq> 0))"

text \<open>
  The \<^verbatim>\<open>error\<close> symbol made from a rejected token \<open>la\<close>, as in \<open>recover\<close>. It is
  \<open>in_flight\<close> while it is the lookahead (states are popped until it can be shifted) or on
  top of the stack in state 3 (tokens are dropped until one that can follow it). The
  diagnostic of \<^verbatim>\<open>p_program_error\<close> for \<open>la\<close> is \<open>message la\<close>; it is \<open>reported\<close> once it is in
  the error stream and the flag is set.
\<close>

definition error_symbol :: "sym \<Rightarrow> sym" where
  "error_symbol la =
     \<lparr>stype = T_error, svalue = PLexToken (stype la) (svalue la) (slineno la),
      slineno = slineno la\<rparr>"

definition in_flight :: "sym \<Rightarrow> parser \<Rightarrow> bool" where
  "in_flight la c =
     (lookahead c = Some (error_symbol la) \<or>
      (current_state c = 3 \<and>
       (case symstack c of x # xs \<Rightarrow> x = error_symbol la | [] \<Rightarrow> False) \<and>
       (case lookahead c of Some x \<Rightarrow> stype x \<noteq> T_error | None \<Rightarrow> True)))"

definition message :: "sym \<Rightarrow> diag" where
  "message la =
     SyntaxError (slineno la)
       (if stype la = T_NEWLINE then [CHR 0x5C, CHR ''n''] else format_value (svalue la))"

definition reported :: "sym \<Rightarrow> parser \<Rightarrow> bool" where
  "reported la c = (error c \<noteq> 0 \<and> message la \<in> set (stderr c))"

text \<open>
  The configuration in which the loop was left, by a \<^verbatim>\<open>return\<close> or by an exception. A
  configuration is \<open>quiet\<close> as long as \<^verbatim>\<open>syntax error at eof\<close> has not been written. A text
  has \<open>short_numbers\<close> if nowhere in it more than \<open>max_str_digits\<close> digits follow one
  another.
\<close>

definition final :: "py_error \<times> parser + pyval \<times> parser \<Rightarrow> parser" where
  "final r = (case r of Inl x \<Rightarrow> snd x | Inr y \<Rightarrow> snd y)"

definition quiet :: "parser \<Rightarrow> bool" where
  "quiet c = (SyntaxErrorAtEof \<notin> set (stderr c))"

definition short_numbers :: "string \<Rightarrow> bool" where
  "short_numbers s =
     list_all (\<lambda>k. length (takeWhile is_digit (drop k s)) \<le> max_str_digits) [0..<length s]"

section \<open>Properties of the interpreter\<close>

lemma run_loop_raise:
  "pc s < length data \<Longrightarrow> step data s = Inl e \<Longrightarrow> run_loop (Suc n) data s = Some (Inl e)"
  by (simp add: run_loop.simps)

lemma binary_op_memory: "binary_op f a b s = Inr t \<Longrightarrow> memory t = memory s"
  by (auto simp: binary_op_def split: option.splits sum.splits)

lemma conditional_jump_memory: "conditional_jump lm c a b l s = Inr t \<Longrightarrow> memory t = memory s"
  by (auto simp: conditional_jump_def split: option.splits if_splits)

lemma putc_loop_memory: "putc_loop rs s = Inr t \<Longrightarrow> memory t = memory s"
  by (induction rs arbitrary: s) (auto split: option.splits sum.splits if_splits)

lemma exec_op_memory:
  "exec_op lm op s = Inr t \<Longrightarrow> memory t x \<noteq> memory s x \<Longrightarrow>
     \<exists>src r. op = STORE src r \<and> registers s r = Some x"
  by (cases op)
     (auto simp: binary_op_memory conditional_jump_memory putc_loop_memory
           split: option.splits if_splits list.splits sum.splits)

lemma step_memory:
  "step data s = Inr t \<Longrightarrow> \<not> stores_to x data s \<Longrightarrow> memory t x = memory s x"
  unfolding step_def stores_to_def
  by (cases "memory t x = memory s x") (auto dest!: exec_op_memory)

lemma runs_without_store_memory:
  "runs_without_store a data s u \<Longrightarrow> memory u a = memory s a"
  by (induction rule: runs_without_store.induct) (auto dest: step_memory)

text \<open>
  C3 (as amended). An execution of \<^verbatim>\<open>EQ\<close>, \<^verbatim>\<open>NE\<close>, \<^verbatim>\<open>GT\<close> or \<^verbatim>\<open>GE\<close> completes exactly when
  both operand registers hold a value. It then leaves exactly 0 or 1 in the first operand
  register and changes no other register, so the second operand register keeps its value
  whenever it is not the first operand register itself. When an operand register holds no
  value the instruction raises \<^verbatim>\<open>KeyError\<close>, for the first operand register if that one holds
  no value and for the second one otherwise, and no register changes.
\<close>

theorem cmp_overwrites_first_operand:
  assumes "pc s < length data"
    and "data ! pc s \<in> {EQ a b, NE a b, GT a b, GE a b}"
  shows "case step data s of
           Inr s' \<Rightarrow>
             registers s' a \<in> {Some 0, Some 1} \<and>
             (\<forall>r. r \<noteq> a \<longrightarrow> registers s' r = registers s r) \<and>
             (a \<noteq> b \<longrightarrow> registers s' b = registers s b) \<and>
             registers s a \<noteq> None \<and> registers s b \<noteq> None
         | Inl (e, s') \<Rightarrow>
             (registers s a = None \<or> registers s b = None) \<and>
             e = (if registers s a = None then KeyError a else KeyError b) \<and>
             registers s' = registers s"
  using assms(2)
  by (auto simp: step_def binary_op_def split: option.splits)

theorem cmp_overwrites_first_operand_witness:
  "(0::nat) < length [EQ ''P'' ''Q''] \<and>
   [EQ ''P'' ''Q''] ! 0 \<in> {EQ ''P'' ''Q'', NE ''P'' ''Q'', GT ''P'' ''Q'', GE ''P'' ''Q''} \<and>
   step [EQ ''P'' ''Q'']
     \<lparr>pc = 0, registers = [''P'' \<mapsto> 7, ''Q'' \<mapsto> 7], memory = Map.empty, stdin = [], stdout = []\<rparr>
   = Inr \<lparr>pc = 1, registers = [''P'' \<mapsto> 1, ''Q'' \<mapsto> 7], memory = Map.empty, stdin = [], stdout = []\<rparr> \<and>
   (0::nat) < length [GT ''P'' ''Q''] \<and>
   [GT ''P'' ''Q''] ! 0 \<in> {EQ ''P'' ''Q'', NE ''P'' ''Q'', GT ''P'' ''Q'', GE ''P'' ''Q''} \<and>
   step [GT ''P'' ''Q'']
     \<lparr>pc = 0, registers = [''P'' \<mapsto> 7], memory = Map.empty, stdin = [], stdout = []\<rparr>
   = Inl (KeyError ''Q'',
       \<lparr>pc = 1, registers = [''P'' \<mapsto> 7], memory = Map.empty, stdin = [], stdout = []\<rparr>)"
  using cmp_overwrites_first_operand
    [of "\<lparr>pc = 0, registers = [''P'' \<mapsto> 7, ''Q'' \<mapsto> 7], memory = Map.empty, stdin = [], stdout = []\<rparr>"
      "[EQ ''P'' ''Q'']" "''P''" "''Q''"]
    cmp_overwrites_first_operand
    [of "\<lparr>pc = 0, registers = [''P'' \<mapsto> 7], memory = Map.empty, stdin = [], stdout = []\<rparr>"
      "[GT ''P'' ''Q'']" "''P''" "''Q''"]
  by (simp add: step_def binary_op_def fun_upd_twist)

text \<open>
  C3 as stated fails when both operands are the same register: \<^verbatim>\<open>Compare-P-P\<close> with 5 in
  \<^verbatim>\<open>P\<close> leaves 1 in \<^verbatim>\<open>P\<close>, so the value of the second operand register has changed.
\<close>

theorem cmp_same_register_counterexample:
  "step [EQ ''P'' ''P'']
     \<lparr>pc = 0, registers = [''P'' \<mapsto> 5], memory = Map.empty, stdin = [], stdout = []\<rparr>
   = Inr \<lparr>pc = 1, registers = [''P'' \<mapsto> 1], memory = Map.empty, stdin = [], stdout = []\<rparr>"
  by (simp add: step_def binary_op_def)

text \<open>
  C4. \<^verbatim>\<open>DIV\<close> on -7 and 2 leaves -3, the quotient truncated toward zero. On
  9007199254740993 (that is \<open>2^53 + 1\<close>) and 1 it leaves 9007199254740992, which is not the
  quotient: the division goes through a double.
\<close>

theorem div_through_double:
  "step [DIV ''P'' ''Q'']
     \<lparr>pc = 0, registers = [''P'' \<mapsto> - 7, ''Q'' \<mapsto> 2], memory = Map.empty, stdin = [], stdout = []\<rparr>
   = Inr \<lparr>pc = 1, registers = [''Q'' \<mapsto> 2, ''P'' \<mapsto> - 3], memory = Map.empty, stdin = [], stdout = []\<rparr>
   \<and>
   step [DIV ''P'' ''Q'']
     \<lparr>pc = 0, registers = [''P'' \<mapsto> 9007199254740993, ''Q'' \<mapsto> 1], memory = Map.empty, stdin = [], stdout = []\<rparr>
   = Inr \<lparr>pc = 1, registers = [''Q'' \<mapsto> 1, ''P'' \<mapsto> 9007199254740992], memory = Map.empty, stdin = [], stdout = []\<rparr>"
proof -
  have a: "int_true_div (- 7) 2 = Inr (- 3)"
    by code_simp
  have b: "int_true_div 9007199254740993 1 = Inr 9007199254740992"
    by code_simp
  show ?thesis
    by (simp add: step_def binary_op_def a b)
qed

text \<open>
  C6 (as amended). With the address register holding \<open>addr\<close>: outside \<open>[0, 16777216)\<close>
  both \<^verbatim>\<open>STORE\<close> and \<^verbatim>\<open>LOAD\<close> raise \<^verbatim>\<open>ValueError\<close>, which ends the run, and neither memory
  nor registers change; inside the range no range error is raised: \<^verbatim>\<open>LOAD\<close> completes,
  and \<^verbatim>\<open>STORE\<close> completes when its value register holds a value and raises \<^verbatim>\<open>KeyError\<close>
  for that register otherwise.
\<close>

theorem address_out_of_range_is_fatal:
  assumes "pc s < length data" and "registers s b = Some addr"
  shows "(data ! pc s = STORE a b \<longrightarrow>
            (if addr < 0 \<or> 16777216 \<le> addr
             then step data s =
                    Inl (ValueError ''memory address to store is out of range'', s\<lparr>pc := pc s + 1\<rparr>) \<and>
                  run_loop (Suc n) data s =
                    Some (Inl (ValueError ''memory address to store is out of range'', s\<lparr>pc := pc s + 1\<rparr>))
             else (case registers s a of
                     Some v \<Rightarrow> step data s = Inr (s\<lparr>pc := pc s + 1, memory := (memory s)(addr \<mapsto> v)\<rparr>)
                   | None \<Rightarrow> step data s = Inl (KeyError a, s\<lparr>pc := pc s + 1\<rparr>)))) \<and>
         (data ! pc s = LOAD a b \<longrightarrow>
            (if addr < 0 \<or> 16777216 \<le> addr
             then step data s =
                    Inl (ValueError ''memory address to load is out of range'', s\<lparr>pc := pc s + 1\<rparr>) \<and>
                  run_loop (Suc n) data s =
                    Some (Inl (ValueError ''memory address to load is out of range'', s\<lparr>pc := pc s + 1\<rparr>))
             else step data s =
                    Inr (s\<lparr>pc := pc s + 1,
                          registers := (registers s)
                            (a \<mapsto> (case memory s addr of None \<Rightarrow> 0 | Some v \<Rightarrow> v))\<rparr>)))"
  using assms
  by (auto simp: step_def memory_size_def run_loop_raise split: option.splits)

theorem address_out_of_range_is_fatal_witness:
  "(0::nat) < length [STORE ''V'' ''A''] \<and>
   [''V'' \<mapsto> 3, ''A'' \<mapsto> (16777216::int)] ''A'' = Some 16777216 \<and>
   step [STORE ''V'' ''A'']
     \<lparr>pc = 0, registers = [''V'' \<mapsto> 3, ''A'' \<mapsto> 16777216], memory = Map.empty, stdin = [], stdout = []\<rparr>
   = Inl (ValueError ''memory address to store is out of range'',
       \<lparr>pc = 1, registers = [''V'' \<mapsto> 3, ''A'' \<mapsto> 16777216], memory = Map.empty, stdin = [], stdout = []\<rparr>) \<and>
   (0::nat) < length [LOAD ''V'' ''A''] \<and>
   [''V'' \<mapsto> 3, ''A'' \<mapsto> (16777215::int)] ''A'' = Some 16777215 \<and>
   step [LOAD ''V'' ''A'']
     \<lparr>pc = 0, registers = [''V'' \<mapsto> 3, ''A'' \<mapsto> 16777215], memory = Map.empty, stdin = [], stdout = []\<rparr>
   = Inr \<lparr>pc = 1, registers = [''A'' \<mapsto> 16777215, ''V'' \<mapsto> 0], memory = Map.empty, stdin = [], stdout = []\<rparr>"
  using address_out_of_range_is_fatal
    [of "\<lparr>pc = 0, registers = [''V'' \<mapsto> 3, ''A'' \<mapsto> 16777216], memory = Map.empty, stdin = [], stdout = []\<rparr>"
      "[STORE ''V'' ''A'']" "''A''" 16777216 "''V''" 0]
    address_out_of_range_is_fatal
    [of "\<lparr>pc = 0, registers = [''V'' \<mapsto> 3, ''A'' \<mapsto> 16777215], memory = Map.empty, stdin = [], stdout = []\<rparr>"
      "[LOAD ''V'' ''A'']" "''A''" 16777215 "''V''" 0]
  by (simp add: fun_upd_twist)

text \<open>
  C6 as stated fails for a \<^verbatim>\<open>STORE\<close> whose value register holds no value: the address 1
  is inside the range and an error is raised all the same.
\<close>

theorem store_in_range_raises_counterexample:
  "step [STORE ''Q'' ''P'']
     \<lparr>pc = 0, registers = [''P'' \<mapsto> 1], memory = Map.empty, stdin = [], stdout = []\<rparr>
   = Inl (KeyError ''Q'',
       \<lparr>pc = 1, registers = [''P'' \<mapsto> 1], memory = Map.empty, stdin = [], stdout = []\<rparr>)"
  by (simp add: step_def memory_size_def)

text \<open>
  C7. A \<^verbatim>\<open>STORE\<close> of \<open>v\<close> at an address \<open>a\<close> inside the range, followed (at once, or after
  iterations that do not store to \<open>a\<close>) by a \<^verbatim>\<open>LOAD\<close> through the same address register
  still holding \<open>a\<close>, puts \<open>v\<close> in the destination register. A \<^verbatim>\<open>LOAD\<close> from an address that
  no \<^verbatim>\<open>STORE\<close> has written since the start of the run puts 0 there.
\<close>

theorem load_after_store:
  "(pc s < length data \<and> data ! pc s = STORE src r \<and> registers s r = Some a \<and>
      registers s src = Some v \<and> 0 \<le> a \<and> a < memory_size \<and>
      runs_without_store a data (s\<lparr>pc := pc s + 1, memory := (memory s)(a \<mapsto> v)\<rparr>) u \<and>
      pc u < length data \<and> data ! pc u = LOAD dst r \<and> registers u r = Some a
    \<longrightarrow> step data s = Inr (s\<lparr>pc := pc s + 1, memory := (memory s)(a \<mapsto> v)\<rparr>) \<and>
        step data u = Inr (u\<lparr>pc := pc u + 1, registers := (registers u)(dst \<mapsto> v)\<rparr>))
   \<and>
   (runs_without_store a data (initial inp) u \<and> 0 \<le> a \<and> a < memory_size \<and>
      pc u < length data \<and> data ! pc u = LOAD dst r \<and> registers u r = Some a
    \<longrightarrow> step data u = Inr (u\<lparr>pc := pc u + 1, registers := (registers u)(dst \<mapsto> 0)\<rparr>))"
proof (intro conjI impI)
  assume h: "pc s < length data \<and> data ! pc s = STORE src r \<and> registers s r = Some a \<and>
      registers s src = Some v \<and> 0 \<le> a \<and> a < memory_size \<and>
      runs_without_store a data (s\<lparr>pc := pc s + 1, memory := (memory s)(a \<mapsto> v)\<rparr>) u \<and>
      pc u < length data \<and> data ! pc u = LOAD dst r \<and> registers u r = Some a"
  then show "step data s = Inr (s\<lparr>pc := pc s + 1, memory := (memory s)(a \<mapsto> v)\<rparr>)"
    by (simp add: step_def)
  from h have "memory u a = Some v"
    using runs_without_store_memory by fastforce
  with h show "step data u = Inr (u\<lparr>pc := pc u + 1, registers := (registers u)(dst \<mapsto> v)\<rparr>)"
    by (simp add: step_def)
next
  assume h: "runs_without_store a data (initial inp) u \<and> 0 \<le> a \<and> a < memory_size \<and>
      pc u < length data \<and> data ! pc u = LOAD dst r \<and> registers u r = Some a"
  then have "memory u a = None"
    using runs_without_store_memory [of a data "initial inp" u] by (simp add: initial_def)
  with h show "step data u = Inr (u\<lparr>pc := pc u + 1, registers := (registers u)(dst \<mapsto> 0)\<rparr>)"
    by (simp add: step_def)
qed

theorem load_after_store_witness:
  "runs_without_store 7 [STORE ''V'' ''A'', LOAD ''D'' ''A'']
     \<lparr>pc = 1, registers = [''V'' \<mapsto> 42, ''A'' \<mapsto> 7], memory = [7 \<mapsto> 42], stdin = [], stdout = []\<rparr>
     \<lparr>pc = 1, registers = [''V'' \<mapsto> 42, ''A'' \<mapsto> 7], memory = [7 \<mapsto> 42], stdin = [], stdout = []\<rparr> \<and>
   step [STORE ''V'' ''A'', LOAD ''D'' ''A'']
     \<lparr>pc = 0, registers = [''V'' \<mapsto> 42, ''A'' \<mapsto> 7], memory = Map.empty, stdin = [], stdout = []\<rparr>
   = Inr \<lparr>pc = 1, registers = [''V'' \<mapsto> 42, ''A'' \<mapsto> 7], memory = [7 \<mapsto> 42], stdin = [], stdout = []\<rparr> \<and>
   step [STORE ''V'' ''A'', LOAD ''D'' ''A'']
     \<lparr>pc = 1, registers = [''V'' \<mapsto> 42, ''A'' \<mapsto> 7], memory = [7 \<mapsto> 42], stdin = [], stdout = []\<rparr>
   = Inr \<lparr>pc = 2, registers = [''V'' \<mapsto> 42, ''A'' \<mapsto> 7, ''D'' \<mapsto> 42], memory = [7 \<mapsto> 42], stdin = [], stdout = []\<rparr> \<and>
   runs_without_store 3 [REGISTER ''A'' 3, LOAD ''D'' ''A''] (initial [])
     \<lparr>pc = 1, registers = [''A'' \<mapsto> 3], memory = Map.empty, stdin = [], stdout = []\<rparr> \<and>
   step [REGISTER ''A'' 3, LOAD ''D'' ''A'']
     \<lparr>pc = 1, registers = [''A'' \<mapsto> 3], memory = Map.empty, stdin = [], stdout = []\<rparr>
   = Inr \<lparr>pc = 2, registers = [''A'' \<mapsto> 3, ''D'' \<mapsto> 0], memory = Map.empty, stdin = [], stdout = []\<rparr>"
proof -
  let ?d1 = "[STORE ''V'' ''A'', LOAD ''D'' ''A'']"
  let ?s0 = "\<lparr>pc = 0, registers = [''V'' \<mapsto> 42, ''A'' \<mapsto> (7::int)], memory = Map.empty, stdin = [], stdout = []\<rparr>"
  let ?s1 = "\<lparr>pc = 1, registers = [''V'' \<mapsto> 42, ''A'' \<mapsto> (7::int)], memory = [7 \<mapsto> (42::int)], stdin = [], stdout = []\<rparr>"
  let ?d2 = "[REGISTER ''A'' 3, LOAD ''D'' ''A'']"
  let ?u2 = "\<lparr>pc = 1, registers = [''A'' \<mapsto> (3::int)], memory = Map.empty, stdin = [], stdout = []\<rparr>"
  have r1: "runs_without_store 7 ?d1 ?s1 ?s1"
    by (rule runs_without_store.here)
  have r2: "runs_without_store 3 ?d2 (initial []) ?u2"
    by (rule runs_without_store.later [OF _ _ _ runs_without_store.here])
       (simp_all add: initial_def step_def stores_to_def)
  from r1 load_after_store [of ?s0 ?d1 "''V''" "''A''" 7 42 ?s1 "''D''"]
  have p1: "step ?d1 ?s0 = Inr ?s1 \<and>
      step ?d1 ?s1 = Inr (?s1\<lparr>pc := 2, registers := (registers ?s1)(''D'' \<mapsto> 42)\<rparr>)"
    by (simp add: memory_size_def)
  from r2 load_after_store [of _ ?d2 _ "''A''" 3 _ ?u2 "''D''" "[]"]
  have p2: "step ?d2 ?u2 = Inr (?u2\<lparr>pc := 2, registers := (registers ?u2)(''D'' \<mapsto> 0)\<rparr>)"
    by (simp add: memory_size_def)
  from r1 r2 p1 p2 show ?thesis
    by simp
qed

text \<open>
  C10. \<^verbatim>\<open>GETC\<close> with the input exhausted raises \<^verbatim>\<open>TypeError\<close> (from \<^verbatim>\<open>ord('')\<close>), which ends
  the run; the state at that moment differs from the state before the instruction in the
  program counter only, so no register has been given a value.
\<close>

theorem getc_at_end_of_input:
  assumes "pc s < length data" and "data ! pc s = GETC a" and "stdin s = []"
  shows "step data s = Inl (TypeError, s\<lparr>pc := pc s + 1\<rparr>) \<and>
         run_loop (Suc n) data s = Some (Inl (TypeError, s\<lparr>pc := pc s + 1\<rparr>)) \<and>
         registers (s\<lparr>pc := pc s + 1\<rparr>) = registers s"
proof -
  have "step data s = Inl (TypeError, s\<lparr>pc := pc s + 1\<rparr>)"
    using assms by (simp add: step_def)
  then show ?thesis
    using assms(1) by (simp add: run_loop_raise)
qed

theorem getc_at_end_of_input_witness:
  "(0::nat) < length [GETC ''P''] \<and> [GETC ''P''] ! 0 = GETC ''P'' \<and>
   run_loop (Suc 0) [GETC ''P'']
     \<lparr>pc = 0, registers = [''P'' \<mapsto> 4], memory = Map.empty, stdin = [], stdout = []\<rparr>
   = Some (Inl (TypeError,
       \<lparr>pc = 1, registers = [''P'' \<mapsto> 4], memory = Map.empty, stdin = [], stdout = []\<rparr>))"
  using getc_at_end_of_input
    [of "\<lparr>pc = 0, registers = [''P'' \<mapsto> 4], memory = Map.empty, stdin = [], stdout = []\<rparr>"
      "[GETC ''P'']" "''P''" 0]
  by simp

section \<open>Properties of the tokenizer and the parser\<close>

lemma upper_not_digit: "is_upper c \<Longrightarrow> \<not> is_digit c"
  by (auto simp: is_upper_def is_digit_def)

lemma upper_not_blank: "is_upper c \<Longrightarrow> \<not> is_blank c"
  by (auto simp: is_upper_def is_blank_def)

lemma takeWhile_all:
  "list_all P xs \<Longrightarrow> rest = [] \<or> \<not> P (hd rest) \<Longrightarrow> takeWhile P (xs @ rest) = xs"
  by (induction xs) (auto simp: neq_Nil_conv takeWhile_eq_Nil_iff)

lemma dropWhile_all:
  "list_all P xs \<Longrightarrow> rest = [] \<or> \<not> P (hd rest) \<Longrightarrow> dropWhile P (xs @ rest) = rest"
  by (induction xs) (auto simp: neq_Nil_conv dropWhile_eq_self_iff)

lemma token_register:
  assumes "is_register_name v" and "rest = [] \<or> \<not> is_alnum (hd rest)"
  shows "token (v @ rest) n ds =
           (ds, Inr (Some \<lparr>stype = T_REGISTER, svalue = PStr v, slineno = n\<rparr>, rest, n))"
proof -
  from assms(1) obtain c cs where v: "v = c # cs" and c: "is_upper c" and cs: "list_all is_alnum cs"
    and k: "map_of keyword_map (c # cs) = None"
    by (auto simp: is_register_name_def split: list.splits)
  show ?thesis
    using c cs k assms(2) upper_not_digit [OF c]
    by (simp add: v takeWhile_all dropWhile_all)
qed

lemma token_number:
  assumes "ds \<noteq> []" and "list_all is_digit ds" and "rest = [] \<or> \<not> is_digit (hd rest)"
  shows "token (ds @ rest) n acc =
           (case int_of_str ds of
              Inl e \<Rightarrow> (acc, Inl e)
            | Inr i \<Rightarrow>
                (acc, Inr (Some \<lparr>stype = T_NUMBER, svalue = PInt i, slineno = n\<rparr>, rest, n)))"
proof -
  from assms(1,2) obtain c cs where v: "ds = c # cs" and c: "is_digit c" and cs: "list_all is_digit cs"
    by (cases ds) auto
  show ?thesis
    using c cs assms(3) by (simp add: v takeWhile_all dropWhile_all split: sum.splits)
qed

lemma blank_before_register:
  assumes "is_register_name v"
  shows "takeWhile is_blank (v @ rest) = [] \<and> dropWhile is_blank (v @ rest) = v @ rest"
  using assms upper_not_blank
  by (cases v) (auto simp: is_register_name_def)

lemma blank_before_number:
  assumes "ds \<noteq> []" and "list_all is_digit ds"
  shows "takeWhile is_blank (ds @ rest) = [] \<and> dropWhile is_blank (ds @ rest) = ds @ rest"
  using assms
  by (cases ds) (auto simp: is_digit_def is_blank_def)

lemma parse_loop_unroll:
  "0 < n \<Longrightarrow> parse_loop n c =
     (case parse_step c of
        Continue c' \<Rightarrow> parse_loop (n - 1) c'
      | Return v c' \<Rightarrow> Some (Inr (v, c'))
      | Raise e c' \<Rightarrow> Some (Inl (e, c'))
      | Broken \<Rightarrow> None)"
  by (cases n) (simp_all split: outcome.splits)

lemmas engine_defs =
  parse_def start_def parse_loop_unroll parse_step_def defaulted_states_def
  current_state_def action_def goto_def productions_def get_lookahead_def perform_def
  shift_def reduce_def recover_def newline_def
  is_digit_def is_upper_def is_alnum_def is_blank_def keyword_map_def
  p_program_def add_program_def p_line_def p_uh_def p_empty_or_space_def
  p_register_declaration_def p_number_def pv_def plineno_def len_def Let_def

lemma decl_no:
  assumes "is_register_name v"
  shows "parse 40 (''I have no '' @ v @ [newline]) =
    Some (Inr (PList [REGISTER v 0],
          if CHR ''p'' \<notin> set v \<and> CHR ''P'' \<notin> set v then [MissingP 1 v] else []))"
  using assms
  by (simp add: engine_defs token_register blank_before_register)

lemma decl_a:
  assumes "is_register_name v"
  shows "parse 40 (''I have a '' @ v @ [newline]) =
    Some (Inr (PList [REGISTER v 1],
          if CHR ''p'' \<notin> set v \<and> CHR ''P'' \<notin> set v then [MissingP 1 v] else []))"
  using assms
  by (simp add: engine_defs token_register blank_before_register)

lemma decl_an:
  assumes "is_register_name v"
  shows "parse 40 (''I have an '' @ v @ [newline]) =
    Some (Inr (PList [REGISTER v 1],
          if CHR ''p'' \<notin> set v \<and> CHR ''P'' \<notin> set v then [MissingP 1 v] else []))"
  using assms
  by (simp add: engine_defs token_register blank_before_register)

lemma decl_absent:
  assumes "is_register_name v"
  shows "parse 40 (''I have '' @ v @ [newline]) =
    Some (Inr (PList [REGISTER v 0],
          if CHR ''p'' \<notin> set v \<and> CHR ''P'' \<notin> set v then [MissingP 1 v] else []))"
  using assms
  by (simp add: engine_defs token_register blank_before_register)

lemma decl_digits:
  assumes "is_register_name v" and "ds \<noteq> []" and "list_all is_digit ds"
    and "length ds \<le> max_str_digits"
  shows "parse 40 (''I have '' @ ds @ '' '' @ v @ [newline]) =
    Some (Inr (PList [REGISTER v (int_of_digits ds)],
          if CHR ''p'' \<notin> set v \<and> CHR ''P'' \<notin> set v then [MissingP 1 v] else []))"
  using assms
  by (simp add: engine_defs token_register blank_before_register token_number blank_before_number
      int_of_str_def)

text \<open>
  C8. A program that consists of one declaration line parses to one \<^verbatim>\<open>REGISTER\<close>
  instruction whose initial value is 0 for \<^verbatim>\<open>no\<close>, 1 for \<^verbatim>\<open>a\<close> and for \<^verbatim>\<open>an\<close>, the value
  of the digits for a digit literal, and 0 when there is no number (the only diagnostic
  being the naming warning for a name without \<^verbatim>\<open>p\<close>); and every execution of a
  \<^verbatim>\<open>REGISTER\<close> instruction sets the register to the initial value it carries.
\<close>

theorem declaration_initial_value:
  assumes "is_register_name v" and "ds \<noteq> []" and "list_all is_digit ds"
    and "length ds \<le> max_str_digits"
  shows "parse 40 (''I have no '' @ v @ [newline]) =
           Some (Inr (PList [REGISTER v 0],
                 if CHR ''p'' \<notin> set v \<and> CHR ''P'' \<notin> set v then [MissingP 1 v] else [])) \<and>
         parse 40 (''I have a '' @ v @ [newline]) =
           Some (Inr (PList [REGISTER v 1],
                 if CHR ''p'' \<notin> set v \<and> CHR ''P'' \<notin> set v then [MissingP 1 v] else [])) \<and>
         parse 40 (''I have an '' @ v @ [newline]) =
           Some (Inr (PList [REGISTER v 1],
                 if CHR ''p'' \<notin> set v \<and> CHR ''P'' \<notin> set v then [MissingP 1 v] else [])) \<and>
         parse 40 (''I have '' @ ds @ '' '' @ v @ [newline]) =
           Some (Inr (PList [REGISTER v (int_of_digits ds)],
                 if CHR ''p'' \<notin> set v \<and> CHR ''P'' \<notin> set v then [MissingP 1 v] else [])) \<and>
         parse 40 (''I have '' @ v @ [newline]) =
           Some (Inr (PList [REGISTER v 0],
                 if CHR ''p'' \<notin> set v \<and> CHR ''P'' \<notin> set v then [MissingP 1 v] else [])) \<and>
         (pc s < length data \<and> data ! pc s = REGISTER v k \<longrightarrow>
            step data s = Inr (s\<lparr>pc := pc s + 1, registers := (registers s)(v \<mapsto> k)\<rparr>))"
  using decl_no [OF assms(1)] decl_a [OF assms(1)] decl_an [OF assms(1)]
    decl_digits [OF assms] decl_absent [OF assms(1)]
  by (simp add: step_def)

theorem declaration_initial_value_witness:
  "is_register_name ''Pen'' \<and> ''42'' \<noteq> [] \<and> list_all is_digit ''42'' \<and>
   length ''42'' \<le> max_str_digits \<and>
   parse 40 (''I have no Pen'' @ [newline]) = Some (Inr (PList [REGISTER ''Pen'' 0], [])) \<and>
   parse 40 (''I have a Pen'' @ [newline]) = Some (Inr (PList [REGISTER ''Pen'' 1], [])) \<and>
   parse 40 (''I have an Pen'' @ [newline]) = Some (Inr (PList [REGISTER ''Pen'' 1], [])) \<and>
   parse 40 (''I have 42 Pen'' @ [newline]) = Some (Inr (PList [REGISTER ''Pen'' 42], [])) \<and>
   parse 40 (''I have Pen'' @ [newline]) = Some (Inr (PList [REGISTER ''Pen'' 0], [])) \<and>
   step [REGISTER ''Pen'' 42]
     \<lparr>pc = 0, registers = [''Pen'' \<mapsto> 7], memory = Map.empty, stdin = [], stdout = []\<rparr>
   = Inr \<lparr>pc = 1, registers = [''Pen'' \<mapsto> 42], memory = Map.empty, stdin = [], stdout = []\<rparr>"
proof -
  have h1: "is_register_name ''Pen''"
    by (simp add: is_register_name_def is_upper_def is_alnum_def keyword_map_def)
  have h2: "''42'' \<noteq> []"
    by simp
  have h3: "list_all is_digit ''42''"
    by (simp add: is_digit_def)
  have h4: "length ''42'' \<le> max_str_digits"
    by (simp add: max_str_digits_def)
  have v: "int_of_digits ''42'' = 42"
    by (simp add: int_of_digits_def digit_value_def)
  show ?thesis
    using h1 h2 h3 h4 v
      declaration_initial_value [OF h1 h2 h3 h4,
        of "\<lparr>pc = 0, registers = [''Pen'' \<mapsto> 7], memory = Map.empty, stdin = [], stdout = []\<rparr>"
           "[REGISTER ''Pen'' 42]" 42]
    by simp
qed

text \<open>
  C1. The program \<^verbatim>\<open>I have a P\<close>, \<^verbatim>\<open>Uh! Compare-P-P\<close>, \<^verbatim>\<open>Uh! Print-P\<close> parses without a
  diagnostic; interpreting it prints \<^verbatim>\<open>1\<close>; the C text printed for it has no semicolon
  after the statement of the comparison, so the next statement follows an unterminated
  one.
\<close>

theorem comparison_lowered_without_semicolon:
  "parse 100 (''I have a P'' @ [newline] @ ''Uh! Compare-P-P'' @ [newline] @
              ''Uh! Print-P'' @ [newline])
     = Some (Inr (PList [REGISTER ''P'' 1, EQ ''P'' ''P'', PRINT ''P''], [])) \<and>
   run 10 [REGISTER ''P'' 1, EQ ''P'' ''P'', PRINT ''P''] []
     = Some (Inr \<lparr>pc = 3, registers = [''P'' \<mapsto> 1], memory = Map.empty, stdin = [],
                  stdout = codepoints ''1''\<rparr>) \<and>
   to_c [REGISTER ''P'' 1, EQ ''P'' ''P'', PRINT ''P''] =
     [''#include <stdio.h>'' @ [newline] @ ''#include <stdlib.h>'' @ [newline] @ [newline] @
      ''int main(void) {'',
      ''    int P;'',
      [],
      ''    P = 1;'',
      ''    P = (P == P ? 1 : 0)'',
      ''    printf('' @ [CHR 0x22] @ ''%d'' @ [CHR 0x22] @ '', P);'',
      ''    return 0;'' @ [newline] @ ''}'']"
proof -
  have a: "parse 100 (''I have a P'' @ [newline] @ ''Uh! Compare-P-P'' @ [newline] @
              ''Uh! Print-P'' @ [newline])
     = Some (Inr (PList [REGISTER ''P'' 1, EQ ''P'' ''P'', PRINT ''P''], []))"
    by code_simp
  have b: "run 10 [REGISTER ''P'' 1, EQ ''P'' ''P'', PRINT ''P''] []
     = Some (Inr \<lparr>pc = 3, registers = [''P'' \<mapsto> 1], memory = Map.empty, stdin = [],
                  stdout = codepoints ''1''\<rparr>)"
    by (simp add: run_def initial_def run_loop.simps step_def label_map_def binary_op_def
        format_int_def max_str_digits_def str_int_def digits10.simps)
  have c: "to_c [REGISTER ''P'' 1, EQ ''P'' ''P'', PRINT ''P''] =
     [''#include <stdio.h>'' @ [newline] @ ''#include <stdlib.h>'' @ [newline] @ [newline] @
      ''int main(void) {'',
      ''    int P;'',
      [],
      ''    P = 1;'',
      ''    P = (P == P ? 1 : 0)'',
      ''    printf('' @ [CHR 0x22] @ ''%d'' @ [CHR 0x22] @ '', P);'',
      ''    return 0;'' @ [newline] @ ''}'']"
    by code_simp
  from a b c show ?thesis
    by blast
qed

text \<open>
  C2. In \<^verbatim>\<open>I have a P\<close>, \<^verbatim>\<open>Uh! Append-P-Q\<close>, \<^verbatim>\<open>Uh! Print-P\<close> the second line refers to the
  undeclared register \<^verbatim>\<open>Q\<close>. The warning for line 2 is written, and the instruction of
  that line is in the list that \<^verbatim>\<open>parse\<close> returns; the interpreter then fails on it.
\<close>

theorem undeclared_register_line_is_kept:
  "parse 100 (''I have a P'' @ [newline] @ ''Uh! Append-P-Q'' @ [newline] @
              ''Uh! Print-P'' @ [newline])
     = Some (Inr (PList [REGISTER ''P'' 1, ADD ''P'' ''Q'', PRINT ''P''], [UndeclaredRegister 2 ''Q''])) \<and>
   render (UndeclaredRegister 2 ''Q'') =
     ''line 2: '' @ [CHR 0x27] @ ''Q'' @ [CHR 0x27] @ '' is an undeclared register'' \<and>
   run 10 [REGISTER ''P'' 1, ADD ''P'' ''Q'', PRINT ''P''] []
     = Some (Inl (KeyError ''Q'',
          \<lparr>pc = 2, registers = [''P'' \<mapsto> 1], memory = Map.empty, stdin = [], stdout = []\<rparr>))"
proof -
  have a: "parse 100 (''I have a P'' @ [newline] @ ''Uh! Append-P-Q'' @ [newline] @
              ''Uh! Print-P'' @ [newline])
     = Some (Inr (PList [REGISTER ''P'' 1, ADD ''P'' ''Q'', PRINT ''P''], [UndeclaredRegister 2 ''Q'']))"
    by code_simp
  have b: "render (UndeclaredRegister 2 ''Q'') =
     ''line 2: '' @ [CHR 0x27] @ ''Q'' @ [CHR 0x27] @ '' is an undeclared register''"
    by code_simp
  have c: "run 10 [REGISTER ''P'' 1, ADD ''P'' ''Q'', PRINT ''P''] []
     = Some (Inl (KeyError ''Q'',
          \<lparr>pc = 2, registers = [''P'' \<mapsto> 1], memory = Map.empty, stdin = [], stdout = []\<rparr>))"
    by (simp add: run_def initial_def run_loop.simps step_def label_map_def binary_op_def)
  from a b c show ?thesis
    by blast
qed

text \<open>
  C5. In \<^verbatim>\<open>I have a P\<close>, \<^verbatim>\<open>P-P\<close>, \<^verbatim>\<open>P-P\<close> the label \<^verbatim>\<open>P-P\<close> is declared twice. The parse
  succeeds with both labels in the list, and nothing is written to the error stream.
\<close>

theorem repeated_label_is_not_reported:
  "parse 100 (''I have a P'' @ [newline] @ ''P-P'' @ [newline] @ ''P-P'' @ [newline])
     = Some (Inr (PList [REGISTER ''P'' 1, LABEL ''P-P'', LABEL ''P-P''], []))"
  by code_simp

section \<open>The parser on every text\<close>

subsection \<open>Every state of the tables\<close>

lemmas table_defs = state_ok_def entry_ok_def goto_ok_def reduce_ok_def is_shift_def
  defaulted_states_def action_def goto_def productions_def accessing_def preds_def

lemma states_a: "list_all state_ok [0..<31]"
  by (simp add: table_defs upt_rec)

lemma states_b: "list_all state_ok [31..<62]"
  by (simp add: table_defs upt_rec)

lemma states_c: "list_all state_ok [62..<93]"
  by (simp add: table_defs upt_rec)

lemma states_d: "list_all state_ok [93..<124]"
  by (simp add: table_defs upt_rec)

lemma state_ok_all:
  assumes "s < 124"
  shows "state_ok s"
proof -
  have "s \<in> set [0..<31] \<or> s \<in> set [31..<62] \<or> s \<in> set [62..<93] \<or> s \<in> set [93..<124]"
    using assms by (simp only: set_upt atLeastLessThan_iff) arith
  then show ?thesis
    using states_a states_b states_c states_d
    unfolding list_all_iff by blast
qed

lemma table_lengths:
  "length action = 124" "length goto = 124" "length accessing = 124" "length preds = 124"
  by (simp_all add: action_def goto_def accessing_def preds_def)

lemma sync_tokens:
  "map_of (action ! 3) a = Some t \<Longrightarrow> map_of (action ! 1) a \<noteq> None \<and> t = - 3"
  by (simp add: action_def split: if_splits)

lemma bottom_state:
  "map_of (goto ! 0) N_program = Some 1" "preds ! 0 = []" "accessing ! 0 = T_end"
  "preds ! 3 = [0]" "map_of (action ! 0) T_error = Some 3" "defaulted_states 3 = None"
  "defaulted_states 0 = None" "productions ! 3 = (N_program, [T_error], P_program_error)"
  by (simp_all add: action_def goto_def accessing_def preds_def defaulted_states_def productions_def)

subsection \<open>Facts read off the tables\<close>

lemma action_entry:
  "s < 124 \<Longrightarrow> map_of (action ! s) a = Some t \<Longrightarrow> entry_ok s (a, t)"
  using state_ok_all [of s]
  by (auto simp: state_ok_def list_all_iff dest!: map_of_SomeD)

lemma goto_entry:
  "s < 124 \<Longrightarrow> map_of (goto ! s) A = Some t \<Longrightarrow> goto_ok s (A, t)"
  using state_ok_all [of s]
  by (auto simp: state_ok_def list_all_iff dest!: map_of_SomeD)

lemma error_state: "s < 124 \<Longrightarrow> (accessing ! s = T_error) = (s = 3)"
  using state_ok_all [of s] by (simp add: state_ok_def)

lemma defaulted_entry:
  "s < 124 \<Longrightarrow> defaulted_states s = Some t \<Longrightarrow>
     t < 0 \<and> (\<exists>a. map_of (action ! s) a = Some t) \<and>
     (case productions ! nat (- t) of (lhs, rhs, f) \<Rightarrow> rhs \<noteq> [])"
  using state_ok_all [of s]
  by (auto simp: state_ok_def defaulted_states_def split: list.splits if_splits)

subsection \<open>The tokenizer\<close>

lemma token_props:
  "token inp n ds = (ds', Inr (tok, rest, n')) \<Longrightarrow>
     (tok = None \<longrightarrow> rest = []) \<and>
     (\<forall>t. tok = Some t \<longrightarrow> length rest < length inp \<and> real_token t)"
proof (induction inp n ds rule: token.induct)
  case (1 lineno ds)
  then show ?case by simp
next
  case (2 c cs lineno ds)
  have k: "\<And>v. (case map_of keyword_map v of None \<Rightarrow> T_REGISTER | Some k \<Rightarrow> k) \<noteq> T_end \<and>
                (case map_of keyword_map v of None \<Rightarrow> T_REGISTER | Some k \<Rightarrow> k) \<noteq> T_error"
    by (auto simp: keyword_map_def split: option.splits if_splits)
  have d: "\<And>P. length (dropWhile P cs) < Suc (length cs)"
    by (simp add: le_imp_less_Suc length_dropWhile_le)
  have e: "\<And>P m. m < length (dropWhile P cs) \<Longrightarrow> m < Suc (length cs)"
    using d less_trans by blast
  from "2.prems" "2.IH" show ?case
    by (auto simp: real_token_def Let_def k d e split: if_splits sum.splits)
qed

subsection \<open>Grammar actions leave the stacks alone\<close>

lemma add_program_frame: "add_program p0 x g = (v, g') \<Longrightarrow> same_frame g g'"
  by (auto simp: add_program_def same_frame_def split: pyval.splits instr.splits if_splits)

lemma call_frame: "call f p g = (v, g') \<Longrightarrow> same_frame g g'"
  by (cases f)
     (auto simp: same_frame_def p_program_def p_program_error_def p_register_declaration_def
        p_register_def Let_def
        dest!: add_program_frame split: if_splits pyval.splits prod.splits)

subsection \<open>The state stack is a path of the automaton\<close>

lemma chain_nth: "chain st \<Longrightarrow> Suc k < length st \<Longrightarrow> st ! Suc k \<in> set (preds ! (st ! k))"
proof (induction st arbitrary: k rule: chain.induct)
  case (1 a b rest)
  then show ?case by (cases k) auto
qed auto

lemma chain_tl: "chain st \<Longrightarrow> chain (tl st)"
  by (cases st rule: chain.cases) auto

lemma chain_drop: "chain st \<Longrightarrow> chain (drop n st)"
proof (induction n arbitrary: st)
  case 0
  then show ?case by simp
next
  case (Suc n)
  from Suc.IH [OF chain_tl [OF Suc.prems]] show ?case
    by (simp add: drop_Suc)
qed

lemma member_pos: "x \<in> set xs \<Longrightarrow> 0 \<notin> set xs \<Longrightarrow> 0 < (x::nat)"
  by (metis gr0I)

lemma chain_backward:
  assumes "chain st" and "st \<noteq> []" and "last st = 0"
  shows "k < length st \<Longrightarrow> st ! k \<in> set S \<Longrightarrow> (\<forall>j<n. 0 \<notin> set (backward j S)) \<Longrightarrow>
           k + n < length st \<and> st ! (k + n) \<in> set (backward n S)"
proof (induction n arbitrary: k S)
  case 0
  then show ?case by simp
next
  case (Suc n)
  from Suc.prems(3) have "0 \<notin> set (backward 0 S)"
    by blast
  with Suc.prems(2) have nz: "st ! k \<noteq> 0"
    using member_pos by fastforce
  have "k \<noteq> length st - 1"
    using nz assms(2,3) by (auto simp: last_conv_nth)
  with Suc.prems(1) have k1: "Suc k < length st"
    by arith
  let ?S = "remdups (concat (map (\<lambda>s. preds ! s) S))"
  have "st ! Suc k \<in> set (preds ! (st ! k))"
    using chain_nth [OF assms(1) k1] .
  with Suc.prems(2) have m: "st ! Suc k \<in> set ?S"
    by auto
  have "\<forall>j<n. 0 \<notin> set (backward j ?S)"
    using Suc.prems(3) by (metis Suc_less_eq backward.simps(2))
  from Suc.IH [OF k1 m this] show ?case
    by simp
qed

lemma butlast_drop_subset: "set (butlast (drop n xs)) \<subseteq> set (butlast xs)"
  by (metis butlast_drop set_drop_subset)

subsection \<open>A reduction\<close>

lemma reduce_step:
  assumes ok: "stacks_ok c" and s: "s = current_state c" and r: "reduce_ok s a n"
    and p: "productions ! n = (lhs, rhs, f)"
  shows "\<exists>c' s'. reduce n c = Continue c' \<and> stacks_ok c' \<and>
           statestack c' = s' # drop (length rhs) (statestack c) \<and>
           lookahead c' = lookahead c \<and> lookaheadstack c' = lookaheadstack c \<and>
           lexdata c' = lexdata c \<and> errorcount c' = errorcount c \<and>
           set (stderr c) \<subseteq> set (stderr c') \<and> (error c \<noteq> 0 \<longrightarrow> error c' \<noteq> 0) \<and>
           length rhs < length (statestack c) \<and>
           map_of (goto ! (statestack c ! length rhs)) lhs = Some s' \<and>
           accessing ! s' = lhs \<and> rank lhs < 3 \<and> s' < 124 \<and> 0 < s' \<and>
           (rhs = [] \<longrightarrow> is_shift (map_of (action ! s') a) \<and> lhs = N_empty_or_space) \<and>
           (length rhs = 1 \<longrightarrow> rank lhs < rank (accessing ! s))"
proof -
  let ?st = "statestack c"
  let ?plen = "length rhs"
  from ok have st: "?st \<noteq> []" "last ?st = 0" "0 \<notin> set (butlast ?st)"
    "list_all (\<lambda>s. s < 124) ?st" "list_all (\<lambda>s. defaulted_states s = None) (tl ?st)"
    "chain ?st" "list_all2 (\<lambda>s x. stype x = accessing ! s) ?st (symstack c)"
    by (simp_all add: stacks_ok_def)
  from st(1) s have s0: "?st ! 0 = s"
    by (cases ?st) (simp_all add: current_state_def)
  from r p have b1: "\<forall>j<?plen. 0 \<notin> set (backward j [s])"
    and b2: "list_all
             (\<lambda>t. case map_of (goto ! t) lhs of
                     None \<Rightarrow> False
                   | Some s' \<Rightarrow>
                       (if rhs = []
                        then is_shift (map_of (action ! s') a) \<and>
                             accessing ! s' = N_empty_or_space \<and> defaulted_states s = None
                        else True))
             (backward ?plen [s])"
    and b3: "length rhs = 1 \<longrightarrow> rank lhs < rank (accessing ! s)"
    by (auto simp: reduce_ok_def list_all_iff)
  have "0 + ?plen < length ?st \<and> ?st ! (0 + ?plen) \<in> set (backward ?plen [s])"
    using chain_backward [OF st(6) st(1) st(2), of 0 "[s]" ?plen] st(1) s0 b1 by simp
  then have len: "?plen < length ?st" and e: "?st ! ?plen \<in> set (backward ?plen [s])"
    by simp_all
  let ?e = "?st ! ?plen"
  from b2 e obtain s' where g: "map_of (goto ! ?e) lhs = Some s'"
    and eps: "rhs = [] \<longrightarrow> is_shift (map_of (action ! s') a) \<and>
                accessing ! s' = N_empty_or_space \<and> defaulted_states s = None"
    by (auto simp: list_all_iff split: option.splits if_splits)
  from st(4) len have e124: "?e < 124"
    by (simp add: list_all_length)
  from goto_entry [OF e124 g] have gs: "0 < s'" "s' < 124" "accessing ! s' = lhs"
    "?e \<in> set (preds ! s')" "rank lhs < 3"
    by (simp_all add: goto_ok_def)
  let ?c1 = "c\<lparr>symstack := drop ?plen (symstack c)\<rparr>"
  obtain v c2 where call: "call f (rev (take ?plen (symstack c))) ?c1 = (v, c2)"
    by (cases "call f (rev (take ?plen (symstack c))) ?c1") auto
  from call_frame [OF call] have fr: "lexdata c2 = lexdata c" "lookahead c2 = lookahead c"
    "lookaheadstack c2 = lookaheadstack c" "statestack c2 = ?st"
    "symstack c2 = drop ?plen (symstack c)" "errorcount c2 = errorcount c"
    "set (stderr c) \<subseteq> set (stderr c2)" "error c \<noteq> 0 \<longrightarrow> error c2 \<noteq> 0"
    by (simp_all add: same_frame_def)
  have dr: "drop ?plen ?st = ?e # drop (Suc ?plen) ?st"
    using len by (simp add: Cons_nth_drop_Suc)
  let ?c' = "c2\<lparr>statestack := s' # drop ?plen ?st,
                symstack := \<lparr>stype = lhs, svalue = v, slineno = 0\<rparr> # symstack c2\<rparr>"
  have red: "reduce n c = Continue ?c'"
    using p call g fr(4) dr by (simp add: reduce_def Let_def)
  have l1: "last (s' # drop ?plen ?st) = 0"
    using len st(2) by (simp add: dr [symmetric] last_drop)
  have l2: "0 \<notin> set (butlast (s' # drop ?plen ?st))"
    using gs(1) st(3) butlast_drop_subset [of ?plen ?st] dr member_pos by fastforce
  have l3: "list_all (\<lambda>s. s < 124) (s' # drop ?plen ?st)"
    using gs(2) st(4) set_drop_subset [of ?plen ?st] by (auto simp: list_all_iff)
  have l4: "list_all (\<lambda>s. defaulted_states s = None) (drop ?plen ?st)"
  proof (cases "rhs = []")
    case True
    with eps have "defaulted_states s = None"
      by simp
    with st(1,5) s0 True show ?thesis
      by (cases ?st) simp_all
  next
    case False
    then obtain m where m: "?plen = Suc m"
      by (cases rhs) auto
    have "drop ?plen ?st = drop m (tl ?st)"
      by (simp add: m drop_Suc)
    with st(5) set_drop_subset [of m "tl ?st"] show ?thesis
      by (auto simp: list_all_iff)
  qed
  have l5: "chain (s' # drop ?plen ?st)"
    using gs(4) chain_drop [OF st(6), of ?plen] dr by simp
  have l6: "list_all2 (\<lambda>s x. stype x = accessing ! s) (s' # drop ?plen ?st)
              (\<lparr>stype = lhs, svalue = v, slineno = 0\<rparr> # drop ?plen (symstack c))"
    using gs(3) st(7) by (simp add: list_all2_dropI)
  have ok': "stacks_ok ?c'"
    using l1 l2 l3 l4 l5 l6 fr(5) by (simp add: stacks_ok_def)
  show ?thesis
    using red ok' fr len g gs eps b3 by (intro exI [of _ ?c'] exI [of _ s']) simp
qed

subsection \<open>The order in which the loop makes progress\<close>

lemma state_one: "accessing ! 1 = N_program" "defaulted_states 1 = None"
  by (simp_all add: accessing_def defaulted_states_def action_def)

lemma wf_smaller: "wf smaller"
  unfolding smaller_def
  by (intro wf_inv_image wf_lex_prod wf_less_than)

lemma trans_smaller: "trans smaller"
  unfolding smaller_def
  by (intro trans_inv_image trans_lex_prod trans_less_than)

lemma smallerI:
  "input_left c' < input_left c \<or> (input_left c' = input_left c \<and> (phase c' < phase c \<or> (phase c' = phase c \<and>
     (depth c' < depth c \<or> (depth c' = depth c \<and> top_rank c' < top_rank c))))) \<Longrightarrow> (c', c) \<in> smaller"
  by (auto simp: smaller_def)

lemma grows_refl: "grows c c"
  by (simp add: grows_def)

lemma grows_trans: "grows a b \<Longrightarrow> grows b c \<Longrightarrow> grows a c"
  by (auto simp: grows_def)

subsection \<open>Fetching the lookahead\<close>

lemma fetch:
  assumes i: "consistent c" and g: "get_lookahead c = Inr (la, c1)"
  shows "lookahead c1 = Some la \<and> statestack c1 = statestack c \<and> symstack c1 = symstack c \<and>
         errorcount c1 = errorcount c \<and> consistent c1 \<and> grows c c1 \<and> (c1 = c \<or> (c1, c) \<in> smaller) \<and>
         (lookahead c = Some la \<longrightarrow> c1 = c) \<and> (lookahead c = None \<longrightarrow> stype la \<noteq> T_error)"
proof (cases "lookahead c")
  case (Some x)
  with g i show ?thesis
    by (auto simp: get_lookahead_def grows_def)
next
  case None
  note n = None
  show ?thesis
  proof (cases "lookaheadstack c")
    case (Cons x rest)
    with i n have r: "rest = []" and x: "real_token x" and s3: "current_state c = 3"
      by (auto simp: consistent_def pending_ok_def)
    from g n Cons r have c1: "c1 = c\<lparr>lookahead := Some x, lookaheadstack := []\<rparr>" and la: "la = x"
      by (auto simp: get_lookahead_def)
    have cs: "current_state c1 = 3"
      using s3 by (simp add: c1 current_state_def)
    have "consistent c1"
      using i x by (simp add: c1 consistent_def stacks_ok_def pending_ok_def real_token_def)
    moreover have "(c1, c) \<in> smaller"
      using x n Cons r cs
      by (intro smallerI) (simp add: input_left_def phase_def c1 real_token_def)
    ultimately show ?thesis
      using la n x by (simp add: c1 grows_def real_token_def)
  next
    case Nil
    from g n Nil obtain ds tok rest k where
      t: "token (lexdata c) (lineno c) [] = (ds, Inr (tok, rest, k))"
      by (auto simp: get_lookahead_def split: prod.splits sum.splits)
    let ?la = "case tok of Some t \<Rightarrow> t | None \<Rightarrow> \<lparr>stype = T_end, svalue = PNone, slineno = 0\<rparr>"
    from g n Nil t have c1: "c1 = c\<lparr>lexdata := rest, lineno := k, stderr := stderr c @ ds,
         lookahead := Some ?la\<rparr>" and la: "la = ?la"
      by (auto simp: get_lookahead_def Let_def)
    from token_props [OF t] have tp: "tok = None \<longrightarrow> rest = []"
      "\<forall>t. tok = Some t \<longrightarrow> length rest < length (lexdata c) \<and> real_token t"
      by simp_all
    have ne: "stype ?la \<noteq> T_error"
      using tp by (cases tok) (auto simp: real_token_def)
    have "consistent c1"
      using i Nil ne by (simp add: c1 consistent_def stacks_ok_def pending_ok_def)
    moreover have "(c1, c) \<in> smaller"
      using tp n Nil
      by (intro smallerI, cases tok) (auto simp: input_left_def c1 real_token_def)
    ultimately show ?thesis
      using la n ne by (simp add: c1 grows_def)
  qed
qed

subsection \<open>One turn of the loop\<close>

lemma top_state:
  assumes "stacks_ok c"
  shows "\<exists>rest. statestack c = current_state c # rest \<and> current_state c < 124 \<and>
           (rest = [] \<longrightarrow> current_state c = 0) \<and> (rest \<noteq> [] \<longrightarrow> current_state c \<noteq> 0)"
proof (cases "statestack c")
  case Nil
  with assms show ?thesis by (simp add: stacks_ok_def)
next
  case (Cons s rest)
  with assms show ?thesis
    by (cases rest) (auto simp: stacks_ok_def current_state_def)
qed

lemma shift_step:
  assumes i: "consistent c" and la: "lookahead c = Some la"
    and nd: "defaulted_states (current_state c) = None"
    and a: "map_of (action ! current_state c) (stype la) = Some t" and t: "0 < t"
  shows "\<exists>c'. shift (nat t) la c = Continue c' \<and> consistent c' \<and> (c', c) \<in> smaller \<and> grows c c'"
proof -
  let ?s = "current_state c"
  from i have so: "stacks_ok c" and po: "pending_ok c"
    by (simp_all add: consistent_def)
  from top_state [OF so] obtain rest where st: "statestack c = ?s # rest" and s: "?s < 124"
    by blast
  from action_entry [OF s a] t have e: "nat t < 124" "nat t \<noteq> 0" "accessing ! nat t = stype la"
    "?s \<in> set (preds ! nat t)" "stype la \<noteq> T_end" "stype la = T_error \<longrightarrow> ?s = 0 \<and> t = 3"
    by (simp_all add: entry_ok_def split: if_splits)
  let ?c' = "c\<lparr>statestack := nat t # statestack c, symstack := la # symstack c,
                lookahead := None, errorcount := errorcount c - 1\<rparr>"
  have sh: "shift (nat t) la c = Continue ?c'"
    by (simp add: shift_def)
  have so': "stacks_ok ?c'"
    using so e nd st by (simp add: stacks_ok_def)
  have cs': "current_state ?c' = nat t"
    by (simp add: current_state_def)
  have po': "pending_ok ?c'"
    using po la e(6) cs' by (auto simp: pending_ok_def split: if_splits)
  have sm: "(?c', c) \<in> smaller"
  proof (cases "stype la = T_error")
    case True
    with po la have "lookaheadstack c \<noteq> []"
      by (simp add: pending_ok_def)
    with True la show ?thesis
      by (intro smallerI) (simp add: input_left_def phase_def)
  next
    case False
    with la e(5) show ?thesis
      by (intro smallerI) (simp add: input_left_def)
  qed
  show ?thesis
    using sh so' po' sm by (auto simp: consistent_def grows_def)
qed

lemma reduce_measure:
  assumes so: "stacks_ok c" and r: "reduce_ok (current_state c) a n"
    and p: "productions ! n = (lhs, rhs, f)" and ne: "rhs \<noteq> []"
    and red: "reduce n c = Continue c'" "statestack c' = s' # drop (length rhs) (statestack c)"
      "length rhs < length (statestack c)" "accessing ! s' = lhs"
      "length rhs = 1 \<longrightarrow> rank lhs < rank (accessing ! current_state c)"
  shows "depth c' < depth c \<or> (depth c' = depth c \<and> top_rank c' < top_rank c)"
proof (cases "length rhs = 1")
  case True
  with red have "depth c' = depth c" and "top_rank c' < top_rank c"
    by (simp_all add: depth_def top_rank_def current_state_def)
  then show ?thesis
    by simp
next
  case False
  with ne have "2 \<le> length rhs"
    by (cases rhs) (auto simp: Suc_le_eq)
  with red have "depth c' < depth c"
    by (auto simp: depth_def)
  then show ?thesis
    by simp
qed

lemma reduce_la_step:
  assumes i: "consistent c" and la: "lookahead c = Some la"
    and a: "map_of (action ! current_state c) (stype la) = Some t" and t: "t < 0"
  shows "\<exists>c'. reduce (nat (- t)) c = Continue c' \<and> consistent c' \<and> (c', c) \<in> smaller \<and>
           grows c c'"
proof -
  let ?s = "current_state c"
  let ?n = "nat (- t)"
  from i have so: "stacks_ok c" and po: "pending_ok c"
    by (simp_all add: consistent_def)
  from top_state [OF so] obtain rest where st: "statestack c = ?s # rest" and s: "?s < 124"
    by blast
  from action_entry [OF s a] t have ne: "stype la \<noteq> T_error" and r: "reduce_ok ?s (stype la) ?n"
    by (simp_all add: entry_ok_def split: if_splits)
  obtain lhs rhs f where p: "productions ! ?n = (lhs, rhs, f)"
    by (cases "productions ! ?n") auto
  from reduce_step [OF so refl r p] obtain c' s' where
    red: "reduce ?n c = Continue c'" and so': "stacks_ok c'"
    and st': "statestack c' = s' # drop (length rhs) (statestack c)"
    and fr: "lookahead c' = lookahead c" "lookaheadstack c' = lookaheadstack c"
      "lexdata c' = lexdata c" "errorcount c' = errorcount c"
    and gr: "set (stderr c) \<subseteq> set (stderr c')" "error c \<noteq> 0 \<longrightarrow> error c' \<noteq> 0"
    and len: "length rhs < length (statestack c)"
    and g: "map_of (goto ! (statestack c ! length rhs)) lhs = Some s'"
    and acc: "accessing ! s' = lhs" and rk: "rank lhs < 3" and s': "s' < 124" "0 < s'"
    and eps: "rhs = [] \<longrightarrow> is_shift (map_of (action ! s') (stype la)) \<and> lhs = N_empty_or_space"
    and unit: "length rhs = 1 \<longrightarrow> rank lhs < rank (accessing ! ?s)"
    by blast
  have cs': "current_state c' = s'"
    using st' by (simp add: current_state_def)
  have po': "pending_ok c'"
    using po la ne fr by (simp add: pending_ok_def)
  have s'3: "s' \<noteq> 3"
    using error_state [OF s'(1)] acc rk by auto
  have m1e: "input_left c' = input_left c"
    using fr by (simp add: input_left_def split: option.splits)
  have m2c: "phase c = (if ?s = 3 then 2 else if ?s = 0 \<or> ?s = 1 then 1 else 5)"
    using la ne a t by (simp add: phase_def is_shift_def)
  have m2le: "phase c' \<le> 5"
    using la fr ne by (simp add: phase_def)
  have sm: "(c', c) \<in> smaller"
  proof (cases "rhs = []")
    case True
    with eps acc have sh: "is_shift (map_of (action ! s') (stype la))"
      and ac: "accessing ! s' = N_empty_or_space"
      by simp_all
    from ac state_one(1) s'(2) have "s' \<noteq> 1" "s' \<noteq> 0"
      by auto
    with sh ac la fr ne cs' s'3 have "phase c' = 0"
      by (simp add: phase_def)
    moreover have "?s \<noteq> 3"
      using r p True by (auto simp: reduce_ok_def productions_def)
    ultimately show ?thesis
      using m1e m2c by (intro smallerI) simp
  next
    case False
    note nonempty = False
    show ?thesis
    proof (cases "?s = 3")
      case True
      with r have n3: "?n = 3"
        by (simp add: reduce_ok_def split: prod.splits)
      with p bottom_state(8) have ps: "lhs = N_program" "rhs = [T_error]"
        by simp_all
      from so st have ch: "chain (?s # rest)" and rne: "rest \<noteq> []"
        using True top_state [OF so] by (auto simp: stacks_ok_def)
      then obtain b rest' where rest: "rest = b # rest'"
        by (cases rest) auto
      with ch True bottom_state(4) have "b = 0"
        by simp
      with g ps st rest bottom_state(1) have "s' = 1"
        by simp
      moreover from a True sync_tokens have "map_of (action ! 1) (stype la) \<noteq> None"
        by metis
      ultimately have "phase c' = 1"
        using la fr ne cs' by (simp add: phase_def)
      with m1e m2c True show ?thesis
        by (intro smallerI) simp
    next
      case False
      have z: "?s \<noteq> 0 \<and> ?s \<noteq> 1"
        using r p nonempty by (auto simp: reduce_ok_def split: if_splits)
      with False m2c have m2c5: "phase c = 5"
        by simp
      from reduce_measure [OF so r p nonempty red st' len acc unit]
      have "depth c' < depth c \<or> (depth c' = depth c \<and> top_rank c' < top_rank c)" .
      with m1e m2c5 m2le show ?thesis
        by (intro smallerI) arith
    qed
  qed
  show ?thesis
    using red so' po' sm gr by (auto simp: consistent_def grows_def)
qed

lemma recover_step:
  assumes i: "consistent c" and la: "lookahead c = Some la"
    and nd: "defaulted_states (current_state c) = None"
    and a: "map_of (action ! current_state c) (stype la) = None"
  shows "case recover la c of
           Continue c' \<Rightarrow> consistent c' \<and> (c', c) \<in> smaller \<and> grows c c'
         | Return v c' \<Rightarrow> grows c c' \<and> stype la = T_end
         | Raise e c' \<Rightarrow> False
         | Broken \<Rightarrow> False"
proof -
  let ?s = "current_state c"
  define c1 where "c1 = (if errorcount c = 0 then p_error la (c\<lparr>errorcount := 3\<rparr>)
                         else c\<lparr>errorcount := 3\<rparr>)"
  from i have so: "stacks_ok c" and po: "pending_ok c"
    by (simp_all add: consistent_def)
  from top_state [OF so] obtain rest where st: "statestack c = ?s # rest" and s: "?s < 124"
    and bot: "rest = [] \<longrightarrow> ?s = 0" "rest \<noteq> [] \<longrightarrow> ?s \<noteq> 0"
    by blast
  from so st obtain x xs where sy: "symstack c = x # xs" and x: "stype x = accessing ! ?s"
    by (cases "symstack c") (auto simp: stacks_ok_def)
  have fr: "statestack c1 = statestack c" "symstack c1 = symstack c"
    "lookahead c1 = lookahead c" "lookaheadstack c1 = lookaheadstack c"
    "lexdata c1 = lexdata c" "grows c c1"
    by (auto simp: c1_def p_error_def grows_def)
  have cs1: "current_state c1 = ?s"
    using fr by (simp add: current_state_def)
  have so1: "stacks_ok c1"
    using so fr by (simp add: stacks_ok_def)
  have rc: "recover la c =
         (if length (statestack c1) \<le> 1 \<and> stype la \<noteq> T_end
          then Continue (c1\<lparr>lookahead := None, lookaheadstack := []\<rparr>)
          else if stype la = T_end then Return PNone c1
          else if stype la \<noteq> T_error
          then (if (case symstack c1 of x # xs \<Rightarrow> stype x = T_error | [] \<Rightarrow> False)
                then Continue (c1\<lparr>lookahead := None\<rparr>)
                else Continue (c1\<lparr>lookaheadstack := la # lookaheadstack c1,
                          lookahead := Some \<lparr>stype = T_error,
                            svalue = PLexToken (stype la) (svalue la) (slineno la),
                            slineno = slineno la\<rparr>\<rparr>))
          else Continue (c1\<lparr>symstack := tl (symstack c1), statestack := tl (statestack c1)\<rparr>))"
    by (simp add: recover_def c1_def Let_def)
  have acc3: "accessing ! 3 = T_error"
    using action_entry [of 0 T_error 3] bottom_state(5) by (simp add: entry_ok_def)
  consider (drop) "rest = []" "stype la \<noteq> T_end"
    | (eof) "stype la = T_end"
    | (sync) "rest \<noteq> []" "stype la \<noteq> T_end" "stype la \<noteq> T_error" "?s = 3"
    | (raise) "rest \<noteq> []" "stype la \<noteq> T_end" "stype la \<noteq> T_error" "?s \<noteq> 3"
    | (pop) "rest \<noteq> []" "stype la = T_error"
    by fastforce
  then show ?thesis
  proof cases
    case drop
    with bot have z: "?s = 0"
      by simp
    with a bottom_state(5) have ne: "stype la \<noteq> T_error"
      by auto
    with po la have ls: "lookaheadstack c = []"
      by (simp add: pending_ok_def)
    let ?c' = "c1\<lparr>lookahead := None, lookaheadstack := []\<rparr>"
    have r: "recover la c = Continue ?c'"
      using rc drop st fr by simp
    have "stacks_ok ?c'"
      using so1 by (simp add: stacks_ok_def)
    moreover have "pending_ok ?c'"
      by (simp add: pending_ok_def)
    moreover have "(?c', c) \<in> smaller"
      using la drop ne ls fr by (intro smallerI) (simp add: input_left_def)
    moreover have "grows c ?c'"
      using fr(6) by (simp add: grows_def)
    ultimately show ?thesis
      using r by (simp add: consistent_def)
  next
    case eof
    then have "recover la c = Return PNone c1"
      using rc by simp
    with fr(6) eof show ?thesis
      by simp
  next
    case sync
    with po la have ls: "lookaheadstack c = []"
      by (simp add: pending_ok_def)
    let ?c' = "c1\<lparr>lookahead := None\<rparr>"
    have r: "recover la c = Continue ?c'"
      using rc sync st fr sy x acc3 by simp
    have "stacks_ok ?c'"
      using so1 by (simp add: stacks_ok_def)
    moreover have "pending_ok ?c'"
      using ls fr by (simp add: pending_ok_def)
    moreover have "(?c', c) \<in> smaller"
      using la sync ls fr by (intro smallerI) (simp add: input_left_def)
    moreover have "grows c ?c'"
      using fr(6) by (simp add: grows_def)
    ultimately show ?thesis
      using r by (simp add: consistent_def)
  next
    case raise
    with po la have ls: "lookaheadstack c = []"
      by (simp add: pending_ok_def)
    have xe: "stype x \<noteq> T_error"
      using x error_state [OF s] raise by auto
    let ?c' = "c1\<lparr>lookaheadstack := la # lookaheadstack c1,
                   lookahead := Some \<lparr>stype = T_error,
                     svalue = PLexToken (stype la) (svalue la) (slineno la),
                     slineno = slineno la\<rparr>\<rparr>"
    have r: "recover la c = Continue ?c'"
      using rc raise st fr sy xe by simp
    have cs': "current_state ?c' = ?s"
      using fr by (simp add: current_state_def)
    have "stacks_ok ?c'"
      using so1 by (simp add: stacks_ok_def)
    moreover have "pending_ok ?c'"
      using ls fr raise nd cs' by (simp add: pending_ok_def real_token_def)
    moreover have "input_left ?c' = input_left c"
      using la raise ls fr by (simp add: input_left_def)
    moreover have "phase ?c' = 4"
      by (simp add: phase_def)
    moreover have "phase c = 5"
      using la raise a by (simp add: phase_def is_shift_def)
    moreover have "grows c ?c'"
      using fr(6) by (simp add: grows_def)
    ultimately show ?thesis
      using r by (simp add: consistent_def smallerI)
  next
    case pop
    then obtain b rest' where rest: "rest = b # rest'"
      by (cases rest) auto
    let ?c' = "c1\<lparr>symstack := tl (symstack c1), statestack := tl (statestack c1)\<rparr>"
    have r: "recover la c = Continue ?c'"
      using rc pop st fr by simp
    have "statestack ?c' = b # rest'"
      using fr st rest by simp
    then have cs': "current_state ?c' = b"
      by (simp only: current_state_def list.case)
    have "chain (b # rest')"
      using so st rest chain_tl [of "statestack c"] by (simp add: stacks_ok_def)
    then have "stacks_ok ?c'"
      using so fr st rest sy by (auto simp: stacks_ok_def)
    moreover have db: "defaulted_states b = None"
      using so st rest by (simp add: stacks_ok_def)
    have "pending_ok ?c'"
      using po la pop fr db cs' by (simp add: pending_ok_def)
    moreover have "input_left ?c' = input_left c"
      using la pop fr by (simp add: input_left_def)
    moreover have "phase ?c' = phase c"
      using la pop fr by (simp add: phase_def)
    moreover have "depth ?c' < depth c"
      using fr st by (simp add: depth_def)
    moreover have "grows c ?c'"
      using fr(6) by (simp add: grows_def)
    ultimately show ?thesis
      using r by (simp add: consistent_def smallerI)
  qed
qed

lemma defaulted_actions:
  "defaulted_states s = Some t \<Longrightarrow> \<not> is_shift (map_of (action ! s) a)"
  by (auto simp: defaulted_states_def is_shift_def split: list.splits if_splits)

lemma default_step:
  assumes i: "consistent c" and d: "defaulted_states (current_state c) = Some t"
  shows "\<exists>c'. reduce (nat (- t)) c = Continue c' \<and> consistent c' \<and> (c', c) \<in> smaller \<and>
           grows c c'"
proof -
  let ?s = "current_state c"
  let ?n = "nat (- t)"
  from i have so: "stacks_ok c" and po: "pending_ok c"
    by (simp_all add: consistent_def)
  from top_state [OF so] obtain rest where st: "statestack c = ?s # rest" and s: "?s < 124"
    by blast
  obtain lhs rhs f where p: "productions ! ?n = (lhs, rhs, f)"
    by (cases "productions ! ?n") auto
  from defaulted_entry [OF s d] p obtain a where t: "t < 0"
    and a: "map_of (action ! ?s) a = Some t" and nonempty: "rhs \<noteq> []"
    by auto
  from action_entry [OF s a] t have r: "reduce_ok ?s a ?n"
    by (simp add: entry_ok_def split: if_splits)
  from reduce_step [OF so refl r p] obtain c' s' where
    red: "reduce ?n c = Continue c'" and so': "stacks_ok c'"
    and st': "statestack c' = s' # drop (length rhs) (statestack c)"
    and fr: "lookahead c' = lookahead c" "lookaheadstack c' = lookaheadstack c"
      "lexdata c' = lexdata c" "errorcount c' = errorcount c"
    and gr: "set (stderr c) \<subseteq> set (stderr c')" "error c \<noteq> 0 \<longrightarrow> error c' \<noteq> 0"
    and len: "length rhs < length (statestack c)"
    and acc: "accessing ! s' = lhs"
    and unit: "length rhs = 1 \<longrightarrow> rank lhs < rank (accessing ! ?s)"
    by blast
  have z: "?s \<noteq> 3" "?s \<noteq> 0" "?s \<noteq> 1"
    using d bottom_state(6,7) state_one(2) by (metis option.distinct(1))+
  have ls: "lookaheadstack c = []"
    using po d z by (auto simp: pending_ok_def split: option.splits if_splits)
  have ne: "\<And>la. lookahead c = Some la \<Longrightarrow> stype la \<noteq> T_error"
    using po d by (auto simp: pending_ok_def)
  have po': "pending_ok c'"
    using ls fr ne by (auto simp: pending_ok_def split: option.splits)
  have m1e: "input_left c' = input_left c"
    using fr by (simp add: input_left_def split: option.splits)
  have m2c: "phase c = (case lookahead c of None \<Rightarrow> 6 | Some la \<Rightarrow> 5)"
    using ls z ne defaulted_actions [OF d] by (simp add: phase_def split: option.splits)
  have m2le: "phase c' \<le> phase c"
    using ls fr ne by (simp add: m2c) (simp add: phase_def split: option.splits)
  from reduce_measure [OF so r p nonempty red st' len acc unit]
  have "depth c' < depth c \<or> (depth c' = depth c \<and> top_rank c' < top_rank c)" .
  with m1e m2le have sm: "(c', c) \<in> smaller"
    by (intro smallerI) arith
  show ?thesis
    using red so' po' sm gr by (auto simp: consistent_def grows_def)
qed

lemma fetch_raise: "get_lookahead c = Inl (e, c1) \<Longrightarrow> grows c c1"
  by (auto simp: get_lookahead_def grows_def Let_def
      split: option.splits list.splits prod.splits sum.splits)

lemma same_stack_state: "statestack c1 = statestack c \<Longrightarrow> current_state c1 = current_state c"
  by (simp add: current_state_def)

lemma parse_step_consistent:
  assumes i: "consistent c"
  shows "case parse_step c of
           Continue c' \<Rightarrow> consistent c' \<and> (c', c) \<in> smaller \<and> grows c c'
         | Return v c' \<Rightarrow> grows c c'
         | Raise e c' \<Rightarrow> grows c c'
         | Broken \<Rightarrow> False"
proof (cases "defaulted_states (current_state c)")
  case (Some t)
  with default_step [OF i Some] show ?thesis
    by (auto simp: parse_step_def)
next
  case None
  note nd0 = None
  show ?thesis
  proof (cases "get_lookahead c")
    case (Inl x)
    with fetch_raise [of c "fst x" "snd x"] nd0 show ?thesis
      by (auto simp: parse_step_def split: prod.splits)
  next
    case (Inr y)
  then obtain la c1 where g: "get_lookahead c = Inr (la, c1)"
    by (cases y) auto
  note None = nd0
  from fetch [OF i g] have la: "lookahead c1 = Some la" and st: "statestack c1 = statestack c"
    and i1: "consistent c1" and gr: "grows c c1" and sm: "c1 = c \<or> (c1, c) \<in> smaller"
    by simp_all
  have cs: "current_state c1 = current_state c"
    using st by (rule same_stack_state)
  have nd: "defaulted_states (current_state c1) = None"
    using None cs by simp
  let ?t = "map_of (action ! current_state c1) (stype la)"
  have ps: "parse_step c = perform ?t la c1"
    using None g by (simp add: parse_step_def)
  have "case perform ?t la c1 of
           Continue c' \<Rightarrow> consistent c' \<and> (c', c1) \<in> smaller \<and> grows c1 c'
         | Return v c' \<Rightarrow> grows c1 c'
         | Raise e c' \<Rightarrow> False
         | Broken \<Rightarrow> False"
  proof (cases ?t)
    case None
    with recover_step [OF i1 la nd None] show ?thesis
      by (auto simp: perform_def split: outcome.splits)
  next
    case (Some t)
    consider "0 < t" | "t < 0" | "t = 0"
      by arith
    then show ?thesis
    proof cases
      case 1
      with shift_step [OF i1 la nd Some] Some show ?thesis
        by (auto simp: perform_def)
    next
      case 2
      with reduce_la_step [OF i1 la Some] Some show ?thesis
        by (auto simp: perform_def)
    next
      case 3
      with Some show ?thesis
        by (simp add: perform_def grows_refl)
    qed
  qed
  with ps sm gr show ?thesis
    using trans_smaller grows_trans
    by (auto split: outcome.splits dest: transD)
  qed
qed

lemma consistent_start: "consistent (start data)"
  using bottom_state(3)
  by (simp add: consistent_def stacks_ok_def pending_ok_def start_def current_state_def)

subsection \<open>The loop returns\<close>

lemma loop_returns: "consistent c \<Longrightarrow> \<exists>n r. parse_loop n c = Some r"
proof (induction c rule: wf_induct_rule [OF wf_smaller])
  case (1 c)
  from parse_step_consistent [OF "1.prems"] show ?case
  proof (cases "parse_step c")
    case (Continue c')
    with parse_step_consistent [OF "1.prems"] have "consistent c'" "(c', c) \<in> smaller"
      by simp_all
    with "1.IH" obtain n r where "parse_loop n c' = Some r"
      by blast
    with Continue have "parse_loop (Suc n) c = Some r"
      by simp
    then show ?thesis
      by blast
  next
    case (Return v c')
    then have "parse_loop (Suc 0) c = Some (Inr (v, c'))"
      by simp
    then show ?thesis
      by blast
  next
    case (Raise e c')
    then have "parse_loop (Suc 0) c = Some (Inl (e, c'))"
      by simp
    then show ?thesis
      by blast
  next
    case Broken
    with parse_step_consistent [OF "1.prems"] show ?thesis
      by simp
  qed
qed

lemma loop_grows:
  "consistent c \<Longrightarrow> parse_loop n c = Some r \<Longrightarrow> grows c (final r)"
proof (induction n arbitrary: c)
  case 0
  then show ?case by simp
next
  case (Suc n)
  from parse_step_consistent [OF Suc.prems(1)] Suc.prems(2) Suc.IH show ?case
    by (cases "parse_step c") (auto intro: grows_trans simp: final_def)
qed

lemma loop_more:
  "parse_loop n c = Some r \<Longrightarrow> parse_loop (n + k) c = Some r"
proof (induction n arbitrary: c)
  case 0
  then show ?case by simp
next
  case (Suc n)
  then show ?case
    by (cases "parse_step c") auto
qed

lemma loop_same:
  assumes "parse_loop n c = Some r" and "parse_loop m c = Some r'"
  shows "r = r'"
proof -
  from assms loop_more [of n c r m] loop_more [of m c r' n] show ?thesis
    by (simp add: add.commute)
qed

lemma configs_consistent:
  "consistent c \<Longrightarrow> configs k c = Some c' \<Longrightarrow> consistent c' \<and> grows c c'"
proof (induction k arbitrary: c)
  case 0
  then show ?case by (simp add: grows_refl)
next
  case (Suc k)
  from parse_step_consistent [OF Suc.prems(1)] Suc.prems(2) Suc.IH show ?case
    by (cases "parse_step c") (auto intro: grows_trans)
qed

lemma configs_loop:
  "configs k c = Some c' \<Longrightarrow> parse_loop n c = Some r \<Longrightarrow> \<exists>m. parse_loop m c' = Some r"
proof (induction k arbitrary: c n)
  case 0
  then show ?case by auto
next
  case (Suc k)
  show ?case
  proof (cases n)
    case 0
    with Suc.prems show ?thesis by simp
  next
    case (Suc m)
    with Suc.prems Suc.IH show ?thesis
      by (cases "parse_step c") auto
  qed
qed

subsection \<open>From a rejected token to its diagnostic\<close>

lemma stack_shape:
  assumes "stacks_ok c"
  shows "(\<exists>x. statestack c = [0] \<and> symstack c = [x] \<and> current_state c = 0) \<or>
         (\<exists>s b rest x xs. statestack c = s # b # rest \<and> symstack c = x # xs \<and> s \<noteq> 0 \<and>
            s < 124 \<and> stype x = accessing ! s \<and> current_state c = s \<and>
            defaulted_states b = None)"
proof (cases "statestack c")
  case Nil
  with assms show ?thesis by (simp add: stacks_ok_def)
next
  case (Cons s rest)
  note st = Cons
  show ?thesis
  proof (cases rest)
    case Nil
    with assms st show ?thesis
      by (cases "symstack c") (auto simp: stacks_ok_def current_state_def)
  next
    case (Cons b rest')
    with assms st show ?thesis
      by (cases "symstack c") (auto simp: stacks_ok_def current_state_def)
  qed
qed

lemma no_error_action:
  assumes "s < 124" and "s \<noteq> 0"
  shows "map_of (action ! s) T_error = None"
proof (cases "map_of (action ! s) T_error")
  case None
  then show ?thesis .
next
  case (Some t)
  from action_entry [OF assms(1) Some] assms(2) show ?thesis
    by (simp add: entry_ok_def split: if_splits)
qed

lemma end_in_error_state: "map_of (action ! 3) T_end = Some (- 3)"
  by (simp add: action_def)

lemma raise_step:
  assumes i: "consistent c" and r: "rejects c la" and t: "real_token la"
    and s: "current_state c \<noteq> 0" "current_state c \<noteq> 3"
  shows "\<exists>c'. parse_step c = Continue c' \<and> in_flight la c'"
proof -
  obtain c1 where g: "get_lookahead c = Inr (la, c1)"
    using r by (auto simp: rejects_def split: sum.splits prod.splits)
  from fetch [OF i g] have la: "lookahead c1 = Some la" and st: "statestack c1 = statestack c"
    and i1: "consistent c1"
    by simp_all
  have cs: "current_state c1 = current_state c"
    using st by (rule same_stack_state)
  from r g cs have ps: "parse_step c = recover la c1"
    by (simp add: parse_step_def rejects_def perform_def)
  from i1 have so: "stacks_ok c1"
    by (simp add: consistent_def)
  from stack_shape [OF so] s cs obtain s' b rest x xs where
    sh: "statestack c1 = s' # b # rest" "symstack c1 = x # xs" "s' < 124"
      "stype x = accessing ! s'" "s' \<noteq> 3"
    by auto
  from error_state [OF sh(3)] sh(4,5) have "stype x \<noteq> T_error"
    by simp
  with sh(1,2) t have "\<exists>c'. recover la c1 = Continue c' \<and> in_flight la c'"
    by (auto simp: recover_def Let_def p_error_def in_flight_def error_symbol_def
        real_token_def)
  with ps show ?thesis
    by simp
qed

lemma reduce_error:
  "reduce 3 c = Continue c' \<Longrightarrow> symstack c = error_symbol la # xs \<Longrightarrow> reported la c'"
  by (auto simp: reduce_def bottom_state(8) Let_def p_program_error_def pv_def
      error_symbol_def reported_def message_def split: option.splits)

lemma flight_step:
  assumes i: "consistent c" and f: "in_flight la c"
  shows "(\<exists>c'. parse_step c = Continue c' \<and> (in_flight la c' \<or> reported la c')) \<or>
         (\<exists>e c'. parse_step c = Raise e c')"
proof (cases "lookahead c = Some (error_symbol la)")
  case True
  from i have so: "stacks_ok c" and po: "pending_ok c"
    by (simp_all add: consistent_def)
  from po True have nd: "defaulted_states (current_state c) = None"
    by (simp add: pending_ok_def error_symbol_def)
  from True have g: "get_lookahead c = Inr (error_symbol la, c)"
    by (simp add: get_lookahead_def)
  have ps: "parse_step c =
      perform (map_of (action ! current_state c) T_error) (error_symbol la) c"
    using nd g by (simp add: parse_step_def error_symbol_def)
  from stack_shape [OF so] show ?thesis
  proof (elim disjE exE conjE)
    fix x
    assume "statestack c = [0]" "symstack c = [x]" and z: "current_state c = 0"
    then have "\<exists>c'. shift 3 (error_symbol la) c = Continue c' \<and> in_flight la c'"
      by (simp add: shift_def in_flight_def current_state_def)
    with ps z bottom_state(5) show ?thesis
      by (auto simp: perform_def)
  next
    fix s b rest x xs
    assume sh: "statestack c = s # b # rest" "symstack c = x # xs" "s \<noteq> 0" "s < 124"
      and cs: "current_state c = s"
    from no_error_action [OF sh(4,3)] ps cs
    have ps': "parse_step c = recover (error_symbol la) c"
      by (simp add: perform_def)
    from sh(1,2) True have "\<exists>c'. recover (error_symbol la) c = Continue c' \<and> in_flight la c'"
      by (auto simp: recover_def Let_def p_error_def in_flight_def error_symbol_def)
    with ps' show ?thesis
      by auto
  qed
next
  case False
  with f have cs: "current_state c = 3"
    and top: "case symstack c of x # xs \<Rightarrow> x = error_symbol la | [] \<Rightarrow> False"
    and ne: "case lookahead c of Some x \<Rightarrow> stype x \<noteq> T_error | None \<Rightarrow> True"
    by (simp_all add: in_flight_def)
  show ?thesis
  proof (cases "get_lookahead c")
    case (Inl y)
    with cs bottom_state(6) show ?thesis
      by (auto simp: parse_step_def split: prod.splits)
  next
    case (Inr y)
  then obtain x c1 where g: "get_lookahead c = Inr (x, c1)"
    by (cases y) auto
  from fetch [OF i g] have la: "lookahead c1 = Some x" and st: "statestack c1 = statestack c"
    and sy: "symstack c1 = symstack c" and i1: "consistent c1"
    and nn: "lookahead c = None \<longrightarrow> stype x \<noteq> T_error"
    by simp_all
  have xe: "stype x \<noteq> T_error"
  proof (cases "lookahead c")
    case None
    with nn show ?thesis by simp
  next
    case (Some y)
    with g have "x = y"
      by (simp add: get_lookahead_def)
    with ne Some show ?thesis by simp
  qed
  have cs1: "current_state c1 = 3"
    using st cs same_stack_state [OF st] by simp
  have ps: "parse_step c = perform (map_of (action ! 3) (stype x)) x c1"
    using g cs cs1 bottom_state(6) by (simp add: parse_step_def)
  from i1 have so: "stacks_ok c1"
    by (simp add: consistent_def)
  from stack_shape [OF so] cs1 top sy obtain b rest xs where
    sh: "statestack c1 = 3 # b # rest" "symstack c1 = error_symbol la # xs"
    by auto
  show ?thesis
  proof (cases "map_of (action ! 3) (stype x)")
    case (Some t)
    with sync_tokens have t: "t = - 3"
      by blast
    from reduce_la_step [OF i1 la] Some cs1 t obtain c' where
      red: "reduce 3 c1 = Continue c'"
      by auto
    from reduce_error [OF red sh(2)] red ps Some t show ?thesis
      by (simp add: perform_def)
  next
    case None
    with end_in_error_state have "stype x \<noteq> T_end"
      by auto
    with sh xe la have "\<exists>c'. recover x c1 = Continue c' \<and> in_flight la c'"
      by (auto simp: recover_def Let_def p_error_def in_flight_def error_symbol_def
          current_state_def)
    with ps None show ?thesis
      by (auto simp: perform_def)
  qed
  qed
qed

lemma token_quiet:
  "token inp n ds = (ds', r) \<Longrightarrow> SyntaxErrorAtEof \<notin> set ds \<Longrightarrow> SyntaxErrorAtEof \<notin> set ds'"
  by (induction inp n ds rule: token.induct)
     (auto simp: Let_def split: if_splits sum.splits)

lemma fetch_quiet: "get_lookahead c = Inr (la, c1) \<Longrightarrow> quiet c \<Longrightarrow> quiet c1"
  by (auto simp: get_lookahead_def quiet_def Let_def dest: token_quiet
      split: option.splits list.splits prod.splits sum.splits)

lemma add_program_quiet: "add_program p0 x g = (v, g') \<Longrightarrow> quiet g' = quiet g"
  by (auto simp: add_program_def quiet_def split: pyval.splits instr.splits if_splits)

lemma call_quiet: "call f p g = (v, g') \<Longrightarrow> quiet g' = quiet g"
  by (cases f)
     (auto simp: p_program_def p_program_error_def p_register_declaration_def
        p_register_def Let_def
        dest!: add_program_quiet split: if_splits pyval.splits prod.splits,
      auto simp: quiet_def)

lemma reduce_quiet: "reduce n c = Continue c' \<Longrightarrow> quiet c' = quiet c"
proof -
  assume r: "reduce n c = Continue c'"
  obtain lhs rhs f where p: "productions ! n = (lhs, rhs, f)"
    by (cases "productions ! n") auto
  let ?c1 = "c\<lparr>symstack := drop (length rhs) (symstack c)\<rparr>"
  obtain v c2 where cl: "call f (rev (take (length rhs) (symstack c))) ?c1 = (v, c2)"
    by (cases "call f (rev (take (length rhs) (symstack c))) ?c1") auto
  from call_quiet [OF cl] have "quiet c2 = quiet c"
    by (simp add: quiet_def)
  moreover from r p cl have "stderr c' = stderr c2"
    by (auto simp: reduce_def Let_def split: option.splits)
  ultimately show ?thesis
    by (simp add: quiet_def)
qed

lemma recover_quiet:
  assumes r: "recover la c = Continue c'"
  shows "quiet c' = quiet c"
proof (cases "stype la = T_end")
  case True
  with r show ?thesis
    by (simp add: recover_def Let_def)
next
  case False
  then have p: "\<And>g. p_error la g = g"
    by (simp add: p_error_def)
  from r False have "stderr c' = stderr c"
    by (simp add: recover_def Let_def p split: if_splits list.splits) auto
  then show ?thesis
    by (simp add: quiet_def)
qed

lemma step_quiet:
  assumes s: "parse_step c = Continue c'" and q: "quiet c"
  shows "quiet c'"
proof (cases "defaulted_states (current_state c)")
  case (Some t)
  with s reduce_quiet q show ?thesis
    by (simp add: parse_step_def)
next
  case None
  with s obtain la c1 where g: "get_lookahead c = Inr (la, c1)"
    and p: "perform (map_of (action ! current_state c1) (stype la)) la c1 = Continue c'"
    by (auto simp: parse_step_def split: sum.splits prod.splits)
  from fetch_quiet [OF g q] have q1: "quiet c1" .
  show ?thesis
  proof (cases "map_of (action ! current_state c1) (stype la)")
    case None
    with p recover_quiet q1 show ?thesis
      by (simp add: perform_def)
  next
    case (Some t)
    with p reduce_quiet [of "nat (- t)" c1 c'] q1 show ?thesis
      by (auto simp: perform_def shift_def quiet_def split: if_splits)
  qed
qed

lemma configs_quiet: "configs k c = Some c' \<Longrightarrow> quiet c \<Longrightarrow> quiet c'"
proof (induction k arbitrary: c)
  case 0
  then show ?case by simp
next
  case (Suc k)
  then show ?case
    by (cases "parse_step c") (auto dest: step_quiet)
qed

lemma quiet_start: "quiet (start data)"
  by (simp add: quiet_def start_def)

lemma drop_step:
  assumes i: "consistent c" and r: "rejects c la" and t: "real_token la"
    and s: "current_state c = 3"
  shows "\<exists>c1. get_lookahead c = Inr (la, c1) \<and>
           parse_step c = Continue (c1\<lparr>lookahead := None, errorcount := 3\<rparr>)"
proof -
  obtain c1 where g: "get_lookahead c = Inr (la, c1)"
    using r by (auto simp: rejects_def split: sum.splits prod.splits)
  from fetch [OF i g] have st: "statestack c1 = statestack c" and i1: "consistent c1"
    by simp_all
  have cs: "current_state c1 = 3"
    using s same_stack_state [OF st] by simp
  from r g cs s have ps: "parse_step c = recover la c1"
    by (simp add: parse_step_def rejects_def perform_def)
  from i1 have so: "stacks_ok c1"
    by (simp add: consistent_def)
  from stack_shape [OF so] cs obtain b rest x xs where
    sh: "statestack c1 = 3 # b # rest" "symstack c1 = x # xs" "stype x = accessing ! 3"
    by auto
  from error_state [of 3] sh(3) have "stype x = T_error"
    by simp
  with sh(1,2) t have "recover la c1 = Continue (c1\<lparr>lookahead := None, errorcount := 3\<rparr>)"
    by (auto simp: recover_def Let_def p_error_def real_token_def)
  with ps g show ?thesis
    by simp
qed

lemma end_step:
  assumes i: "consistent c" and r: "rejects c la" and t: "stype la = T_end" and q: "quiet c"
  shows "\<exists>c'. parse_step c = Return PNone c' \<and>
           (SyntaxErrorAtEof \<in> set (stderr c')) = (errorcount c = 0)"
proof -
  obtain c1 where g: "get_lookahead c = Inr (la, c1)"
    using r by (auto simp: rejects_def split: sum.splits prod.splits)
  from fetch [OF i g] have st: "statestack c1 = statestack c"
    and ec: "errorcount c1 = errorcount c"
    by simp_all
  from r g same_stack_state [OF st] have ps: "parse_step c = recover la c1"
    by (simp add: parse_step_def rejects_def perform_def)
  from fetch_quiet [OF g q] have "SyntaxErrorAtEof \<notin> set (stderr c1)"
    by (simp add: quiet_def)
  with t ec have "\<exists>c'. recover la c1 = Return PNone c' \<and>
           (SyntaxErrorAtEof \<in> set (stderr c')) = (errorcount c = 0)"
    by (simp add: recover_def Let_def p_error_def)
  with ps show ?thesis
    by simp
qed

lemma reported_grows: "reported la c \<Longrightarrow> grows c c' \<Longrightarrow> reported la c'"
  by (auto simp: reported_def grows_def)

lemma loop_reports:
  "consistent c \<Longrightarrow> in_flight la c \<or> reported la c \<Longrightarrow>
     parse_loop n c = Some (Inr (v, c')) \<Longrightarrow> reported la c'"
proof (induction n arbitrary: c)
  case 0
  then show ?case by simp
next
  case (Suc n)
  show ?case
  proof (cases "reported la c")
    case True
    with loop_grows [OF Suc.prems(1,3)] show ?thesis
      by (auto intro: reported_grows simp: final_def)
  next
    case False
    with Suc.prems(2) have "in_flight la c"
      by simp
    from flight_step [OF Suc.prems(1) this] Suc.prems(3) obtain d where
      d: "parse_step c = Continue d" "in_flight la d \<or> reported la d"
      by auto
    from parse_step_consistent [OF Suc.prems(1)] d(1) have "consistent d"
      by simp
    with Suc.IH d Suc.prems(3) show ?thesis
      by simp
  qed
qed

subsection \<open>Exceptions\<close>

lemma short_drop: "short_numbers s \<Longrightarrow> short_numbers (drop j s)"
  by (auto simp: short_numbers_def list_all_iff add.commute)

lemma dropWhile_drop: "dropWhile P s = drop (length (takeWhile P s)) s"
  by (induction s) auto

lemma token_suffix:
  "token inp n ds = (ds', Inr (tok, rest, n')) \<Longrightarrow> \<exists>j. rest = drop j inp"
proof (induction inp n ds rule: token.induct)
  case (1 lineno ds)
  then show ?case by simp
next
  case (2 c cs lineno ds)
  have d: "\<And>P. \<exists>j. dropWhile P cs = drop j (c # cs)"
  proof -
    fix P
    have "dropWhile P cs = drop (Suc (length (takeWhile P cs))) (c # cs)"
      by (simp add: dropWhile_drop [symmetric])
    then show "\<exists>j. dropWhile P cs = drop j (c # cs)"
      by blast
  qed
  have e: "\<And>k. \<exists>j. drop k cs = drop j (c # cs)"
  proof -
    fix k
    have "drop k cs = drop (Suc k) (c # cs)"
      by simp
    then show "\<exists>j. drop k cs = drop j (c # cs)"
      by blast
  qed
  have f: "\<And>k s. \<exists>j. s = drop j (drop k cs) \<Longrightarrow> \<exists>j. s = drop j (c # cs)"
  proof -
    fix k s
    assume "\<exists>j. s = drop j (drop k cs)"
    then obtain j where "s = drop j (drop k cs)"
      by blast
    then have "s = drop (Suc (j + k)) (c # cs)"
      by simp
    then show "\<exists>j. s = drop j (c # cs)"
      by blast
  qed
  have g: "\<And>P s. \<exists>j. s = drop j (dropWhile P cs) \<Longrightarrow> \<exists>j. s = drop j (c # cs)"
    using f by (simp add: dropWhile_drop)
  have h: "\<exists>j. cs = drop j (c # cs)"
    using e [of 0] by simp
  from "2.prems" show ?case
    apply (simp add: Let_def split: if_splits sum.splits)
    using d e h "2.IH" f [of _ 0] g
    apply (auto simp: )
    done
qed

lemma token_raise:
  "token inp n ds = (ds', Inl e) \<Longrightarrow>
     \<not> short_numbers inp \<and>
     (\<exists>num. num \<noteq> [] \<and> list_all is_digit num \<and> max_str_digits < length num \<and>
        int_of_str num = Inl e)"
proof (induction inp n ds rule: token.induct)
  case (1 lineno ds)
  then show ?case by simp
next
  case (2 c cs lineno ds)
  show ?case
  proof (cases "is_digit c")
    case True
    let ?num = "c # takeWhile is_digit cs"
    from "2.prems" True have e: "int_of_str ?num = Inl e"
      by (simp split: sum.splits)
    then have l: "max_str_digits < length ?num"
      by (simp add: int_of_str_def split: if_splits)
    have "list_all is_digit ?num"
      using True by (simp add: list_all_iff) (meson set_takeWhileD)
    moreover have "\<not> short_numbers (c # cs)"
    proof
      assume "short_numbers (c # cs)"
      then have "\<forall>k\<in>set [0..<length (c # cs)].
          length (takeWhile is_digit (drop k (c # cs))) \<le> max_str_digits"
        unfolding short_numbers_def list_all_iff .
      moreover have "0 \<in> set [0..<length (c # cs)]"
        by simp
      ultimately have "length (takeWhile is_digit (drop 0 (c # cs))) \<le> max_str_digits"
        by blast
      with l True show False
        by simp
    qed
    ultimately show ?thesis
      using e l by blast
  next
    case False
    note nd = False
    from "2.prems" nd obtain s where t: "token s lineno (if c = CHR ''#'' then ds else ds @ [IllegalCharacter c]) = (ds', Inl e)"
      and s: "s = dropWhile (\<lambda>d. d \<noteq> CHR 0x0A) cs \<or> s = cs"
      and k: "c = CHR ''#'' \<and> s = dropWhile (\<lambda>d. d \<noteq> CHR 0x0A) cs \<or>
              c \<noteq> CHR ''#'' \<and> s = cs"
      by (auto simp: Let_def split: if_splits)
    from s obtain j where j: "s = drop j (c # cs)"
    proof
      assume "s = dropWhile (\<lambda>d. d \<noteq> CHR 0x0A) cs"
      then have "s = drop (Suc (length (takeWhile (\<lambda>d. d \<noteq> CHR 0x0A) cs))) (c # cs)"
        by (simp add: dropWhile_drop [symmetric])
      then show ?thesis
        using that by blast
    next
      assume "s = cs"
      then have "s = drop 1 (c # cs)"
        by simp
      then show ?thesis
        using that by blast
    qed
    from k t "2.prems" nd "2.IH" have
      "\<not> short_numbers s \<and>
       (\<exists>num. num \<noteq> [] \<and> list_all is_digit num \<and> max_str_digits < length num \<and>
          int_of_str num = Inl e)"
      by (auto simp: Let_def split: if_splits)
    with j short_drop [of "c # cs" j] show ?thesis
      by auto
  qed
qed

lemma fetch_short:
  "get_lookahead c = Inr (la, c1) \<Longrightarrow> short_numbers (lexdata c) \<Longrightarrow>
     short_numbers (lexdata c1)"
  by (auto simp: get_lookahead_def Let_def dest!: token_suffix intro: short_drop
      split: option.splits list.splits prod.splits sum.splits)

lemma fetch_raises:
  "get_lookahead c = Inl (e, c1) \<Longrightarrow>
     \<not> short_numbers (lexdata c) \<and>
     (\<exists>num. num \<noteq> [] \<and> list_all is_digit num \<and> max_str_digits < length num \<and>
        int_of_str num = Inl e)"
  by (auto simp: get_lookahead_def Let_def dest!: token_raise
      split: option.splits list.splits prod.splits sum.splits)

lemma reduce_lexdata: "reduce n c = Continue c' \<Longrightarrow> lexdata c' = lexdata c"
proof -
  assume r: "reduce n c = Continue c'"
  obtain lhs rhs f where p: "productions ! n = (lhs, rhs, f)"
    by (cases "productions ! n") auto
  let ?c1 = "c\<lparr>symstack := drop (length rhs) (symstack c)\<rparr>"
  obtain v c2 where cl: "call f (rev (take (length rhs) (symstack c))) ?c1 = (v, c2)"
    by (cases "call f (rev (take (length rhs) (symstack c))) ?c1") auto
  from call_frame [OF cl] have "lexdata c2 = lexdata c"
    by (simp add: same_frame_def)
  moreover from r p cl have "lexdata c' = lexdata c2"
    by (auto simp: reduce_def Let_def split: option.splits)
  ultimately show ?thesis
    by simp
qed

lemma recover_lexdata:
  assumes r: "recover la c = Continue c'"
  shows "lexdata c' = lexdata c"
proof (cases "stype la = T_end")
  case True
  with r show ?thesis
    by (simp add: recover_def Let_def)
next
  case False
  then have p: "\<And>g. p_error la g = g"
    by (simp add: p_error_def)
  from r False show ?thesis
    by (simp add: recover_def Let_def p split: if_splits list.splits) auto
qed

lemma step_short:
  assumes s: "parse_step c = Continue c'" and q: "short_numbers (lexdata c)"
  shows "short_numbers (lexdata c')"
proof (cases "defaulted_states (current_state c)")
  case (Some t)
  with s reduce_lexdata q show ?thesis
    by (simp add: parse_step_def)
next
  case None
  with s obtain la c1 where g: "get_lookahead c = Inr (la, c1)"
    and p: "perform (map_of (action ! current_state c1) (stype la)) la c1 = Continue c'"
    by (auto simp: parse_step_def split: sum.splits prod.splits)
  from fetch_short [OF g q] have q1: "short_numbers (lexdata c1)" .
  show ?thesis
  proof (cases "map_of (action ! current_state c1) (stype la)")
    case None
    with p recover_lexdata q1 show ?thesis
      by (simp add: perform_def)
  next
    case (Some t)
    with p reduce_lexdata [of "nat (- t)" c1 c'] q1 show ?thesis
      by (auto simp: perform_def shift_def split: if_splits)
  qed
qed

lemma step_raises:
  assumes s: "parse_step c = Raise e c'"
  shows "\<not> short_numbers (lexdata c) \<and>
     (\<exists>num. num \<noteq> [] \<and> list_all is_digit num \<and> max_str_digits < length num \<and>
        int_of_str num = Inl e)"
proof (cases "defaulted_states (current_state c)")
  case (Some t)
  with s show ?thesis
    by (auto simp: parse_step_def reduce_def Let_def split: prod.splits option.splits)
next
  case None
  show ?thesis
  proof (cases "get_lookahead c")
    case (Inl x)
    with s None have "x = (e, c')"
      by (cases x) (simp add: parse_step_def)
    with Inl fetch_raises [of c e c'] show ?thesis
      by simp
  next
    case (Inr y)
    then obtain la c1 where g: "get_lookahead c = Inr (la, c1)"
      by (cases y) auto
    with s None have p: "perform (map_of (action ! current_state c1) (stype la)) la c1 = Raise e c'"
      by (simp add: parse_step_def)
    have "\<And>g. p_error la g = g \<or> stype la = T_end"
      by (simp add: p_error_def)
    with p show ?thesis
      by (auto simp: perform_def shift_def reduce_def recover_def Let_def
          split: option.splits if_splits prod.splits list.splits)
  qed
qed

lemma loop_raises:
  "parse_loop n c = Some (Inl (e, c')) \<Longrightarrow>
     \<not> short_numbers (lexdata c) \<and>
     (\<exists>num. num \<noteq> [] \<and> list_all is_digit num \<and> max_str_digits < length num \<and>
        int_of_str num = Inl e)"
proof (induction n arbitrary: c)
  case 0
  then show ?case by simp
next
  case (Suc n)
  show ?case
  proof (cases "parse_step c")
    case (Continue d)
    with Suc.prems have "parse_loop n d = Some (Inl (e, c'))"
      by simp
    from Suc.IH [OF this] step_short [OF Continue] show ?thesis
      by blast
  next
    case (Return v d)
    with Suc.prems show ?thesis by simp
  next
    case (Raise e' d)
    with Suc.prems step_raises [OF Raise] show ?thesis by simp
  next
    case Broken
    with Suc.prems show ?thesis by simp
  qed
qed

subsection \<open>Syntax errors\<close>

lemma sync_set:
  "(map_of (action ! 3) a = None) = (a \<notin> {T_NEWLINE, T_SPACE, T_UH, T_I, T_REGISTER, T_end})"
  by (auto simp: action_def)

lemma raise_at_once:
  assumes "ds \<noteq> []" and "list_all is_digit ds" and "max_str_digits < length ds"
  shows "parse (Suc n) ds =
    Some (Inl (ValueError
             (''Exceeds the limit (4300 digits) for integer string conversion: value has '' @
              str_int (int (length ds)) @
              '' digits; use sys.set_int_max_str_digits() to increase the limit''), []))"
proof -
  let ?e = "ValueError
             (''Exceeds the limit (4300 digits) for integer string conversion: value has '' @
              str_int (int (length ds)) @
              '' digits; use sys.set_int_max_str_digits() to increase the limit'')"
  from assms(3) have e: "int_of_str ds = Inl ?e"
    by (simp add: int_of_str_def)
  from token_number [OF assms(1,2), of "[]" 1 "[]"] e
  have "token ds 1 [] = ([], Inl ?e)"
    by simp
  then have "get_lookahead (start ds) = Inl (?e, start ds)"
    by (simp add: get_lookahead_def start_def)
  then have "parse_step (start ds) = Raise ?e (start ds)"
    using bottom_state(7) by (simp add: parse_step_def current_state_def start_def)
  then show ?thesis
    by (simp add: parse_def start_def)
qed

text \<open>
  C9, amended. For every source text \<^verbatim>\<open>parse\<close> returns or raises, and it raises only the
  \<^verbatim>\<open>ValueError\<close> of \<^verbatim>\<open>int\<close> on a number literal of more than 4300 digits (so it returns when
  the text has no such run of digits, \<open>short_numbers\<close>). Whenever the parser, on its way
  through the text, has no action for the token it has read (\<open>rejects\<close>: the configuration
  \<open>c\<close> is reached after \<open>k\<close> turns of the loop, and the action table has no entry for the
  token \<open>la\<close> in the state on top of the stack), then:

    \<^item> if \<open>la\<close> is a token of the text and the \<^verbatim>\<open>error\<close> symbol is on top of the stack
      (state 3: a token has just been reported), \<open>la\<close> is not one of the tokens that can
      start a line and it is dropped: the next configuration is the one in which \<open>la\<close>
      has been read, without its lookahead, and nothing is written for it;

    \<^item> if \<open>la\<close> is a token of the text, and the stack holds more than the start state and
      not the \<^verbatim>\<open>error\<close> symbol on top (a state other than 0 and 3), then a \<^verbatim>\<open>parse\<close> that
      returns has written \<^verbatim>\<open>line n: 'value' syntax error\<close> with the line of that token and
      its value as an f-string prints it (the text of the token; for a number literal
      the decimal digits of its value, so \<^verbatim>\<open>7\<close> for \<^verbatim>\<open>007\<close>; the two characters \<^verbatim>\<open>\n\<close> for
      an end of line), and returns \<^verbatim>\<open>None\<close>; this holds for every such token of the text,
      so the lines after a bad line are still parsed and reported;

    \<^item> if \<open>la\<close> is the end of the text, \<^verbatim>\<open>parse\<close> returns \<^verbatim>\<open>None\<close>, and has written
      \<^verbatim>\<open>syntax error at eof\<close> exactly if \<open>errorcount\<close> is 0 (three tokens have been shifted
      since the last error, or there was none).

  Nothing is said of a token rejected in state 0.
\<close>

theorem syntax_error_is_reported:
  "(\<exists>n r. parse n data = Some r) \<and>
   (parse n data = Some (Inl (e, errs)) \<longrightarrow>
      \<not> short_numbers data \<and>
      (\<exists>num. num \<noteq> [] \<and> list_all is_digit num \<and> max_str_digits < length num \<and>
         int_of_str num = Inl e)) \<and>
   (configs k (start data) = Some c \<and> rejects c la \<longrightarrow>
      (real_token la \<and> current_state c = 3 \<longrightarrow>
         stype la \<notin> {T_NEWLINE, T_SPACE, T_UH, T_I, T_REGISTER} \<and>
         (\<exists>c1. get_lookahead c = Inr (la, c1) \<and>
            parse_step c = Continue (c1\<lparr>lookahead := None, errorcount := 3\<rparr>))) \<and>
      (parse n data = Some (Inr (p, errs)) \<longrightarrow>
         (real_token la \<and> current_state c \<noteq> 0 \<and> current_state c \<noteq> 3 \<longrightarrow>
            p = PNone \<and>
            SyntaxError (slineno la)
              (if stype la = T_NEWLINE then [CHR 0x5C, CHR ''n'']
               else format_value (svalue la))
              \<in> set errs) \<and>
         (stype la = T_end \<longrightarrow>
            p = PNone \<and> (SyntaxErrorAtEof \<in> set errs) = (errorcount c = 0))))"
proof (intro conjI impI; (elim conjE)?)
  from loop_returns [OF consistent_start] obtain n r where
    "parse_loop n (start data) = Some r"
    by blast
  then have "\<exists>r'. parse n data = Some r'"
    by (cases r) (auto simp: parse_def)
  then show "\<exists>n r. parse n data = Some r"
    by blast
next
  assume "parse n data = Some (Inl (e, errs))"
  then obtain d where "parse_loop n (start data) = Some (Inl (e, d))"
    by (auto simp: parse_def split: option.splits sum.splits)
  from loop_raises [OF this]
  show "\<not> short_numbers data"
    and "\<exists>num. num \<noteq> [] \<and> list_all is_digit num \<and> max_str_digits < length num \<and>
           int_of_str num = Inl e"
    by (simp_all add: start_def)
next
  assume k: "configs k (start data) = Some c" and rj: "rejects c la"
    and h: "real_token la" "current_state c = 3"
  from configs_consistent [OF consistent_start k] have i: "consistent c"
    by simp
  from rj h(2) have "map_of (action ! 3) (stype la) = None"
    by (simp add: rejects_def)
  then show "stype la \<notin> {T_NEWLINE, T_SPACE, T_UH, T_I, T_REGISTER}"
    by (simp add: sync_set)
  from drop_step [OF i rj h]
  show "\<exists>c1. get_lookahead c = Inr (la, c1) \<and>
          parse_step c = Continue (c1\<lparr>lookahead := None, errorcount := 3\<rparr>)" .
next
  assume k: "configs k (start data) = Some c" and rj: "rejects c la"
    and pr: "parse n data = Some (Inr (p, errs))"
    and h: "real_token la" "current_state c \<noteq> 0" "current_state c \<noteq> 3"
  from pr obtain v d where l: "parse_loop n (start data) = Some (Inr (v, d))"
    and p: "p = (if error d \<noteq> 0 then PNone else v)" and e: "errs = stderr d"
    by (auto simp: parse_def split: option.splits sum.splits)
  from configs_consistent [OF consistent_start k] have i: "consistent c"
    by simp
  from configs_loop [OF k l] obtain m where m: "parse_loop m c = Some (Inr (v, d))"
    by blast
  from raise_step [OF i rj h] obtain c' where s: "parse_step c = Continue c'"
    and f: "in_flight la c'"
    by blast
  from parse_step_consistent [OF i] s have i': "consistent c'"
    by simp
  from m s obtain m' where "parse_loop m' c' = Some (Inr (v, d))"
    by (cases m) auto
  with loop_reports [OF i'] f have "reported la d"
    by blast
  with p e show "p = PNone"
    and "SyntaxError (slineno la)
           (if stype la = T_NEWLINE then [CHR 0x5C, CHR ''n''] else format_value (svalue la))
           \<in> set errs"
    by (simp_all add: reported_def message_def)
next
  assume k: "configs k (start data) = Some c" and rj: "rejects c la"
    and pr: "parse n data = Some (Inr (p, errs))" and h: "stype la = T_end"
  from pr obtain v d where l: "parse_loop n (start data) = Some (Inr (v, d))"
    and p: "p = (if error d \<noteq> 0 then PNone else v)" and e: "errs = stderr d"
    by (auto simp: parse_def split: option.splits sum.splits)
  from configs_consistent [OF consistent_start k] have i: "consistent c"
    by simp
  from configs_quiet [OF k quiet_start] have q: "quiet c" .
  from configs_loop [OF k l] obtain m where m: "parse_loop m c = Some (Inr (v, d))"
    by blast
  from end_step [OF i rj h q] obtain c' where s: "parse_step c = Return PNone c'"
    and f: "(SyntaxErrorAtEof \<in> set (stderr c')) = (errorcount c = 0)"
    by auto
  from m s have "v = PNone" "d = c'"
    by (cases m; simp)+
  with p e f show "p = PNone" and "(SyntaxErrorAtEof \<in> set errs) = (errorcount c = 0)"
    by simp_all
qed

theorem syntax_error_is_reported_witness:
  "parse 1 (replicate 4301 (CHR ''1'')) = Some (Inl ((ValueError (''Exceeds the limit (4300 digits) for integer string conversion: value has 4301'' @
        '' digits; use sys.set_int_max_str_digits() to increase the limit'')), [])) \<and>
   \<not> short_numbers (replicate 4301 (CHR ''1'')) \<and>
   configs 7 (start (''I??'' @ [newline])) = Some
     \<lparr>lexdata = ''?'' @ [newline], lineno = 1, lookahead = None, lookaheadstack = [],
      statestack = [3, 0],
      symstack = [\<lparr>stype = T_error, svalue = PLexToken T_QUESTION_MARK (PStr ''?'') 1, slineno = 1\<rparr>,
                  \<lparr>stype = T_end, svalue = PNone, slineno = 0\<rparr>],
      errorcount = 3, register_names = [], label_names = [], error = 0, stderr = []\<rparr> \<and>
   rejects
     \<lparr>lexdata = ''?'' @ [newline], lineno = 1, lookahead = None, lookaheadstack = [],
      statestack = [3, 0],
      symstack = [\<lparr>stype = T_error, svalue = PLexToken T_QUESTION_MARK (PStr ''?'') 1, slineno = 1\<rparr>,
                  \<lparr>stype = T_end, svalue = PNone, slineno = 0\<rparr>],
      errorcount = 3, register_names = [], label_names = [], error = 0, stderr = []\<rparr>
     \<lparr>stype = T_QUESTION_MARK, svalue = PStr ''?'', slineno = 1\<rparr> \<and>
   real_token \<lparr>stype = T_QUESTION_MARK, svalue = PStr ''?'', slineno = 1\<rparr> \<and>
   get_lookahead
     \<lparr>lexdata = ''?'' @ [newline], lineno = 1, lookahead = None, lookaheadstack = [],
      statestack = [3, 0],
      symstack = [\<lparr>stype = T_error, svalue = PLexToken T_QUESTION_MARK (PStr ''?'') 1, slineno = 1\<rparr>,
                  \<lparr>stype = T_end, svalue = PNone, slineno = 0\<rparr>],
      errorcount = 3, register_names = [], label_names = [], error = 0, stderr = []\<rparr>
   = Inr (\<lparr>stype = T_QUESTION_MARK, svalue = PStr ''?'', slineno = 1\<rparr>,
     \<lparr>lexdata = [newline], lineno = 1, lookahead = Some \<lparr>stype = T_QUESTION_MARK, svalue = PStr ''?'', slineno = 1\<rparr>, lookaheadstack = [],
      statestack = [3, 0],
      symstack = [\<lparr>stype = T_error, svalue = PLexToken T_QUESTION_MARK (PStr ''?'') 1, slineno = 1\<rparr>,
                  \<lparr>stype = T_end, svalue = PNone, slineno = 0\<rparr>],
      errorcount = 3, register_names = [], label_names = [], error = 0, stderr = []\<rparr>) \<and>
   parse_step
     \<lparr>lexdata = ''?'' @ [newline], lineno = 1, lookahead = None, lookaheadstack = [],
      statestack = [3, 0],
      symstack = [\<lparr>stype = T_error, svalue = PLexToken T_QUESTION_MARK (PStr ''?'') 1, slineno = 1\<rparr>,
                  \<lparr>stype = T_end, svalue = PNone, slineno = 0\<rparr>],
      errorcount = 3, register_names = [], label_names = [], error = 0, stderr = []\<rparr>
   = Continue
     \<lparr>lexdata = [newline], lineno = 1, lookahead = None, lookaheadstack = [],
      statestack = [3, 0],
      symstack = [\<lparr>stype = T_error, svalue = PLexToken T_QUESTION_MARK (PStr ''?'') 1, slineno = 1\<rparr>,
                  \<lparr>stype = T_end, svalue = PNone, slineno = 0\<rparr>],
      errorcount = 3, register_names = [], label_names = [], error = 0, stderr = []\<rparr> \<and>
   configs 2 (start (''I'' @ [newline])) = Some
     \<lparr>lexdata = [newline], lineno = 1, lookahead = None, lookaheadstack = [],
      statestack = [12, 4, 0],
      symstack = [\<lparr>stype = T_I, svalue = PStr ''I'', slineno = 1\<rparr>,
                  \<lparr>stype = N_empty_or_space, svalue = PNone, slineno = 0\<rparr>,
                  \<lparr>stype = T_end, svalue = PNone, slineno = 0\<rparr>],
      errorcount = 0, register_names = [], label_names = [], error = 0, stderr = []\<rparr> \<and>
   rejects
     \<lparr>lexdata = [newline], lineno = 1, lookahead = None, lookaheadstack = [],
      statestack = [12, 4, 0],
      symstack = [\<lparr>stype = T_I, svalue = PStr ''I'', slineno = 1\<rparr>,
                  \<lparr>stype = N_empty_or_space, svalue = PNone, slineno = 0\<rparr>,
                  \<lparr>stype = T_end, svalue = PNone, slineno = 0\<rparr>],
      errorcount = 0, register_names = [], label_names = [], error = 0, stderr = []\<rparr>
     \<lparr>stype = T_NEWLINE, svalue = PStr [newline], slineno = 1\<rparr> \<and>
   real_token \<lparr>stype = T_NEWLINE, svalue = PStr [newline], slineno = 1\<rparr> \<and>
   parse 12 (''I'' @ [newline]) = Some (Inr (PNone, [SyntaxError 1 [CHR 0x5C, CHR ''n'']])) \<and>
   configs 3 (start (''I 007'' @ [newline])) = Some
     \<lparr>lexdata = ''007'' @ [newline], lineno = 1, lookahead = None, lookaheadstack = [],
      statestack = [20, 12, 4, 0],
      symstack = [\<lparr>stype = T_SPACE, svalue = PStr '' '', slineno = 1\<rparr>,
                  \<lparr>stype = T_I, svalue = PStr ''I'', slineno = 1\<rparr>,
                  \<lparr>stype = N_empty_or_space, svalue = PNone, slineno = 0\<rparr>,
                  \<lparr>stype = T_end, svalue = PNone, slineno = 0\<rparr>],
      errorcount = 0, register_names = [], label_names = [], error = 0, stderr = []\<rparr> \<and>
   rejects
     \<lparr>lexdata = ''007'' @ [newline], lineno = 1, lookahead = None, lookaheadstack = [],
      statestack = [20, 12, 4, 0],
      symstack = [\<lparr>stype = T_SPACE, svalue = PStr '' '', slineno = 1\<rparr>,
                  \<lparr>stype = T_I, svalue = PStr ''I'', slineno = 1\<rparr>,
                  \<lparr>stype = N_empty_or_space, svalue = PNone, slineno = 0\<rparr>,
                  \<lparr>stype = T_end, svalue = PNone, slineno = 0\<rparr>],
      errorcount = 0, register_names = [], label_names = [], error = 0, stderr = []\<rparr>
     \<lparr>stype = T_NUMBER, svalue = PInt 7, slineno = 1\<rparr> \<and>
   real_token \<lparr>stype = T_NUMBER, svalue = PInt 7, slineno = 1\<rparr> \<and>
   parse 40 (''I 007'' @ [newline]) = Some (Inr (PNone, [SyntaxError 1 ''7''])) \<and>
   configs 2 (start ''I'') = Some
     \<lparr>lexdata = [], lineno = 1, lookahead = None, lookaheadstack = [],
      statestack = [12, 4, 0],
      symstack = [\<lparr>stype = T_I, svalue = PStr ''I'', slineno = 1\<rparr>,
                  \<lparr>stype = N_empty_or_space, svalue = PNone, slineno = 0\<rparr>,
                  \<lparr>stype = T_end, svalue = PNone, slineno = 0\<rparr>],
      errorcount = 0, register_names = [], label_names = [], error = 0, stderr = []\<rparr> \<and>
   rejects
     \<lparr>lexdata = [], lineno = 1, lookahead = None, lookaheadstack = [],
      statestack = [12, 4, 0],
      symstack = [\<lparr>stype = T_I, svalue = PStr ''I'', slineno = 1\<rparr>,
                  \<lparr>stype = N_empty_or_space, svalue = PNone, slineno = 0\<rparr>,
                  \<lparr>stype = T_end, svalue = PNone, slineno = 0\<rparr>],
      errorcount = 0, register_names = [], label_names = [], error = 0, stderr = []\<rparr>
     \<lparr>stype = T_end, svalue = PNone, slineno = 0\<rparr> \<and>
   parse 3 ''I'' = Some (Inr (PNone, [SyntaxErrorAtEof]))"
proof -
  let ?c1 = "\<lparr>lexdata = [newline], lineno = 1, lookahead = None, lookaheadstack = [],
      statestack = [12, 4, 0],
      symstack = [\<lparr>stype = T_I, svalue = PStr ''I'', slineno = 1\<rparr>,
                  \<lparr>stype = N_empty_or_space, svalue = PNone, slineno = 0\<rparr>,
                  \<lparr>stype = T_end, svalue = PNone, slineno = 0\<rparr>],
      errorcount = 0, register_names = [], label_names = [], error = 0, stderr = []\<rparr>"
  let ?c2 = "\<lparr>lexdata = [], lineno = 1, lookahead = None, lookaheadstack = [],
      statestack = [12, 4, 0],
      symstack = [\<lparr>stype = T_I, svalue = PStr ''I'', slineno = 1\<rparr>,
                  \<lparr>stype = N_empty_or_space, svalue = PNone, slineno = 0\<rparr>,
                  \<lparr>stype = T_end, svalue = PNone, slineno = 0\<rparr>],
      errorcount = 0, register_names = [], label_names = [], error = 0, stderr = []\<rparr>"
  let ?c3 = "\<lparr>lexdata = ''?'' @ [newline], lineno = 1, lookahead = None, lookaheadstack = [],
      statestack = [3, 0],
      symstack = [\<lparr>stype = T_error, svalue = PLexToken T_QUESTION_MARK (PStr ''?'') 1, slineno = 1\<rparr>,
                  \<lparr>stype = T_end, svalue = PNone, slineno = 0\<rparr>],
      errorcount = 3, register_names = [], label_names = [], error = 0, stderr = []\<rparr>"
  let ?c3b = "\<lparr>lexdata = [newline], lineno = 1, lookahead = None, lookaheadstack = [],
      statestack = [3, 0],
      symstack = [\<lparr>stype = T_error, svalue = PLexToken T_QUESTION_MARK (PStr ''?'') 1, slineno = 1\<rparr>,
                  \<lparr>stype = T_end, svalue = PNone, slineno = 0\<rparr>],
      errorcount = 3, register_names = [], label_names = [], error = 0, stderr = []\<rparr>"
  let ?c3a = "\<lparr>lexdata = [newline], lineno = 1, lookahead = Some \<lparr>stype = T_QUESTION_MARK, svalue = PStr ''?'', slineno = 1\<rparr>, lookaheadstack = [],
      statestack = [3, 0],
      symstack = [\<lparr>stype = T_error, svalue = PLexToken T_QUESTION_MARK (PStr ''?'') 1, slineno = 1\<rparr>,
                  \<lparr>stype = T_end, svalue = PNone, slineno = 0\<rparr>],
      errorcount = 3, register_names = [], label_names = [], error = 0, stderr = []\<rparr>"
  let ?c6 = "\<lparr>lexdata = ''007'' @ [newline], lineno = 1, lookahead = None, lookaheadstack = [],
      statestack = [20, 12, 4, 0],
      symstack = [\<lparr>stype = T_SPACE, svalue = PStr '' '', slineno = 1\<rparr>,
                  \<lparr>stype = T_I, svalue = PStr ''I'', slineno = 1\<rparr>,
                  \<lparr>stype = N_empty_or_space, svalue = PNone, slineno = 0\<rparr>,
                  \<lparr>stype = T_end, svalue = PNone, slineno = 0\<rparr>],
      errorcount = 0, register_names = [], label_names = [], error = 0, stderr = []\<rparr>"
  let ?nl = "\<lparr>stype = T_NEWLINE, svalue = PStr [newline], slineno = 1\<rparr>"
  let ?q = "\<lparr>stype = T_QUESTION_MARK, svalue = PStr ''?'', slineno = 1\<rparr>"
  let ?num = "\<lparr>stype = T_NUMBER, svalue = PInt 7, slineno = 1\<rparr>"
  let ?end = "\<lparr>stype = T_end, svalue = PNone, slineno = 0\<rparr>"
  let ?e = "(ValueError (''Exceeds the limit (4300 digits) for integer string conversion: value has 4301'' @
        '' digits; use sys.set_int_max_str_digits() to increase the limit''))"
  have r0: "replicate 4301 (CHR ''1'') \<noteq> []" "list_all is_digit (replicate 4301 (CHR ''1''))"
    "max_str_digits < length (replicate 4301 (CHR ''1''))"
    by (simp_all add: list_all_iff is_digit_def max_str_digits_def)
  have r1: "str_int 4301 = ''4301''"
    by (simp add: str_int_def digits10.simps)
  have a0: "parse 1 (replicate 4301 (CHR ''1'')) = Some (Inl (?e, []))"
    using raise_at_once [OF r0, of 0] by (simp add: r1)
  have a3: "configs 7 (start (''I??'' @ [newline])) = Some ?c3"
    by code_simp
  have b3: "rejects ?c3 ?q"
    by code_simp
  have c3: "real_token ?q"
    by code_simp
  have d3: "get_lookahead ?c3 = Inr (?q, ?c3a)"
    by code_simp
  have a1: "configs 2 (start (''I'' @ [newline])) = Some ?c1"
    by code_simp
  have b1: "rejects ?c1 ?nl"
    by code_simp
  have c1: "real_token ?nl"
    by code_simp
  have d1: "parse 12 (''I'' @ [newline]) = Some (Inr (PNone, [SyntaxError 1 [CHR 0x5C, CHR ''n'']]))"
    by code_simp
  have a6: "configs 3 (start (''I 007'' @ [newline])) = Some ?c6"
    by code_simp
  have b6: "rejects ?c6 ?num"
    by code_simp
  have c6: "real_token ?num"
    by code_simp
  have d6: "parse 40 (''I 007'' @ [newline]) = Some (Inr (PNone, [SyntaxError 1 ''7'']))"
    by code_simp
  have a2: "configs 2 (start ''I'') = Some ?c2"
    by code_simp
  have b2: "rejects ?c2 ?end"
    by code_simp
  have d2: "parse 3 ''I'' = Some (Inr (PNone, [SyntaxErrorAtEof]))"
    by code_simp
  have s0: "\<not> short_numbers (replicate 4301 (CHR ''1''))"
    using a0 syntax_error_is_reported [of "replicate 4301 (CHR ''1'')" 1 ?e "[]" 0
        "start (replicate 4301 (CHR ''1''))" ?end PNone]
    by blast
  have "\<exists>c1. get_lookahead ?c3 = Inr (?q, c1) \<and>
          parse_step ?c3 = Continue (c1\<lparr>lookahead := None, errorcount := 3\<rparr>)"
    using a3 b3 c3
      syntax_error_is_reported [of "''I??'' @ [newline]" 0 ?e "[]" 7 ?c3 ?q PNone]
    by (simp add: current_state_def)
  with d3 have s3: "parse_step ?c3 = Continue ?c3b"
    by simp
  have u1: "SyntaxError 1 [CHR 0x5C, CHR ''n''] \<in> set [SyntaxError 1 [CHR 0x5C, CHR ''n'']]"
    using a1 b1 c1 d1
      syntax_error_is_reported [of "''I'' @ [newline]" 12 ?e "[SyntaxError 1 [CHR 0x5C, CHR ''n'']]"
        2 ?c1 ?nl PNone]
    by (simp add: current_state_def)
  have u6: "SyntaxError 1 ''7'' \<in> set [SyntaxError 1 ''7'']"
    using a6 b6 c6 d6
      syntax_error_is_reported [of "''I 007'' @ [newline]" 40 ?e "[SyntaxError 1 ''7'']"
        3 ?c6 ?num PNone]
    by (simp add: current_state_def)
  have u2: "(SyntaxErrorAtEof \<in> set [SyntaxErrorAtEof]) = (errorcount ?c2 = 0)"
    using a2 b2 d2
      syntax_error_is_reported [of "''I''" 3 ?e "[SyntaxErrorAtEof]" 2 ?c2 ?end PNone]
    by simp
  from a0 s0 a3 b3 c3 d3 s3 a1 b1 c1 d1 u1 a6 b6 c6 d6 u6 a2 b2 d2 u2
  show ?thesis
    by - (intro conjI; assumption)
qed

text \<open>
  C9 as stated fails in two ways. A text whose only line has no end of line is
  syntactically invalid, and what \<^verbatim>\<open>parse\<close> writes for it is \<^verbatim>\<open>syntax error at eof\<close>, with
  no line number and no token. And a text whose first line is the single token \<^verbatim>\<open>?\<close>
  has an invalid line, yet \<^verbatim>\<open>parse\<close> writes no diagnostic and returns the instruction
  list of the rest of the text: the token is rejected in state 0, before anything is on
  the stack.
\<close>

theorem syntax_error_counterexample:
  "parse 100 ''I have a P'' = Some (Inr (PNone, [SyntaxErrorAtEof])) \<and>
   parse 100 (''?'' @ [newline] @ ''I have a P'' @ [newline])
     = Some (Inr (PList [REGISTER ''P'' 1], []))"
proof -
  have a: "parse 100 ''I have a P'' = Some (Inr (PNone, [SyntaxErrorAtEof]))"
    by code_simp
  have b: "parse 100 (''?'' @ [newline] @ ''I have a P'' @ [newline])
     = Some (Inr (PList [REGISTER ''P'' 1], []))"
    by code_simp
  from a b show ?thesis
    by blast
qed

end
